theory Spec2Isabelle
  imports Complex_Main "HOL-Library.Product_Lexorder"
begin

section \<open>Numbers and arrays\<close>

text \<open>
  The simulator computes on numpy arrays of IEEE doubles.  The embedding keeps the
  structure of those computations and the special values that numpy returns instead
  of raising (\<open>nan\<close>, \<open>inf\<close>, \<open>-inf\<close>), and idealises the rest: a finite
  double is an exact real, rounding and overflow are not represented, and zero carries
  no sign.
\<close>

datatype fl = Fin real | PInf | NInf | NaN

fun is_finite :: "fl \<Rightarrow> bool" where
  "is_finite (Fin a) = True"
| "is_finite PInf = False"
| "is_finite NInf = False"
| "is_finite NaN = False"

fun isnan :: "fl \<Rightarrow> bool" where
  "isnan NaN = True"
| "isnan (Fin a) = False"
| "isnan PInf = False"
| "isnan NInf = False"

text \<open>An infinity with the sign of a real; \<open>nan\<close> for zero (\<open>0 * inf\<close>).\<close>

definition signed_inf :: "real \<Rightarrow> fl" where
  "signed_inf s = (if 0 < s then PInf else if s < 0 then NInf else NaN)"

fun fl_add :: "fl \<Rightarrow> fl \<Rightarrow> fl" where
  "fl_add (Fin a) (Fin b) = Fin (a + b)"
| "fl_add NaN y = NaN"
| "fl_add x NaN = NaN"
| "fl_add PInf NInf = NaN"
| "fl_add NInf PInf = NaN"
| "fl_add PInf y = PInf"
| "fl_add x PInf = PInf"
| "fl_add NInf y = NInf"
| "fl_add x NInf = NInf"

fun fl_neg :: "fl \<Rightarrow> fl" where
  "fl_neg (Fin a) = Fin (- a)"
| "fl_neg PInf = NInf"
| "fl_neg NInf = PInf"
| "fl_neg NaN = NaN"

fun fl_mul :: "fl \<Rightarrow> fl \<Rightarrow> fl" where
  "fl_mul (Fin a) (Fin b) = Fin (a * b)"
| "fl_mul NaN y = NaN"
| "fl_mul x NaN = NaN"
| "fl_mul PInf PInf = PInf"
| "fl_mul PInf NInf = NInf"
| "fl_mul NInf PInf = NInf"
| "fl_mul NInf NInf = PInf"
| "fl_mul PInf (Fin b) = signed_inf b"
| "fl_mul (Fin a) PInf = signed_inf a"
| "fl_mul NInf (Fin b) = signed_inf (- b)"
| "fl_mul (Fin a) NInf = signed_inf (- a)"

text \<open>\<open>1 / x\<close>: numpy returns \<open>inf\<close> for \<open>1 / 0.0\<close> (with a warning, not an error).\<close>

fun fl_recip :: "fl \<Rightarrow> fl" where
  "fl_recip (Fin a) = (if a = 0 then PInf else Fin (1 / a))"
| "fl_recip PInf = Fin 0"
| "fl_recip NInf = Fin 0"
| "fl_recip NaN = NaN"

text \<open>\<open>x ** 0.5\<close>: \<open>nan\<close> for a negative base (with a warning, not an error).\<close>

fun pow_half :: "fl \<Rightarrow> fl" where
  "pow_half (Fin a) = (if a < 0 then NaN else Fin (sqrt a))"
| "pow_half PInf = PInf"
| "pow_half NInf = NaN"
| "pow_half NaN = NaN"

text \<open>Comparisons: every comparison with \<open>nan\<close> is false.\<close>

fun fl_less :: "fl \<Rightarrow> fl \<Rightarrow> bool" where
  "fl_less (Fin a) (Fin b) = (a < b)"
| "fl_less NaN y = False"
| "fl_less x NaN = False"
| "fl_less x NInf = False"
| "fl_less PInf y = False"
| "fl_less NInf y = True"
| "fl_less x PInf = True"

fun fl_le :: "fl \<Rightarrow> fl \<Rightarrow> bool" where
  "fl_le (Fin a) (Fin b) = (a \<le> b)"
| "fl_le NaN y = False"
| "fl_le x NaN = False"
| "fl_le NInf y = True"
| "fl_le x PInf = True"
| "fl_le x NInf = False"
| "fl_le PInf y = False"

instantiation fl :: "{zero, one, plus, minus, uminus, times, inverse}"
begin

definition zero_fl :: fl where "zero_fl = Fin 0"
definition one_fl :: fl where "one_fl = Fin 1"
definition plus_fl :: "fl \<Rightarrow> fl \<Rightarrow> fl" where "plus_fl = fl_add"
definition uminus_fl :: "fl \<Rightarrow> fl" where "uminus_fl = fl_neg"
definition minus_fl :: "fl \<Rightarrow> fl \<Rightarrow> fl" where "minus_fl x y = fl_add x (fl_neg y)"
definition times_fl :: "fl \<Rightarrow> fl \<Rightarrow> fl" where "times_fl = fl_mul"
definition inverse_fl :: "fl \<Rightarrow> fl" where "inverse_fl = fl_recip"
definition divide_fl :: "fl \<Rightarrow> fl \<Rightarrow> fl" where "divide_fl x y = fl_mul x (fl_recip y)"

instance ..

end

text \<open>
  The order in which \<open>argsort\<close> places doubles: ascending, \<open>nan\<close> last.
\<close>

fun sort_key_fl :: "fl \<Rightarrow> nat \<times> real" where
  "sort_key_fl NInf = (0, 0)"
| "sort_key_fl (Fin a) = (1, a)"
| "sort_key_fl PInf = (2, 0)"
| "sort_key_fl NaN = (3, 0)"

datatype dtype = Bool | Float32 | Float64 | Complex128

datatype error =
    ValueError | IndexError | ZeroDivisionError | LinAlgError | AttributeError | TypeError
  | Unmodelled

text \<open>
  An \<open>ndarray\<close> is its element type tag, its shape and its elements in row-major
  order.  \<open>Unmodelled\<close> marks operand shapes that numpy would accept by broadcasting
  and that no computation of this program produces; the embedding does not follow them.
\<close>

record 'a ndarray =
  dtype :: dtype
  shape :: "nat list"
  data :: "'a list"

definition wf_array :: "'a ndarray \<Rightarrow> bool" where
  "wf_array a = (length (data a) = prod_list (shape a))"

definition tab :: "nat list \<Rightarrow> (nat \<Rightarrow> 'a) \<Rightarrow> 'a ndarray" where
  "tab sh f = \<lparr>dtype = Float64, shape = sh, data = map f [0..<prod_list sh]\<rparr>"

fun sumn :: "(nat \<Rightarrow> 'a::{zero,plus}) \<Rightarrow> nat \<Rightarrow> 'a" where
  "sumn f 0 = 0"
| "sumn f (Suc n) = sumn f n + f n"

text \<open>
  \<open>np.einsum("ij,j...->i...", a, x)\<close>: the matrix \<open>a\<close> applied along the first axis
  of \<open>x\<close>, whose remaining axes (none for a vector) are carried through.
\<close>

definition einsum_ij_jE :: "'a::{zero,plus,times} ndarray \<Rightarrow> 'a ndarray \<Rightarrow> error + 'a ndarray" where
  "einsum_ij_jE a x =
     (case shape a of
        [m, n] \<Rightarrow>
          (case shape x of
             [] \<Rightarrow> Inl ValueError
           | n' # rest \<Rightarrow>
               if n = n' then
                 (let r = prod_list rest in
                  Inr (tab (m # rest)
                    (\<lambda>t. sumn (\<lambda>j. data a ! ((t div r) * n + j) * data x ! (j * r + t mod r)) n)))
               else if n = 1 \<or> n' = 1 then Inl Unmodelled
               else Inl ValueError)
      | _ \<Rightarrow> Inl ValueError)"

text \<open>\<open>np.einsum("ij,jk->ik", a, b)\<close>: both operands must be matrices.\<close>

definition einsum_ij_jk :: "'a::{zero,plus,times} ndarray \<Rightarrow> 'a ndarray \<Rightarrow> error + 'a ndarray" where
  "einsum_ij_jk a b =
     (case shape b of [n', p] \<Rightarrow> einsum_ij_jE a b | _ \<Rightarrow> Inl ValueError)"

text \<open>\<open>a.T\<close> of a matrix (\<open>.copy()\<close> has no effect on a value).\<close>

definition transpose2 :: "'a ndarray \<Rightarrow> error + 'a ndarray" where
  "transpose2 a =
     (case shape a of
        [m, n] \<Rightarrow> Inr (tab [n, m] (\<lambda>t. data a ! ((t mod m) * n + t div m)))
      | _ \<Rightarrow> Inl Unmodelled)"

text \<open>
  An elementwise binary operator (\<open>+\<close>, \<open>-\<close>) on two arrays of one shape.  Shapes that
  differ are broadcast by numpy when they are compatible and rejected otherwise.
\<close>

fun bc :: "nat list \<Rightarrow> nat list \<Rightarrow> bool" where
  "bc (a # as) (b # bs) = ((a = b \<or> a = 1 \<or> b = 1) \<and> bc as bs)"
| "bc as bs = True"

definition ew :: "('a \<Rightarrow> 'a \<Rightarrow> 'a) \<Rightarrow> 'a ndarray \<Rightarrow> 'a ndarray \<Rightarrow> error + 'a ndarray" where
  "ew f a b =
     (if shape a = shape b then Inr (tab (shape a) (\<lambda>t. f (data a ! t) (data b ! t)))
      else if bc (rev (shape a)) (rev (shape b)) then Inl Unmodelled
      else Inl ValueError)"

text \<open>\<open>a @ v\<close> for a matrix and a vector: the inner dimensions must be equal.\<close>

definition matmul :: "'a::{zero,plus,times} ndarray \<Rightarrow> 'a ndarray \<Rightarrow> error + 'a ndarray" where
  "matmul a v =
     (case (shape a, shape v) of
        ([m, n], [n']) \<Rightarrow> if n = n' then einsum_ij_jE a v else Inl ValueError
      | _ \<Rightarrow> Inl Unmodelled)"

text \<open>Indexing a sequence with a Python integer: a negative index counts from the end.\<close>

definition py_index :: "'a list \<Rightarrow> int \<Rightarrow> error + 'a" where
  "py_index xs i =
     (let n = int (length xs); j = (if i < 0 then i + n else i)
      in if 0 \<le> j \<and> j < n then Inr (xs ! nat j) else Inl IndexError)"

text \<open>
  \<open>vals.argsort()\<close>: the indices that sort the values, \<open>nan\<close> last.  The order of
  equal values depends on the sorting algorithm; the only use of the result is to read
  the value at one position of the sorted order, which does not depend on it.
\<close>

definition argsort :: "fl list \<Rightarrow> nat list" where
  "argsort vals = sort_key (\<lambda>i. sort_key_fl (vals ! i)) [0..<length vals]"

section \<open>What the program takes from outside\<close>

text \<open>
  A \<open>numpy.random.Generator\<close>: the stream of standard-normal deviates that its seed
  determines, and how many of them have been drawn.
\<close>

record 'a generator =
  deviates :: "nat \<Rightarrow> 'a"
  drawn :: nat

text \<open>\<open>rng.normal(size=sh)\<close>: the next deviates, in order; the generator advances.\<close>

definition normal :: "'a generator \<Rightarrow> nat list \<Rightarrow> 'a ndarray \<times> 'a generator" where
  "normal g sh =
     (tab sh (\<lambda>t. deviates g (drawn g + t)), g\<lparr>drawn := drawn g + prod_list sh\<rparr>)"

text \<open>
  The libraries and the module-level names that the classes read:
  \<^item> \<open>kernel x_out y_out x_in y_in r0 L0\<close>: the phase covariance of two points, from which
    \<open>aocov.phase_covariance_xyxy\<close> fills its matrix;
  \<^item> \<open>eigh\<close>: \<open>np.linalg.eigh\<close>;
  \<^item> \<open>default_rng seed\<close>: the deviates of \<open>np.random.default_rng(seed)\<close>;
  \<^item> \<open>clock\<close>: the three readings of \<open>time.time()\<close> taken by the benchmark;
  \<^item> \<open>pup_width\<close> and \<open>pupil\<close>: the module-level variables of these names, which
    \<open>PhaseScreen.__init__\<close> and the methods of \<open>SHWFS\<close> read.
\<close>

record 'a env =
  kernel :: "real \<Rightarrow> real \<Rightarrow> real \<Rightarrow> real \<Rightarrow> real \<Rightarrow> real \<Rightarrow> 'a"
  eigh :: "'a ndarray \<Rightarrow> error + 'a ndarray \<times> 'a ndarray"
  default_rng :: "int \<Rightarrow> nat \<Rightarrow> 'a"
  clock :: "real \<times> real \<times> real"
  pup_width :: nat
  pupil :: "bool ndarray"

section \<open>The state matrix\<close>

datatype strategy = Classic | Factored

text \<open>
  \<open>PhaseScreen.StateMatrix\<close>.  The two cached \<open>einsum_path\<close> plans only fix an order
  of evaluation; they are not fields of the model.  \<open>dot\<close> is the method selected by
  the benchmark.
\<close>

record 'a StateMatrix =
  sm_ML :: "'a ndarray"
  sm_LT :: "'a ndarray"
  sm_A :: "'a ndarray"
  dot_sel :: strategy

definition dot_classic :: "'a::{zero,plus,times} StateMatrix \<Rightarrow> 'a ndarray \<Rightarrow> error + 'a ndarray" where
  "dot_classic sm x = einsum_ij_jE (sm_A sm) x"

text \<open>
  \<open>np.einsum("ij,jk,k...->i...", ML, LT, x)\<close>, evaluated as the plan computed at
  construction orders it: \<open>LT\<close> is contracted with \<open>x\<close> first, then \<open>ML\<close> with the
  result.  \<open>ML\<close> and \<open>LT\<close> have to be matrices that share the label \<open>j\<close>.
\<close>

definition dot_factored :: "'a::{zero,plus,times} StateMatrix \<Rightarrow> 'a ndarray \<Rightarrow> error + 'a ndarray" where
  "dot_factored sm x =
     (case (shape (sm_ML sm), shape (sm_LT sm)) of
        ([m, k], [k', n]) \<Rightarrow>
          if k = k' then
            (case einsum_ij_jE (sm_LT sm) x of
               Inl e \<Rightarrow> Inl e
             | Inr y \<Rightarrow> einsum_ij_jE (sm_ML sm) y)
          else if k = 1 \<or> k' = 1 then Inl Unmodelled
          else Inl ValueError
      | _ \<Rightarrow> Inl ValueError)"

text \<open>\<open>StateMatrix.shape\<close> is \<open>A.shape\<close>; \<open>test_speed\<close> reads \<open>shape[1]\<close>.\<close>

definition test_speed :: "'a::{zero,plus,times} env \<Rightarrow> 'a StateMatrix \<Rightarrow> nat \<Rightarrow> int \<Rightarrow> error + real \<times> real" where
  "test_speed ev sm ntests seed =
     (case shape (sm_A sm) of
        m # n # rest \<Rightarrow>
          (let x = fst (normal \<lparr>deviates = default_rng ev seed, drawn = 0\<rparr> [n, ntests]);
               (t1, t2, t3) = clock ev
           in case dot_factored sm x of
                Inl e \<Rightarrow> Inl e
              | Inr y1 \<Rightarrow>
                  (case dot_classic sm x of
                     Inl e \<Rightarrow> Inl e
                   | Inr y2 \<Rightarrow>
                       if ntests = 0 then Inl ZeroDivisionError
                       else Inr ((t3 - t2) / real ntests, (t2 - t1) / real ntests)))
      | _ \<Rightarrow> Inl IndexError)"

text \<open>
  \<open>StateMatrix.__init__(cov_yx, inv_factor_xx)\<close>.  The result of \<open>test_speed(10)\<close> is
  the pair (classic, factored); the factored product is selected when the classic one
  took strictly longer.
\<close>

definition StateMatrix_init :: "'a::{zero,plus,times} env \<Rightarrow> 'a ndarray \<Rightarrow> 'a ndarray \<Rightarrow> error + 'a StateMatrix" where
  "StateMatrix_init ev cov_yx inv_factor_xx =
     (case einsum_ij_jk cov_yx inv_factor_xx of
        Inl e \<Rightarrow> Inl e
      | Inr ml \<Rightarrow>
          (case transpose2 inv_factor_xx of
             Inl e \<Rightarrow> Inl e
           | Inr lt \<Rightarrow>
               (case einsum_ij_jk ml lt of
                  Inl e \<Rightarrow> Inl e
                | Inr a \<Rightarrow>
                    (let sm = \<lparr>sm_ML = ml, sm_LT = lt, sm_A = a, dot_sel = Classic\<rparr>
                     in case test_speed ev sm 10 1 of
                          Inl e \<Rightarrow> Inl e
                        | Inr (classic, factored) \<Rightarrow>
                            if classic > factored then Inr (sm\<lparr>dot_sel := Factored\<rparr>)
                            else Inr (sm\<lparr>dot_sel := Classic\<rparr>)))))"

definition dot :: "'a::{zero,plus,times} StateMatrix \<Rightarrow> 'a ndarray \<Rightarrow> error + 'a ndarray" where
  "dot sm x = (case dot_sel sm of Classic \<Rightarrow> dot_classic sm x | Factored \<Rightarrow> dot_factored sm x)"

section \<open>The phase screen\<close>

text \<open>
  The fields of \<open>PhaseScreen\<close>.  A field declared with the default \<open>None\<close> is an
  option.  \<open>rng\<close> refers to a generator object; the generators live in a store, a list
  indexed by reference, because drawing from a generator changes the generator and not
  the field that refers to it.
\<close>

record PhaseScreen =
  pupil_ps :: "bool ndarray"
  r0 :: real
  L0 :: real
  diam_ps :: real
  laminar :: real
  wind :: "real list"
  ittime :: real
  pixsize :: "real option"
  thresh_ps :: real
  xx_max :: "int option"
  vv_max :: "int option"
  factor_xx :: "fl ndarray option"
  factor_vv :: "fl ndarray option"
  x_ps :: "fl ndarray option"
  seed :: int
  rng :: "nat option"
  state_matrix :: "fl StateMatrix option"

type_synonym store = "fl generator list"

text \<open>The declared defaults, for a given pupil.\<close>

definition PhaseScreen_defaults :: "bool ndarray \<Rightarrow> PhaseScreen" where
  "PhaseScreen_defaults p =
     \<lparr>pupil_ps = p, r0 = 0.15, L0 = 25, diam_ps = 8, laminar = 0.995, wind = [10, 20],
      ittime = 1 / 500, pixsize = None, thresh_ps = 1 / 100000, xx_max = None, vv_max = None,
      factor_xx = None, factor_vv = None, x_ps = None, seed = 1234, rng = None,
      state_matrix = None\<rparr>"

text \<open>
  \<open>np.linalg.eigh\<close> rejects an argument that is not a square matrix and returns \<open>n\<close>
  eigenvalues and an \<open>n \<times> n\<close> matrix of eigenvectors; a result of the external
  function that had another form is not followed.
\<close>

definition eigh_checked :: "fl env \<Rightarrow> fl ndarray \<Rightarrow> error + fl ndarray \<times> fl ndarray" where
  "eigh_checked ev a =
     (case shape a of
        [n, n'] \<Rightarrow>
          if n \<noteq> n' then Inl LinAlgError
          else (case eigh ev a of
                  Inl e \<Rightarrow> Inl e
                | Inr (vals, vecs) \<Rightarrow>
                    if shape vals = [n] \<and> shape vecs = [n, n] \<and> wf_array vals \<and> wf_array vecs
                    then Inr (vals, vecs) else Inl Unmodelled)
      | _ \<Rightarrow> Inl LinAlgError)"

text \<open>
  The mask \<open>valid\<close> of \<open>_factorh\<close>: \<open>vals > self.thresh\<close> when \<open>n_modes\<close> is \<open>None\<close>,
  else \<open>vals >= vals[vals.argsort()[-n_modes]]\<close>.
\<close>

definition valid_mask :: "real \<Rightarrow> fl list \<Rightarrow> int option \<Rightarrow> error + bool list" where
  "valid_mask th vals n_modes =
     (case n_modes of
        None \<Rightarrow> Inr (map (\<lambda>v. fl_less (Fin th) v) vals)
      | Some nm \<Rightarrow>
          (case py_index (argsort vals) (- nm) of
             Inl e \<Rightarrow> Inl e
           | Inr i \<Rightarrow> Inr (map (\<lambda>v. fl_le (vals ! i) v) vals)))"

text \<open>The positions that a boolean mask selects, in order.\<close>

definition kept :: "bool list \<Rightarrow> nat list" where
  "kept valid = filter (\<lambda>j. valid ! j) [0..<length valid]"

text \<open>
  \<open>PhaseScreen._factorh(symmetric_matrix, n_modes)\<close>; \<open>th\<close> is \<open>self.thresh\<close>.  The
  columns of the eigenvector matrix at the kept positions are scaled by
  \<open>vals ** 0.5\<close> and by \<open>(1 / vals) ** 0.5\<close> of the kept eigenvalues.
\<close>

definition factorh :: "fl env \<Rightarrow> real \<Rightarrow> fl ndarray \<Rightarrow> int option \<Rightarrow> error + fl ndarray \<times> fl ndarray" where
  "factorh ev th symmetric_matrix n_modes =
     (case eigh_checked ev symmetric_matrix of
        Inl e \<Rightarrow> Inl e
      | Inr (vals, vecs) \<Rightarrow>
          (case valid_mask th (data vals) n_modes of
             Inl e \<Rightarrow> Inl e
           | Inr valid \<Rightarrow>
               (let n = length (data vals);
                    cols = kept valid;
                    k = length cols;
                    vecs' = tab [n, k] (\<lambda>t. data vecs ! ((t div k) * n + cols ! (t mod k)));
                    vals' = tab [k] (\<lambda>t. data vals ! (cols ! t));
                    factor = tab [n, k] (\<lambda>t. data vecs' ! t * pow_half (data vals' ! (t mod k)));
                    inv_factor =
                      tab [n, k] (\<lambda>t. data vecs' ! t * pow_half (1 / data vals' ! (t mod k)))
                in Inr (factor, inv_factor))))"

text \<open>
  \<open>PhaseScreen._covariance(x_in, y_in, x_out, y_out)\<close>: the matrix that
  \<open>aocov.phase_covariance_xyxy(x_out, y_out, x_in, y_in, r0, L0)\<close> fills, one row for
  each output point and one column for each input point, scaled.
\<close>

definition covariance :: "fl env \<Rightarrow> PhaseScreen \<Rightarrow> real list \<Rightarrow> real list \<Rightarrow> real list \<Rightarrow> real list \<Rightarrow> fl ndarray" where
  "covariance ev ps x_in y_in x_out y_out =
     (let n = length x_in in
      tab [length x_out, n]
        (\<lambda>t. kernel ev (x_out ! (t div n)) (y_out ! (t div n)) (x_in ! (t mod n)) (y_in ! (t mod n))
               (r0 ps) (L0 ps)
             * Fin ((0.5 / (pi * 2))\<^sup>2)))"

text \<open>
  The innovation covariance as line 116 computes it:
  \<open>sigma_xx - state_matrix.dot(state_matrix.dot(sigma_xx).T).T\<close>.
\<close>

definition sigma_vv :: "'a::{zero,plus,minus,times} StateMatrix \<Rightarrow> 'a ndarray \<Rightarrow> error + 'a ndarray" where
  "sigma_vv sm sigma_xx =
     (case dot sm sigma_xx of
        Inl e \<Rightarrow> Inl e
      | Inr b \<Rightarrow>
          (case transpose2 b of
             Inl e \<Rightarrow> Inl e
           | Inr bt \<Rightarrow>
               (case dot sm bt of
                  Inl e \<Rightarrow> Inl e
                | Inr c \<Rightarrow>
                    (case transpose2 c of
                       Inl e \<Rightarrow> Inl e
                     | Inr ct \<Rightarrow> ew (-) sigma_xx ct))))"

text \<open>
  The innovation covariance as the specification writes it:
  \<open>\<Sigma>xx - A \<Sigma>xx A\<^sup>t\<close>, with the dense matrix \<open>A\<close>.
\<close>

definition innovation_spec :: "'a::{zero,plus,minus,times} ndarray \<Rightarrow> 'a ndarray \<Rightarrow> error + 'a ndarray" where
  "innovation_spec a sigma_xx =
     (case einsum_ij_jk a sigma_xx of
        Inl e \<Rightarrow> Inl e
      | Inr p \<Rightarrow>
          (case transpose2 a of
             Inl e \<Rightarrow> Inl e
           | Inr a_t \<Rightarrow>
               (case einsum_ij_jk p a_t of
                  Inl e \<Rightarrow> Inl e
                | Inr q \<Rightarrow> ew (-) sigma_xx q)))"

text \<open>
  The coordinates \<open>(xx, yy)\<close> of the active points: \<open>np.mgrid[:w, :w] * pixsize\<close> read
  at the true entries of the pupil, in row-major order.
\<close>

definition grid_coords :: "nat \<Rightarrow> real \<Rightarrow> bool ndarray \<Rightarrow> real list \<times> real list" where
  "grid_coords w px p =
     (let active = filter (\<lambda>t. data p ! t) [0..<w * w]
      in (map (\<lambda>t. real (t mod w) * px) active, map (\<lambda>t. real (t div w) * px) active))"

text \<open>
  \<open>PhaseScreen.__init__\<close>, after the base class has stored the arguments in the
  fields of \<open>ps\<close>.  The new generator is appended to the store.
\<close>

definition PhaseScreen_init :: "fl env \<Rightarrow> PhaseScreen \<Rightarrow> store \<Rightarrow> error + PhaseScreen \<times> store" where
  "PhaseScreen_init ev ps h =
     (let r = length h;
          h1 = h @ [\<lparr>deviates = default_rng ev (seed ps), drawn = 0\<rparr>];
          w = pup_width ev
      in if \<not> wf_array (pupil_ps ps) then Inl Unmodelled
         else case shape (pupil_ps ps) of
           [] \<Rightarrow> Inl IndexError
         | d0 # ds \<Rightarrow>
             if d0 = 0 then Inl ZeroDivisionError
             else if d0 # ds \<noteq> [w, w] then (if length ds = 1 then Inl IndexError else Inl Unmodelled)
             else
               (let px = diam_ps ps / real d0;
                    (xx, yy) = grid_coords w px (pupil_ps ps);
                    sigma_xx = covariance ev ps xx yy xx yy
                in case factorh ev (thresh_ps ps) sigma_xx (xx_max ps) of
                     Inl e \<Rightarrow> Inl e
                   | Inr (f_xx, inv_factor_xx) \<Rightarrow>
                       (case wind ps of
                          w0 # w1 # ws \<Rightarrow>
                            (let c = covariance ev ps (map (\<lambda>a. a + w0 * ittime ps) xx)
                                       (map (\<lambda>a. a + w1 * ittime ps) yy) xx yy;
                                 sigma_yx = tab (shape c) (\<lambda>t. Fin (laminar ps) * data c ! t)
                             in case StateMatrix_init ev sigma_yx inv_factor_xx of
                                  Inl e \<Rightarrow> Inl e
                                | Inr sm \<Rightarrow>
                                    (case sigma_vv sm sigma_xx of
                                       Inl e \<Rightarrow> Inl e
                                     | Inr s_vv \<Rightarrow>
                                         (case factorh ev (thresh_ps ps) s_vv (vv_max ps) of
                                            Inl e \<Rightarrow> Inl e
                                          | Inr (f_vv, unused) \<Rightarrow>
                                              (case shape f_xx of
                                                 m # k # rest \<Rightarrow>
                                                   (let (z, g) = normal (h1 ! r) [k]
                                                    in case matmul f_xx z of
                                                         Inl e \<Rightarrow> Inl e
                                                       | Inr x0 \<Rightarrow>
                                                           Inr (ps\<lparr>rng := Some r, pixsize := Some px,
                                                                   factor_xx := Some f_xx,
                                                                   state_matrix := Some sm,
                                                                   factor_vv := Some f_vv,
                                                                   x_ps := Some x0\<rparr>,
                                                                h1[r := g]))
                                               | _ \<Rightarrow> Inl IndexError))))
                        | _ \<Rightarrow> Inl IndexError)))"

text \<open>
  \<open>PhaseScreen.step\<close>.  The generator that \<open>rng\<close> refers to is advanced in the store;
  the object gets a new \<open>x\<close>.
\<close>

definition step :: "PhaseScreen \<Rightarrow> store \<Rightarrow> error + PhaseScreen \<times> store" where
  "step ps h =
     (case rng ps of
        None \<Rightarrow> Inl AttributeError
      | Some r \<Rightarrow>
          (case factor_vv ps of
             None \<Rightarrow> Inl AttributeError
           | Some f_vv \<Rightarrow>
               (case shape f_vv of
                  m # k # rest \<Rightarrow>
                    if length h \<le> r then Inl Unmodelled
                    else
                      (let (v, g) = normal (h ! r) [k]
                       in case state_matrix ps of
                            None \<Rightarrow> Inl AttributeError
                          | Some sm \<Rightarrow>
                              (case x_ps ps of
                                 None \<Rightarrow> Inl Unmodelled
                               | Some xs \<Rightarrow>
                                   (case dot sm xs of
                                      Inl e \<Rightarrow> Inl e
                                    | Inr ax \<Rightarrow>
                                        (case matmul f_vv v of
                                           Inl e \<Rightarrow> Inl e
                                         | Inr fv \<Rightarrow>
                                             (case ew (+) ax fv of
                                                Inl e \<Rightarrow> Inl e
                                              | Inr x' \<Rightarrow>
                                                  Inr (ps\<lparr>x_ps := Some x'\<rparr>, h[r := g]))))))
                | _ \<Rightarrow> Inl IndexError)))"

text \<open>
  The shapes that \<open>__init__\<close> establishes and \<open>step\<close> keeps: the state is a vector of
  some length \<open>n\<close>, \<open>A\<close> is \<open>n \<times> n\<close> with factors \<open>n \<times> k\<close> and \<open>k \<times> n\<close>, the innovation
  factor has \<open>n\<close> rows, and \<open>rng\<close> refers to a generator of the store.
\<close>

definition screen_ok :: "PhaseScreen \<Rightarrow> store \<Rightarrow> bool" where
  "screen_ok ps h =
     (case (rng ps, factor_vv ps, state_matrix ps, x_ps ps) of
        (Some r, Some f_vv, Some sm, Some xs) \<Rightarrow>
          r < length h \<and>
          (case (shape xs, shape f_vv, shape (sm_A sm), shape (sm_ML sm), shape (sm_LT sm)) of
             ([n], [n1, k], [m, n2], [m', k1], [k2, n3]) \<Rightarrow>
               n1 = n \<and> m = n \<and> n2 = n \<and> m' = n \<and> k1 = k2 \<and> n3 = n
           | _ \<Rightarrow> False)
      | _ \<Rightarrow> False)"

text \<open>
  The loop of the main program calls \<open>step\<close> again and again; \<open>steps n\<close> is \<open>n\<close>
  calls in a row, stopping at the first one that raises.
\<close>

fun steps :: "nat \<Rightarrow> PhaseScreen \<Rightarrow> store \<Rightarrow> error + PhaseScreen \<times> store" where
  "steps 0 ps h = Inr (ps, h)"
| "steps (Suc n) ps h = (case step ps h of Inl e \<Rightarrow> Inl e | Inr (ps', h') \<Rightarrow> steps n ps' h')"

section \<open>The wavefront sensor\<close>

record SHWFS =
  pupil_wfs :: "bool ndarray"
  nsubx :: nat
  fovx :: nat
  wavelength :: real
  dft2 :: "complex ndarray option"
  im_subaps :: "real ndarray option"
  im_full :: "real ndarray option"
  diam_wfs :: real
  padded_width :: "nat option"

definition SHWFS_defaults :: "bool ndarray \<Rightarrow> SHWFS" where
  "SHWFS_defaults p =
     \<lparr>pupil_wfs = p, nsubx = 32, fovx = 8, wavelength = 0.589, dft2 = None,
      im_subaps = None, im_full = None, diam_wfs = 8, padded_width = None\<rparr>"

text \<open>\<open>SHWFS.subwidth\<close>: \<open>self.pupil.shape[0] // self.nsubx\<close>.\<close>

definition subwidth :: "SHWFS \<Rightarrow> error + nat" where
  "subwidth sh =
     (case shape (pupil_wfs sh) of
        [] \<Rightarrow> Inl IndexError
      | d0 # ds \<Rightarrow> if nsubx sh = 0 then Inl ZeroDivisionError else Inr (d0 div nsubx sh))"

text \<open>
  The rows of the one-dimensional kernel that \<open>SHWFS.__init__\<close> keeps: all \<open>pw\<close> of
  them, or the slice \<open>pw//2 - fovx//2 : pw//2 + fovx//2\<close> when \<open>fovx < pw\<close>.
\<close>

definition kept_rows :: "nat \<Rightarrow> nat \<Rightarrow> nat list" where
  "kept_rows pw fv = (if fv < pw then [pw div 2 - fv div 2 ..< pw div 2 + fv div 2] else [0..<pw])"

text \<open>
  Entry \<open>(a, b)\<close> of the kernel before the rows are cut: the orthonormal DFT of the
  identity, its rows rolled by \<open>pw // 2\<close> (\<open>fftshift\<close>), times the half-pixel phase.
\<close>

definition dft_entry :: "nat \<Rightarrow> nat \<Rightarrow> nat \<Rightarrow> complex" where
  "dft_entry pw a b =
     exp (- \<i> * 2 * of_real pi * of_nat (((a + pw - pw div 2) mod pw) * b) / of_nat pw)
       / of_real (sqrt (real pw))
     * exp (- \<i> * of_real pi * 2 * of_nat b / of_nat pw / 2)"

text \<open>
  \<open>SHWFS.__init__\<close>, after the base class has stored the arguments.  \<open>np.kron\<close> of the
  cut kernel with itself is \<open>dft2\<close>; the reshape of the module-level \<open>pupil\<close> fails
  unless its size is \<open>(nsubx * subwidth)\<^sup>2\<close>.
\<close>

definition SHWFS_init :: "'a env \<Rightarrow> SHWFS \<Rightarrow> error + SHWFS" where
  "SHWFS_init ev sh =
     (case subwidth sh of
        Inl e \<Rightarrow> Inl e
      | Inr sw \<Rightarrow>
          (let pw = max (sw * 2) (fovx sh) in
           if pw = 0 then Inl ValueError
           else
             (let rows = kept_rows pw (fovx sh);
                  nr = length rows;
                  d2 = \<lparr>dtype = Complex128, shape = [nr * nr, sw * sw],
                         data = map (\<lambda>t. dft_entry pw (rows ! ((t div (sw * sw)) div nr)) ((t mod (sw * sw)) div sw)
                                        * dft_entry pw (rows ! ((t div (sw * sw)) mod nr)) ((t mod (sw * sw)) mod sw))
                                  [0..<nr * nr * (sw * sw)]\<rparr>
              in if prod_list (shape (pupil ev)) \<noteq> nsubx sh * sw * (nsubx sh * sw) then Inl ValueError
                 else Inr (sh\<lparr>padded_width := Some pw, dft2 := Some d2\<rparr>))))"

text \<open>
  \<open>SHWFS.measure(phi)\<close>.  The complex amplitude is formed from the module-level
  \<open>pupil\<close>.  \<open>camp i j q\<close> is the amplitude after the reshape to
  \<open>(nsubx, subwidth, nsubx, subwidth)\<close>, the exchange of axes 1 and 2 and the flattening
  of the last two axes; \<open>im\<close> is the intensity in the layout \<open>(nsubx, nsubx, p)\<close>.
\<close>

definition measure_wfs :: "'a env \<Rightarrow> SHWFS \<Rightarrow> real ndarray \<Rightarrow> error + SHWFS" where
  "measure_wfs ev sh phi =
     (if wavelength sh = 0 then Inl Unmodelled
      else if shape (pupil ev) \<noteq> shape phi then
        (if bc (rev (shape (pupil ev))) (rev (shape phi)) then Inl Unmodelled else Inl ValueError)
      else
        (let camp0 = (\<lambda>t. (if data (pupil ev) ! t then 1 else 0)
                           * exp (\<i> * of_real (data phi ! t) * 2 * of_real pi / of_real (wavelength sh)))
         in case subwidth sh of
              Inl e \<Rightarrow> Inl e
            | Inr sw \<Rightarrow>
                (let n = nsubx sh; f = fovx sh in
                 if prod_list (shape phi) \<noteq> n * sw * (n * sw) then Inl ValueError
                 else
                   (let camp = (\<lambda>i j q. camp0 (((i * sw + q div sw) * n + j) * sw + q mod sw))
                    in case dft2 sh of
                         None \<Rightarrow> Inl Unmodelled
                       | Some d \<Rightarrow>
                           (case shape d of
                              [p, q'] \<Rightarrow>
                                if q' \<noteq> sw * sw then
                                  (if q' = 1 \<or> sw * sw = 1 then Inl Unmodelled else Inl ValueError)
                                else
                                  (let im = (\<lambda>t. (cmod (sumn (\<lambda>q. camp ((t div p) div n) ((t div p) mod n) q
                                                                    * data d ! ((t mod p) * q' + q)) q'))\<^sup>2)
                                   in if n * n * p \<noteq> n * n * (f * f) then Inl ValueError
                                      else
                                        Inr (sh\<lparr>im_subaps :=
                                                   Some \<lparr>dtype = Float64, shape = [n * n, f, f],
                                                         data = map im [0..<n * n * (f * f)]\<rparr>,
                                                 im_full :=
                                                   Some \<lparr>dtype = Float64, shape = [n * f, n * f],
                                                         data = map (\<lambda>t. im ((((t div (n * f)) div f) * n
                                                                                + (t mod (n * f)) div f) * p
                                                                             + ((t div (n * f)) mod f) * f
                                                                             + (t mod (n * f)) mod f))
                                                                  [0..<n * f * (n * f)]\<rparr>\<rparr>))
                            | _ \<Rightarrow> Inl ValueError)))))"

section \<open>The centroider\<close>

record ClassicCog =
  npix :: nat
  r_mat :: "real ndarray option"
  xy_mat :: "real ndarray option"
  thresh_cog :: "real option"
  einsum_num_str :: string
  es_path :: "unit option"

text \<open>The declared defaults: the threshold is \<open>0.0\<close>, not \<open>None\<close>.\<close>

definition ClassicCog_defaults :: "nat \<Rightarrow> ClassicCog" where
  "ClassicCog_defaults n =
     \<lparr>npix = n, r_mat = None, xy_mat = None, thresh_cog = Some 0,
      einsum_num_str = ''jk,ik,jk->ij'', es_path = None\<rparr>"

text \<open>
  \<open>ClassicCog.calibrate\<close>: row 0 of \<open>xy_mat\<close> is the flattened \<open>xx\<close> of the mesh grid,
  row 1 the flattened \<open>yy\<close>; \<open>r_mat\<close> is all ones.  The plan that \<open>optimize_einsum\<close>
  stores is kept only as present or absent.
\<close>

definition x_span :: "nat \<Rightarrow> nat \<Rightarrow> real" where
  "x_span n i = real i - real n / 2 + 0.5"

definition calibrate :: "ClassicCog \<Rightarrow> ClassicCog" where
  "calibrate cc =
     (let n = npix cc;
          xy = tab [2, n * n]
                 (\<lambda>t. if t div (n * n) = 0 then x_span n ((t mod (n * n)) mod n)
                      else x_span n ((t mod (n * n)) div n))
      in cc\<lparr>xy_mat := Some xy, r_mat := Some (tab [2, n * n] (\<lambda>t. 1)), es_path := Some ()\<rparr>)"

text \<open>The threshold branch of \<open>cog\<close>: subtract, then set the negative entries to zero.\<close>

definition apply_thresh :: "real option \<Rightarrow> real ndarray \<Rightarrow> real ndarray" where
  "apply_thresh th a =
     (case th of
        None \<Rightarrow> a
      | Some t \<Rightarrow> a\<lparr>dtype := Float64, data := map (\<lambda>v. if v - t < 0 then 0 else v - t) (data a)\<rparr>)"

text \<open>
  \<open>ClassicCog.cog(intensity)\<close>.  A two-dimensional argument gets a leading axis of
  length one.  \<open>num\<close> is the contraction \<open>jk,ik,jk->ij\<close> with the images flattened to
  \<open>p\<close> pixels, \<open>den\<close> the sum over the two image axes; the quotient is taken in doubles,
  where a division by zero gives \<open>nan\<close> or an infinity, and stored as \<open>float32\<close>.  An
  argument with more than three axes is not followed.
\<close>

definition cog :: "ClassicCog \<Rightarrow> real ndarray \<Rightarrow> error + fl ndarray" where
  "cog cc intensity0 =
     (let intensity1 = (if length (shape intensity0) = 2
                        then intensity0\<lparr>shape := 1 # shape intensity0\<rparr> else intensity0);
          intensity = apply_thresh (thresh_cog cc) intensity1
      in case shape intensity of
           [] \<Rightarrow> Inl IndexError
         | [nb] \<Rightarrow> Inl TypeError
         | nb # a # rest \<Rightarrow>
             (case es_path cc of
                None \<Rightarrow> Inl TypeError
              | Some pl \<Rightarrow>
                  (case (r_mat cc, xy_mat cc) of
                     (Some rm, Some xy) \<Rightarrow>
                       if einsum_num_str cc \<noteq> ''jk,ik,jk->ij'' then Inl Unmodelled
                       else
                         (case (shape rm, shape xy) of
                            ([j1, k1], [j2, k2]) \<Rightarrow>
                              (let p = a * prod_list rest in
                               if j1 = j2 \<and> k1 = p \<and> k2 = p then
                                 (case rest of
                                    [b] \<Rightarrow>
                                      (let num = (\<lambda>i j. sumn (\<lambda>k. data rm ! (j * p + k)
                                                                      * data intensity ! (i * p + k)
                                                                      * data xy ! (j * p + k)) p);
                                           den = (\<lambda>i. sumn (\<lambda>k. data intensity ! (i * p + k)) p)
                                       in Inr \<lparr>dtype = Float32, shape = [nb, j1],
                                               data = map (\<lambda>t. Fin (num (t div j1) (t mod j1))
                                                               / Fin (den (t div j1)))
                                                        [0..<nb * j1]\<rparr>)
                                  | _ \<Rightarrow> Inl Unmodelled)
                               else if 1 \<in> set [j1, j2, k1, k2, p] then Inl Unmodelled
                               else Inl ValueError)
                          | _ \<Rightarrow> Inl ValueError)
                   | _ \<Rightarrow> Inl Unmodelled)))"

text \<open>
  The centroid as the specification states it, for image \<open>i\<close> of a batch of images of
  \<open>p\<close> pixels: the weight of a pixel is its thresholded intensity, \<open>flux\<close> is the sum
  of the weights and \<open>moment\<close> the sum of coordinate times weight, for the axis
  \<open>j\<close> (0 for x, 1 for y).
\<close>

definition pixel_weight :: "real option \<Rightarrow> real ndarray \<Rightarrow> nat \<Rightarrow> nat \<Rightarrow> nat \<Rightarrow> real" where
  "pixel_weight th img p i k = data (apply_thresh th img) ! (i * p + k)"

definition coord :: "nat \<Rightarrow> nat \<Rightarrow> nat \<Rightarrow> real" where
  "coord n j k = (if j = 0 then x_span n (k mod n) else x_span n (k div n))"

definition flux :: "real option \<Rightarrow> real ndarray \<Rightarrow> nat \<Rightarrow> nat \<Rightarrow> real" where
  "flux th img p i = (\<Sum>k<p. pixel_weight th img p i k)"

definition moment :: "nat \<Rightarrow> real option \<Rightarrow> real ndarray \<Rightarrow> nat \<Rightarrow> nat \<Rightarrow> real" where
  "moment n th img i j = (\<Sum>k<n * n. coord n j k * pixel_weight th img (n * n) i k)"

section \<open>Finite doubles as exact reals\<close>

text \<open>
  An array of reals read as an array of finite doubles, and a state matrix likewise.
\<close>

definition lift :: "real ndarray \<Rightarrow> fl ndarray" where
  "lift a = \<lparr>dtype = dtype a, shape = shape a, data = map Fin (data a)\<rparr>"

definition lift_sm :: "real StateMatrix \<Rightarrow> fl StateMatrix" where
  "lift_sm sm =
     \<lparr>sm_ML = lift (sm_ML sm), sm_LT = lift (sm_LT sm), sm_A = lift (sm_A sm),
      dot_sel = dot_sel sm\<rparr>"

text \<open>
  The other way round: the real that a finite double stands for, and an array all of
  whose entries are finite (and as many as its shape says).
\<close>

fun real_of_fl :: "fl \<Rightarrow> real" where
  "real_of_fl (Fin a) = a"
| "real_of_fl PInf = 0"
| "real_of_fl NInf = 0"
| "real_of_fl NaN = 0"

definition unlift :: "fl ndarray \<Rightarrow> real ndarray" where
  "unlift a = \<lparr>dtype = dtype a, shape = shape a, data = map real_of_fl (data a)\<rparr>"

definition finite_array :: "fl ndarray \<Rightarrow> bool" where
  "finite_array a = (wf_array a \<and> list_all is_finite (data a))"

text \<open>
  A constructed phase screen whose arrays are finite: the two factors of the state
  matrix, the innovation factor and the state.
\<close>

definition finite_screen :: "PhaseScreen \<Rightarrow> bool" where
  "finite_screen ps =
     (case (state_matrix ps, factor_vv ps, x_ps ps) of
        (Some sm, Some f_vv, Some xs) \<Rightarrow>
          finite_array (sm_ML sm) \<and> finite_array (sm_LT sm) \<and> finite_array f_vv \<and> finite_array xs
      | _ \<Rightarrow> False)"

section \<open>Concrete inputs\<close>

text \<open>
  An environment over exact reals in which the benchmark finds the factored product
  faster, and a small cross-covariance, inverse factor and state vector.
\<close>

definition ev_exact :: "real env" where
  "ev_exact =
     \<lparr>kernel = (\<lambda>a b c d e f. 1), eigh = (\<lambda>a. Inl LinAlgError), default_rng = (\<lambda>s i. 0),
      clock = (0, 1, 3), pup_width = 1,
      pupil = \<lparr>dtype = Bool, shape = [1, 1], data = [True]\<rparr>\<rparr>"

definition cov_ex :: "real ndarray" where
  "cov_ex = \<lparr>dtype = Float64, shape = [2, 2], data = [1, 2, 3, 4]\<rparr>"

definition inv_ex :: "real ndarray" where
  "inv_ex = \<lparr>dtype = Float64, shape = [2, 1], data = [1, 1]\<rparr>"

definition sm_ex :: "real StateMatrix" where
  "sm_ex =
     \<lparr>sm_ML = \<lparr>dtype = Float64, shape = [2, 1], data = [3, 7]\<rparr>,
      sm_LT = \<lparr>dtype = Float64, shape = [1, 2], data = [1, 1]\<rparr>,
      sm_A = \<lparr>dtype = Float64, shape = [2, 2], data = [3, 3, 7, 7]\<rparr>,
      dot_sel = Factored\<rparr>"

definition sigma_ex :: "real ndarray" where
  "sigma_ex = \<lparr>dtype = Float64, shape = [2, 2], data = [2, 1, 1, 2]\<rparr>"

definition x_ex :: "real ndarray" where
  "x_ex = \<lparr>dtype = Float64, shape = [2], data = [1, 2]\<rparr>"

text \<open>
  A phase screen with two active points and one innovation mode, and a store whose
  only generator has drawn nothing yet.
\<close>

definition ps_ex :: PhaseScreen where
  "ps_ex =
     (PhaseScreen_defaults \<lparr>dtype = Bool, shape = [1, 2], data = [True, True]\<rparr>)
       \<lparr>rng := Some 0,
        factor_vv := Some \<lparr>dtype = Float64, shape = [2, 1], data = [Fin 2, Fin 3]\<rparr>,
        state_matrix :=
          Some \<lparr>sm_ML = \<lparr>dtype = Float64, shape = [2, 1], data = [Fin 3, Fin 7]\<rparr>,
                sm_LT = \<lparr>dtype = Float64, shape = [1, 2], data = [Fin 1, Fin 1]\<rparr>,
                sm_A = \<lparr>dtype = Float64, shape = [2, 2], data = [Fin 3, Fin 3, Fin 7, Fin 7]\<rparr>,
                dot_sel = Factored\<rparr>,
        x_ps := Some \<lparr>dtype = Float64, shape = [2], data = [Fin 1, Fin 2]\<rparr>\<rparr>"

definition store_ex :: store where
  "store_ex = [\<lparr>deviates = (\<lambda>i. Fin (real i + 1)), drawn = 0\<rparr>]"

text \<open>
  A one-point pupil and an environment for it: the kernel gives the covariance 1, and
  \<open>eigh\<close> of a \<open>1 \<times> 1\<close> matrix returns its entry as the eigenvalue and the eigenvector
  \<open>(1)\<close>.
\<close>

definition pupil_one :: "bool ndarray" where
  "pupil_one = \<lparr>dtype = Bool, shape = [1, 1], data = [True]\<rparr>"

definition eigh_one :: "fl ndarray \<Rightarrow> error + fl ndarray \<times> fl ndarray" where
  "eigh_one a =
     (case data a of
        [v] \<Rightarrow> Inr (\<lparr>dtype = Float64, shape = [1], data = [v]\<rparr>,
                    \<lparr>dtype = Float64, shape = [1, 1], data = [Fin 1]\<rparr>)
      | _ \<Rightarrow> Inl LinAlgError)"

definition ev_one :: "fl env" where
  "ev_one =
     \<lparr>kernel = (\<lambda>a b c d e f. Fin 1), eigh = eigh_one, default_rng = (\<lambda>s i. Fin (real i + 1)),
      clock = (0, 1, 3), pup_width = 1, pupil = pupil_one\<rparr>"

text \<open>A \<open>1 \<times> 1\<close> symmetric matrix with a negative eigenvalue.\<close>

definition neg_one :: "fl ndarray" where
  "neg_one = \<lparr>dtype = Float64, shape = [1, 1], data = [Fin (- 1)]\<rparr>"

text \<open>The arguments of a screen over the one-point pupil whose threshold is 1.\<close>

definition ps_high_thresh :: PhaseScreen where
  "ps_high_thresh = (PhaseScreen_defaults pupil_one)\<lparr>thresh_ps := 1\<rparr>"

text \<open>The generator of seed 1234 in \<open>ev_one\<close>, before any draw.\<close>

definition gen_one :: "fl generator" where
  "gen_one = \<lparr>deviates = (\<lambda>i. Fin (real i + 1)), drawn = 0\<rparr>"

definition empty_factor :: "fl ndarray" where
  "empty_factor = \<lparr>dtype = Float64, shape = [1, 0], data = []\<rparr>"

text \<open>The screen that construction returns for \<open>ps_high_thresh\<close>.\<close>

definition ps_degenerate :: PhaseScreen where
  "ps_degenerate =
     ps_high_thresh
       \<lparr>rng := Some 0, pixsize := Some 8, factor_xx := Some empty_factor,
        state_matrix :=
          Some \<lparr>sm_ML = empty_factor,
                sm_LT = \<lparr>dtype = Float64, shape = [0, 1], data = []\<rparr>,
                sm_A = \<lparr>dtype = Float64, shape = [1, 1], data = [Fin 0]\<rparr>,
                dot_sel = Factored\<rparr>,
        factor_vv := Some empty_factor,
        x_ps := Some \<lparr>dtype = Float64, shape = [1], data = [Fin 0]\<rparr>\<rparr>"

text \<open>The \<open>1 \<times> 1\<close> identity matrix, and a \<open>1 \<times> 1\<close> covariance with eigenvalue \<open>4\<close>.\<close>

definition id_one :: "fl ndarray" where
  "id_one = \<lparr>dtype = Float64, shape = [1, 1], data = [Fin 1]\<rparr>"

definition four_one :: "fl ndarray" where
  "four_one = \<lparr>dtype = Float64, shape = [1, 1], data = [Fin 4]\<rparr>"

definition nan_one :: "fl ndarray" where
  "nan_one = \<lparr>dtype = Float64, shape = [1, 1], data = [NaN]\<rparr>"

text \<open>
  A calibrated centroider for \<open>2 \<times> 2\<close> images with the default threshold, a single
  image whose only light is in the last pixel, and a batch of a dark image and that image.
\<close>

definition cog_ex :: ClassicCog where
  "cog_ex = calibrate (ClassicCog_defaults 2)"

definition img_ex :: "real ndarray" where
  "img_ex = \<lparr>dtype = Float64, shape = [2, 2], data = [0, 0, 0, 4]\<rparr>"

definition batch_ex :: "real ndarray" where
  "batch_ex = \<lparr>dtype = Float64, shape = [2, 2, 2], data = [0, 0, 0, 0, 0, 0, 0, 4]\<rparr>"

text \<open>
  A sensor with one subaperture over a \<open>2 \<times> 2\<close> pupil and an odd field of view of 3
  pixels, the environment whose module-level \<open>pupil\<close> is that pupil, and a flat phase.
\<close>

definition pupil_two :: "bool ndarray" where
  "pupil_two = \<lparr>dtype = Bool, shape = [2, 2], data = [True, True, True, True]\<rparr>"

definition ev_wfs :: "real env" where
  "ev_wfs = ev_exact\<lparr>pup_width := 2, pupil := pupil_two\<rparr>"

definition wfs_odd :: SHWFS where
  "wfs_odd = (SHWFS_defaults pupil_two)\<lparr>nsubx := 1, fovx := 3\<rparr>"

definition phi_flat :: "real ndarray" where
  "phi_flat = \<lparr>dtype = Float64, shape = [2, 2], data = [0, 0, 0, 0]\<rparr>"

text \<open>
  An environment for the one-point pupil whose kernel is scaled so that the covariance of
  the point with itself is 1, the arguments of a screen over it with \<open>laminar = 3 / 5\<close>,
  and the screen that construction returns when the benchmark selects \<open>s\<close>.
\<close>

definition ev_unit :: "fl env" where
  "ev_unit =
     \<lparr>kernel = (\<lambda>a b c d e f. Fin ((pi * 4)\<^sup>2)), eigh = eigh_one,
      default_rng = (\<lambda>s i. Fin (real i + 1)), clock = (0, 1, 3), pup_width = 1,
      pupil = pupil_one\<rparr>"

definition ps_unit :: PhaseScreen where
  "ps_unit = (PhaseScreen_defaults pupil_one)\<lparr>laminar := 3 / 5\<rparr>"

definition screen_unit :: "strategy \<Rightarrow> PhaseScreen" where
  "screen_unit s =
     ps_unit
       \<lparr>rng := Some 0, pixsize := Some 8, factor_xx := Some id_one,
        state_matrix :=
          Some \<lparr>sm_ML = \<lparr>dtype = Float64, shape = [1, 1], data = [Fin (3 / 5)]\<rparr>,
                sm_LT = id_one,
                sm_A = \<lparr>dtype = Float64, shape = [1, 1], data = [Fin (3 / 5)]\<rparr>,
                dot_sel = s\<rparr>,
        factor_vv := Some \<lparr>dtype = Float64, shape = [1, 1], data = [Fin (4 / 5)]\<rparr>,
        x_ps := Some \<lparr>dtype = Float64, shape = [1], data = [Fin 1]\<rparr>\<rparr>"

section \<open>Arrays: basic facts\<close>

lemma sumn_sum: "sumn f n = (\<Sum>j<n. (f j :: 'a::comm_monoid_add))"
  by (induction n) (simp_all add: add.commute)

lemma sumn_cong: "(\<And>j. j < n \<Longrightarrow> f j = g j) \<Longrightarrow> sumn f n = sumn g n"
  by (induction n) simp_all

lemma tab_nth: "t < prod_list sh \<Longrightarrow> data (tab sh f) ! t = f t"
  by (simp add: tab_def)

lemma tab_cong: "(\<And>t. t < prod_list sh \<Longrightarrow> f t = g t) \<Longrightarrow> tab sh f = tab sh g"
  by (simp add: tab_def)

lemma shape_tab: "shape (tab sh f) = sh"
  by (simp add: tab_def)

lemma wf_tab: "wf_array (tab sh f)"
  by (simp add: tab_def wf_array_def)

lemma idx_lt:
  assumes "i < m" and "j < n"
  shows "i * n + j < m * (n::nat)"
proof -
  have "i * n + j < Suc i * n" using assms(2) by simp
  also have "\<dots> \<le> m * n" using assms(1) by (intro mult_le_mono1) simp
  finally show ?thesis .
qed

lemma div_lt: "t < m * r \<Longrightarrow> t div r < (m::nat)"
  by (simp add: less_mult_imp_div_less)

lemma einsum_ij_jE_ok:
  "shape a = [m, n] \<Longrightarrow> shape x = n # rest \<Longrightarrow>
   einsum_ij_jE a x = Inr (tab (m # rest)
      (\<lambda>t. sumn (\<lambda>j. data a ! ((t div prod_list rest) * n + j)
                      * data x ! (j * prod_list rest + t mod prod_list rest)) n))"
  by (simp add: einsum_ij_jE_def Let_def)

lemma einsum_ij_jE_shape:
  "einsum_ij_jE a x = Inr y \<Longrightarrow>
   \<exists>m n rest. shape a = [m, n] \<and> shape x = n # rest \<and> shape y = m # rest"
  by (auto simp: einsum_ij_jE_def Let_def shape_tab split: list.splits if_splits)

lemma einsum_ij_jk_shape:
  "einsum_ij_jk a b = Inr y \<Longrightarrow>
   \<exists>m n p. shape a = [m, n] \<and> shape b = [n, p] \<and> shape y = [m, p]"
  by (auto simp: einsum_ij_jk_def dest!: einsum_ij_jE_shape split: list.splits)

lemma transpose2_shape:
  "transpose2 a = Inr y \<Longrightarrow> \<exists>m n. shape a = [m, n] \<and> shape y = [n, m]"
  by (auto simp: transpose2_def shape_tab split: list.splits)

lemma einsum_err:
  "shape a = [m, n] \<Longrightarrow> shape b = [k, n] \<Longrightarrow> einsum_ij_jE a x = Inl e \<Longrightarrow>
   einsum_ij_jE b x = Inl e"
  by (auto simp: einsum_ij_jE_def Let_def split: list.splits if_splits)

text \<open>
  Associativity, in exact arithmetic: contracting \<open>lt\<close> with \<open>x\<close> and then \<open>ml\<close> with the
  result is the contraction of the product \<open>ml \<cdot> lt\<close> with \<open>x\<close>.
\<close>

lemma einsum_assoc:
  fixes ml lt x :: "'a::comm_semiring_0 ndarray"
  assumes ml: "shape ml = [m, k]" and lt: "shape lt = [k, n]" and x: "shape x = n # rest"
    and a: "einsum_ij_jk ml lt = Inr a"
    and y: "einsum_ij_jE lt x = Inr y"
  shows "einsum_ij_jE a x = einsum_ij_jE ml y"
proof -
  define r where "r = prod_list rest"
  have a_eq: "a = tab [m, n] (\<lambda>t. sumn (\<lambda>l. data ml ! ((t div n) * k + l) * data lt ! (l * n + t mod n)) k)"
    using a einsum_ij_jE_ok [OF ml lt] lt by (simp add: einsum_ij_jk_def)
  have y_eq: "y = tab (k # rest) (\<lambda>s. sumn (\<lambda>j. data lt ! ((s div r) * n + j) * data x ! (j * r + s mod r)) n)"
    using y einsum_ij_jE_ok [OF lt x] by (simp add: r_def)
  have sa: "shape a = [m, n]" by (simp add: a_eq shape_tab)
  have sy: "shape y = k # rest" by (simp add: y_eq shape_tab)
  have "tab (m # rest) (\<lambda>t. sumn (\<lambda>j. data a ! ((t div r) * n + j) * data x ! (j * r + t mod r)) n)
      = tab (m # rest) (\<lambda>t. sumn (\<lambda>l. data ml ! ((t div r) * k + l) * data y ! (l * r + t mod r)) k)"
  proof (rule tab_cong)
    fix t assume "t < prod_list (m # rest)"
    then have t: "t < m * r" by (simp add: r_def)
    then have rpos: "0 < r" by (cases r) simp_all
    have i: "t div r < m" using t by (rule div_lt)
    have q: "t mod r < r" using rpos by simp
    have A: "data a ! ((t div r) * n + j) = (\<Sum>l<k. data ml ! ((t div r) * k + l) * data lt ! (l * n + j))"
      if "j < n" for j
    proof -
      have "(t div r) * n + j < prod_list [m, n]" using idx_lt [OF i that] by simp
      then show ?thesis using that by (simp add: a_eq tab_nth sumn_sum)
    qed
    have Y: "data y ! (l * r + t mod r) = (\<Sum>j<n. data lt ! (l * n + j) * data x ! (j * r + t mod r))"
      if "l < k" for l
    proof -
      have "l * r + t mod r < prod_list (k # rest)" using idx_lt [OF that q] by (simp add: r_def)
      then show ?thesis using q by (simp add: y_eq tab_nth sumn_sum)
    qed
    have "(\<Sum>j<n. data a ! ((t div r) * n + j) * data x ! (j * r + t mod r))
        = (\<Sum>j<n. \<Sum>l<k. data ml ! ((t div r) * k + l) * data lt ! (l * n + j) * data x ! (j * r + t mod r))"
      by (intro sum.cong refl) (simp add: A sum_distrib_right)
    also have "\<dots> = (\<Sum>l<k. \<Sum>j<n. data ml ! ((t div r) * k + l) * data lt ! (l * n + j) * data x ! (j * r + t mod r))"
      by (rule sum.swap)
    also have "\<dots> = (\<Sum>l<k. data ml ! ((t div r) * k + l) * data y ! (l * r + t mod r))"
      by (intro sum.cong refl) (simp add: Y sum_distrib_left mult.assoc)
    finally show "sumn (\<lambda>j. data a ! ((t div r) * n + j) * data x ! (j * r + t mod r)) n
        = sumn (\<lambda>l. data ml ! ((t div r) * k + l) * data y ! (l * r + t mod r)) k"
      by (simp add: sumn_sum)
  qed
  then show ?thesis
    using einsum_ij_jE_ok [OF sa x] einsum_ij_jE_ok [OF ml sy] by (simp add: r_def)
qed

section \<open>The state matrix: both products are the product with \<open>A\<close>\<close>

lemma StateMatrix_init_parts:
  assumes "StateMatrix_init ev cov_yx inv_factor_xx = Inr sm"
  shows "einsum_ij_jk cov_yx inv_factor_xx = Inr (sm_ML sm)
       \<and> transpose2 inv_factor_xx = Inr (sm_LT sm)
       \<and> einsum_ij_jk (sm_ML sm) (sm_LT sm) = Inr (sm_A sm)"
  using assms
  by (auto simp: StateMatrix_init_def Let_def split: sum.splits if_splits prod.splits)

text \<open>The two evaluations agree on every argument, also where both are rejected.\<close>

lemma dot_factored_eq_classic_parts:
  fixes sm :: "'a::comm_semiring_0 StateMatrix"
  assumes p: "einsum_ij_jk (sm_ML sm) (sm_LT sm) = Inr (sm_A sm)"
  shows "dot_factored sm x = dot_classic sm x"
proof -
  from p obtain m k n where ml: "shape (sm_ML sm) = [m, k]" and lt: "shape (sm_LT sm) = [k, n]"
    and a: "shape (sm_A sm) = [m, n]"
    by (auto dest!: einsum_ij_jk_shape)
  show ?thesis
  proof (cases "einsum_ij_jE (sm_LT sm) x")
    case (Inl e)
    then have "einsum_ij_jE (sm_A sm) x = Inl e" using einsum_err [OF lt a] by simp
    with Inl show ?thesis by (simp add: dot_factored_def dot_classic_def ml lt)
  next
    case (Inr y)
    then obtain rest where x: "shape x = n # rest"
      using lt by (auto dest!: einsum_ij_jE_shape)
    have "einsum_ij_jE (sm_A sm) x = einsum_ij_jE (sm_ML sm) y"
      using einsum_assoc [OF ml lt x p Inr] .
    with Inr show ?thesis by (simp add: dot_factored_def dot_classic_def ml lt)
  qed
qed

lemma dot_factored_eq_classic:
  fixes ev :: "'a::comm_semiring_0 env"
  assumes init: "StateMatrix_init ev cov_yx inv_factor_xx = Inr sm"
  shows "dot_factored sm x = dot_classic sm x"
  using StateMatrix_init_parts [OF init] by (intro dot_factored_eq_classic_parts) simp

text \<open>
  Claim C3.  For a state matrix built by \<open>StateMatrix.__init__\<close> from a cross-covariance
  and an inverse factor, \<open>ML\<close> is their product, \<open>LT\<close> the transposed inverse factor
  and \<open>A\<close> the dense product \<open>ML \<cdot> LT\<close>.  For an input \<open>x\<close> whose first dimension is
  the column count of \<open>A\<close> (a vector, or a batch with further axes), the classic
  evaluation returns the product of \<open>A\<close> with \<open>x\<close>, the factored evaluation returns the
  same array, and so does \<open>dot\<close>, whichever of the two the benchmark selected.  The
  arithmetic is exact (any commutative semiring, the reals among them).
\<close>

theorem StateMatrix_strategies_agree:
  fixes ev :: "'a::comm_semiring_0 env"
  assumes init: "StateMatrix_init ev cov_yx inv_factor_xx = Inr sm"
    and a: "shape (sm_A sm) = [m, n]" and x: "shape x = n # rest"
  shows "einsum_ij_jk cov_yx inv_factor_xx = Inr (sm_ML sm)
       \<and> transpose2 inv_factor_xx = Inr (sm_LT sm)
       \<and> einsum_ij_jk (sm_ML sm) (sm_LT sm) = Inr (sm_A sm)
       \<and> dot_classic sm x = Inr (tab (m # rest)
            (\<lambda>t. sumn (\<lambda>j. data (sm_A sm) ! ((t div prod_list rest) * n + j)
                            * data x ! (j * prod_list rest + t mod prod_list rest)) n))
       \<and> dot_factored sm x = dot_classic sm x
       \<and> dot sm x = dot_classic sm x"
  using StateMatrix_init_parts [OF init] dot_factored_eq_classic [OF init, of x]
    einsum_ij_jE_ok [OF a x]
  by (simp add: dot_def dot_classic_def split: strategy.splits)

theorem StateMatrix_strategies_agree_witness:
  "StateMatrix_init ev_exact cov_ex inv_ex = Inr sm_ex
   \<and> dot_sel sm_ex = Factored
   \<and> dot sm_ex x_ex = Inr \<lparr>dtype = Float64, shape = [2], data = [9, 21]\<rparr>
   \<and> dot_factored sm_ex x_ex = dot sm_ex x_ex
   \<and> dot_classic sm_ex x_ex = dot sm_ex x_ex"
proof -
  have i: "StateMatrix_init ev_exact cov_ex inv_ex = Inr sm_ex" by code_simp
  have a: "shape (sm_A sm_ex) = [2, 2]" by (simp add: sm_ex_def)
  have x: "shape x_ex = 2 # []" by (simp add: x_ex_def)
  have c: "dot_classic sm_ex x_ex = Inr \<lparr>dtype = Float64, shape = [2], data = [9, 21]\<rparr>" by code_simp
  show ?thesis
    using StateMatrix_strategies_agree [OF i a x] i c by (simp add: sm_ex_def)
qed

section \<open>The innovation covariance\<close>

lemma tab2_nth: "i < m \<Longrightarrow> j < n \<Longrightarrow> data (tab [m, n] f) ! (i * n + j) = f (i * n + j)"
  using idx_lt [of i m j n] by (simp add: tab_nth)

lemma tab2_cong:
  assumes "\<And>i j. i < m \<Longrightarrow> j < n \<Longrightarrow> f (i * n + j) = g (i * n + j)"
  shows "tab [m, n] f = tab [m, n] g"
proof (rule tab_cong)
  fix t assume "t < prod_list [m, n]"
  then have t: "t < m * n" by simp
  then have npos: "0 < n" by (cases n) simp_all
  have "f ((t div n) * n + t mod n) = g ((t div n) * n + t mod n)"
    using assms [of "t div n" "t mod n"] div_lt [OF t] npos by simp
  then show "f t = g t" by simp
qed

lemma einsum2_ok:
  "shape a = [m, n] \<Longrightarrow> shape b = [n, p] \<Longrightarrow>
   einsum_ij_jE a b = Inr (tab [m, p] (\<lambda>t. sumn (\<lambda>j. data a ! ((t div p) * n + j) * data b ! (j * p + t mod p)) n))"
  using einsum_ij_jE_ok [of a m n b "[p]"] by simp

lemma dot_is_classic:
  fixes ev :: "'a::comm_semiring_0 env"
  assumes "StateMatrix_init ev cov_yx inv_factor_xx = Inr sm"
  shows "dot sm y = einsum_ij_jE (sm_A sm) y"
  using dot_factored_eq_classic [OF assms, of y]
  by (simp add: dot_def dot_classic_def split: strategy.splits)

text \<open>
  The nested computation of line 116 and the closed form of the specification, both
  entry by entry: entry \<open>(i, l)\<close> is \<open>\<Sigma>[i, l] - \<Sum>j. (\<Sum>p. A[i, p] \<Sigma>[p, j]) A[l, j]\<close>.
\<close>

lemma residual_core:
  fixes a s :: "'a::comm_ring ndarray"
  assumes a: "shape a = [n, n]" and s: "shape s = [n, n]"
  shows "(case einsum_ij_jE a s of Inl e \<Rightarrow> Inl e | Inr b \<Rightarrow>
           (case transpose2 b of Inl e \<Rightarrow> Inl e | Inr bt \<Rightarrow>
             (case einsum_ij_jE a bt of Inl e \<Rightarrow> Inl e | Inr c \<Rightarrow>
               (case transpose2 c of Inl e \<Rightarrow> Inl e | Inr ct \<Rightarrow> ew (-) s ct))))
       = Inr (tab [n, n] (\<lambda>t. data s ! t -
                 (\<Sum>j<n. (\<Sum>p<n. data a ! ((t div n) * n + p) * data s ! (p * n + j)) * data a ! ((t mod n) * n + j))))"
    (is "?lhs = Inr ?r")
  and "innovation_spec a s = Inr (tab [n, n] (\<lambda>t. data s ! t -
                 (\<Sum>j<n. (\<Sum>p<n. data a ! ((t div n) * n + p) * data s ! (p * n + j)) * data a ! ((t mod n) * n + j))))"
proof -
  define b where "b = tab [n, n] (\<lambda>t. sumn (\<lambda>j. data a ! ((t div n) * n + j) * data s ! (j * n + t mod n)) n)"
  define bt where "bt = tab [n, n] (\<lambda>t. data b ! ((t mod n) * n + t div n))"
  define c where "c = tab [n, n] (\<lambda>t. sumn (\<lambda>j. data a ! ((t div n) * n + j) * data bt ! (j * n + t mod n)) n)"
  define ct where "ct = tab [n, n] (\<lambda>t. data c ! ((t mod n) * n + t div n))"
  define a_t where "a_t = tab [n, n] (\<lambda>t. data a ! ((t mod n) * n + t div n))"
  define q where "q = tab [n, n] (\<lambda>t. sumn (\<lambda>j. data b ! ((t div n) * n + j) * data a_t ! (j * n + t mod n)) n)"
  have sb: "shape b = [n, n]" and sbt: "shape bt = [n, n]" and sc: "shape c = [n, n]"
    and sct: "shape ct = [n, n]" and sa_t: "shape a_t = [n, n]" and sq: "shape q = [n, n]"
    by (simp_all add: b_def bt_def c_def ct_def a_t_def q_def shape_tab)
  have e1: "einsum_ij_jE a s = Inr b" using einsum2_ok [OF a s] by (simp add: b_def)
  have e2: "transpose2 b = Inr bt" by (simp add: transpose2_def sb bt_def)
  have e3: "einsum_ij_jE a bt = Inr c" using einsum2_ok [OF a sbt] by (simp add: c_def)
  have e4: "transpose2 c = Inr ct" by (simp add: transpose2_def sc ct_def)
  have e5: "transpose2 a = Inr a_t" by (simp add: transpose2_def a a_t_def)
  have e6: "einsum_ij_jE b a_t = Inr q" using einsum2_ok [OF sb sa_t] by (simp add: q_def)
  have B: "data b ! (i * n + j) = (\<Sum>p<n. data a ! (i * n + p) * data s ! (p * n + j))"
    if "i < n" "j < n" for i j
    using that by (simp add: b_def tab2_nth sumn_sum)
  have BT: "data bt ! (i * n + j) = data b ! (j * n + i)" if "i < n" "j < n" for i j
    using that by (simp add: bt_def tab2_nth)
  have C: "data c ! (i * n + l) = (\<Sum>j<n. data a ! (i * n + j) * data b ! (l * n + j))"
    if "i < n" "l < n" for i l
    using that by (simp add: c_def tab2_nth sumn_sum BT)
  have CT: "data ct ! (i * n + l) = (\<Sum>j<n. data a ! (l * n + j) * data b ! (i * n + j))"
    if "i < n" "l < n" for i l
    using that by (simp add: ct_def tab2_nth C)
  have A_T: "data a_t ! (j * n + l) = data a ! (l * n + j)" if "j < n" "l < n" for j l
    using that by (simp add: a_t_def tab2_nth)
  have Q: "data q ! (i * n + l) = (\<Sum>j<n. data b ! (i * n + j) * data a ! (l * n + j))"
    if "i < n" "l < n" for i l
    using that by (simp add: q_def tab2_nth sumn_sum A_T)
  have r1: "tab [n, n] (\<lambda>t. data s ! t - data ct ! t) = ?r"
  proof (rule tab2_cong)
    fix i j assume ij: "i < n" "j < n"
    then show "data s ! (i * n + j) - data ct ! (i * n + j) =
      data s ! (i * n + j) - (\<Sum>ja<n. (\<Sum>p<n. data a ! ((i * n + j) div n * n + p) * data s ! (p * n + ja)) *
                   data a ! ((i * n + j) mod n * n + ja))"
      by (simp add: CT B mult.commute)
  qed
  have r2: "tab [n, n] (\<lambda>t. data s ! t - data q ! t) = ?r"
  proof (rule tab2_cong)
    fix i j assume ij: "i < n" "j < n"
    then show "data s ! (i * n + j) - data q ! (i * n + j) =
      data s ! (i * n + j) - (\<Sum>ja<n. (\<Sum>p<n. data a ! ((i * n + j) div n * n + p) * data s ! (p * n + ja)) *
                   data a ! ((i * n + j) mod n * n + ja))"
      by (simp add: Q B)
  qed
  show "?lhs = Inr ?r"
    using r1 by (simp add: e1 e2 e3 e4 ew_def s sct)
  show "innovation_spec a s = Inr ?r"
    using r2 by (simp add: innovation_spec_def einsum_ij_jk_def s sa_t e1 e5 e6 ew_def sq)
qed

text \<open>
  Claim C2.  For a state matrix built by \<open>StateMatrix.__init__\<close> with a square \<open>A\<close> and a
  self-covariance of the same shape, the innovation covariance that the constructor
  computes with two applications of the selected product and two transposes,
  \<open>sigma_xx - dot(dot(sigma_xx).T).T\<close>, is \<open>\<Sigma>xx - A \<Sigma>xx A\<^sup>t\<close>.  The arithmetic is exact
  (any commutative ring); symmetry of the self-covariance is not needed.
\<close>

theorem innovation_covariance_is_residual:
  fixes ev :: "'a::comm_ring env"
  assumes init: "StateMatrix_init ev cov_yx inv_factor_xx = Inr sm"
    and a: "shape (sm_A sm) = [n, n]" and s: "shape sigma_xx = [n, n]"
  shows "sigma_vv sm sigma_xx = innovation_spec (sm_A sm) sigma_xx
       \<and> sigma_vv sm sigma_xx = Inr (tab [n, n] (\<lambda>t. data sigma_xx ! t -
             (\<Sum>j<n. (\<Sum>p<n. data (sm_A sm) ! ((t div n) * n + p) * data sigma_xx ! (p * n + j))
                       * data (sm_A sm) ! ((t mod n) * n + j))))"
  using residual_core [OF a s]
  by (simp add: sigma_vv_def dot_is_classic [OF init] cong: sum.case_cong)

theorem innovation_covariance_is_residual_witness:
  "StateMatrix_init ev_exact cov_ex inv_ex = Inr sm_ex
   \<and> sigma_vv sm_ex sigma_ex = innovation_spec (sm_A sm_ex) sigma_ex
   \<and> sigma_vv sm_ex sigma_ex = Inr \<lparr>dtype = Float64, shape = [2, 2], data = [- 52, - 125, - 125, - 292]\<rparr>"
proof -
  have i: "StateMatrix_init ev_exact cov_ex inv_ex = Inr sm_ex" by code_simp
  have a: "shape (sm_A sm_ex) = [2, 2]" by (simp add: sm_ex_def)
  have s: "shape sigma_ex = [2, 2]" by (simp add: sigma_ex_def)
  have c: "innovation_spec (sm_A sm_ex) sigma_ex
      = Inr \<lparr>dtype = Float64, shape = [2, 2], data = [- 52, - 125, - 125, - 292]\<rparr>" by code_simp
  show ?thesis
    using innovation_covariance_is_residual [OF i a s] i c by simp
qed

section \<open>The step of the phase screen\<close>

lemma shape_normal: "shape (fst (normal g sh)) = sh"
  by (simp add: normal_def shape_tab)

lemma dot_vector_ok:
  assumes "shape (sm_A sm) = [n, n]" "shape (sm_ML sm) = [n, k]" "shape (sm_LT sm) = [k, n]"
    and "shape xs = [n]"
  shows "\<exists>ax. dot sm xs = Inr ax \<and> shape ax = [n]"
  using assms
  by (cases "dot_sel sm")
     (simp_all add: dot_def dot_classic_def dot_factored_def einsum_ij_jE_def Let_def shape_tab)

lemma screen_okD:
  assumes "screen_ok ps h"
  shows "\<exists>r f_vv sm xs n k k'.
           rng ps = Some r \<and> factor_vv ps = Some f_vv \<and> state_matrix ps = Some sm
         \<and> x_ps ps = Some xs \<and> r < length h \<and> shape xs = [n] \<and> shape f_vv = [n, k]
         \<and> shape (sm_A sm) = [n, n] \<and> shape (sm_ML sm) = [n, k'] \<and> shape (sm_LT sm) = [k', n]"
  using assms
  by (auto simp: screen_ok_def split: option.splits list.splits)

lemma screen_okI:
  assumes "rng ps = Some r" "factor_vv ps = Some f_vv" "state_matrix ps = Some sm"
    "x_ps ps = Some xs" "r < length h" "shape xs = [n]" "shape f_vv = [n, k]"
    "shape (sm_A sm) = [n, n]" "shape (sm_ML sm) = [n, k']" "shape (sm_LT sm) = [k', n]"
  shows "screen_ok ps h"
  using assms by (simp add: screen_ok_def)

lemma step_result:
  assumes ok: "screen_ok ps h"
    and fields: "rng ps = Some r" "factor_vv ps = Some f_vv" "state_matrix ps = Some sm"
      "x_ps ps = Some xs"
    and draw: "normal (h ! r) [shape f_vv ! 1] = (v, g)"
  shows "\<exists>ax fv x'.
           shape v = [shape f_vv ! 1]
         \<and> dot sm xs = Inr ax \<and> matmul f_vv v = Inr fv \<and> ew (+) ax fv = Inr x'
         \<and> step ps h = Inr (ps\<lparr>x_ps := Some x'\<rparr>, h[r := g])
         \<and> shape x' = shape xs"
proof -
  from screen_okD [OF ok] fields obtain n k k' where r: "r < length h" and sx: "shape xs = [n]"
    and sf: "shape f_vv = [n, k]" and sa: "shape (sm_A sm) = [n, n]"
    and sm: "shape (sm_ML sm) = [n, k']" "shape (sm_LT sm) = [k', n]"
    by auto
  have draw': "normal (h ! r) [k] = (v, g)" using draw sf by simp
  have sv: "shape v = [k]" using shape_normal [of "h ! r" "[k]"] draw' by simp
  from dot_vector_ok [OF sa sm sx] obtain ax where ax: "dot sm xs = Inr ax" "shape ax = [n]"
    by blast
  obtain fv where fv: "matmul f_vv v = Inr fv" "shape fv = [n]"
    using einsum_ij_jE_ok [OF sf, of v "[]"] sv by (simp add: matmul_def sf shape_tab)
  obtain x' where x': "ew (+) ax fv = Inr x'" "shape x' = [n]"
    by (simp add: ew_def ax fv shape_tab)
  have "step ps h = Inr (ps\<lparr>x_ps := Some x'\<rparr>, h[r := g])"
    using r by (simp add: step_def fields sf ax fv x' draw')
  then show ?thesis
    using sv sf ax fv x' sx by simp
qed

lemma step_keeps_ok:
  assumes "screen_ok ps h" and "step ps h = Inr (ps', h')"
  shows "screen_ok ps' h'"
proof -
  from screen_okD [OF assms(1)] obtain r f_vv sm xs n k k' where
    f: "rng ps = Some r" "factor_vv ps = Some f_vv" "state_matrix ps = Some sm" "x_ps ps = Some xs"
    and s: "r < length h" "shape xs = [n]" "shape f_vv = [n, k]" "shape (sm_A sm) = [n, n]"
      "shape (sm_ML sm) = [n, k']" "shape (sm_LT sm) = [k', n]"
    by blast
  obtain v g where d: "normal (h ! r) [shape f_vv ! 1] = (v, g)" by (cases "normal (h ! r) [shape f_vv ! 1]")
  from step_result [OF assms(1) f d] assms(2) obtain x' where
    "ps' = ps\<lparr>x_ps := Some x'\<rparr>" "h' = h[r := g]" "shape x' = shape xs"
    by auto
  then show ?thesis
    using f s by (intro screen_okI [where r = r and n = n and k = k and k' = k']) simp_all
qed

text \<open>The constructor establishes the shapes.\<close>

lemma eigh_checked_shape:
  "eigh_checked ev a = Inr (vals, vecs) \<Longrightarrow>
   \<exists>n. shape a = [n, n] \<and> shape vals = [n] \<and> shape vecs = [n, n]
     \<and> length (data vals) = n \<and> length (data vecs) = n * n"
  by (auto simp: eigh_checked_def wf_array_def split: list.splits if_splits sum.splits)

lemma factorh_shape:
  assumes "factorh ev th a nm = Inr (f, g)"
  shows "\<exists>n k. shape a = [n, n] \<and> shape f = [n, k] \<and> shape g = [n, k]"
proof -
  from assms obtain vals vecs where e: "eigh_checked ev a = Inr (vals, vecs)"
    by (auto simp: factorh_def split: sum.splits)
  from eigh_checked_shape [OF e] obtain n where n: "shape a = [n, n]" "length (data vals) = n"
    by blast
  show ?thesis
    using assms e n
    by (auto simp: factorh_def Let_def shape_tab split: sum.splits)
qed

lemma StateMatrix_init_shape:
  assumes "StateMatrix_init ev c i = Inr sm"
  shows "\<exists>m n k. shape c = [m, n] \<and> shape i = [n, k] \<and> shape (sm_ML sm) = [m, k]
           \<and> shape (sm_LT sm) = [k, n] \<and> shape (sm_A sm) = [m, n]"
  using StateMatrix_init_parts [OF assms]
  by (auto dest!: einsum_ij_jk_shape transpose2_shape)

lemma ew_shape: "ew f a b = Inr y \<Longrightarrow> shape y = shape a \<and> shape b = shape a"
  by (auto simp: ew_def shape_tab split: if_splits)

lemma sigma_vv_shape: "sigma_vv sm s = Inr y \<Longrightarrow> shape y = shape s"
  by (auto simp: sigma_vv_def dest!: ew_shape split: sum.splits)

lemma matmul_shape: "matmul a v = Inr y \<Longrightarrow> \<exists>m n. shape a = [m, n] \<and> shape v = [n] \<and> shape y = [m]"
  by (auto simp: matmul_def dest!: einsum_ij_jE_shape split: list.splits if_splits)

lemma init_establishes_ok:
  assumes "PhaseScreen_init ev ps h = Inr (ps', h')"
  shows "screen_ok ps' h'"
proof -
  from assms obtain f_xx inv_xx sigma_xx sigma_yx sm s_vv f_vv unused z x0 px where
    f1: "factorh ev (thresh_ps ps) sigma_xx (xx_max ps) = Inr (f_xx, inv_xx)"
    and s1: "StateMatrix_init ev sigma_yx inv_xx = Inr sm"
    and s2: "sigma_vv sm sigma_xx = Inr s_vv"
    and f2: "factorh ev (thresh_ps ps) s_vv (vv_max ps) = Inr (f_vv, unused)"
    and x0: "matmul f_xx z = Inr x0"
    and ps': "ps' = ps\<lparr>rng := Some (length h), pixsize := Some px, factor_xx := Some f_xx,
                  state_matrix := Some sm, factor_vv := Some f_vv, x_ps := Some x0\<rparr>"
    and h': "length h' = Suc (length h)"
    unfolding PhaseScreen_init_def Let_def
    by (auto split: if_splits list.splits sum.splits prod.splits)
  from factorh_shape [OF f1] obtain n k where a: "shape sigma_xx = [n, n]" "shape f_xx = [n, k]"
    "shape inv_xx = [n, k]" by blast
  from StateMatrix_init_shape [OF s1] a obtain m where b: "shape (sm_ML sm) = [m, k]"
    "shape (sm_LT sm) = [k, n]" "shape (sm_A sm) = [m, n]" by auto
  from s2 b a have "m = n"
    by (auto simp: sigma_vv_def dot_def dot_classic_def dot_factored_def
        dest!: ew_shape transpose2_shape einsum_ij_jE_shape split: sum.splits strategy.splits if_splits)
  from sigma_vv_shape [OF s2] a have c: "shape s_vv = [n, n]" by simp
  from factorh_shape [OF f2] c obtain k2 where d: "shape f_vv = [n, k2]" by auto
  from matmul_shape [OF x0] a have e: "shape x0 = [n]" by auto
  show ?thesis
    using a b d e \<open>m = n\<close> h'
    by (intro screen_okI [where r = "length h" and n = n and k = k2 and k' = k])
       (simp_all add: ps')
qed

text \<open>
  Claim C1.  For a phase screen with the shapes that the constructor establishes and
  \<open>step\<close> keeps, \<open>step\<close> draws a vector \<open>v\<close> of standard-normal deviates whose length is
  the column count of the innovation factor, and returns the screen with \<open>x\<close> replaced by
  \<open>state_matrix.dot(x) + factor_vv @ v\<close>.  No other field of the screen differs: \<open>rng\<close>
  still refers to the same generator, which has advanced in the store by the draw.  The
  new state has the shape of the old one.
\<close>

theorem step_replaces_state:
  assumes ok: "screen_ok ps h"
    and fields: "rng ps = Some r" "factor_vv ps = Some f_vv" "state_matrix ps = Some sm"
      "x_ps ps = Some xs"
    and draw: "normal (h ! r) [shape f_vv ! 1] = (v, g)"
  shows "\<exists>ax fv x'.
           shape v = [shape f_vv ! 1]
         \<and> dot sm xs = Inr ax \<and> matmul f_vv v = Inr fv \<and> ew (+) ax fv = Inr x'
         \<and> step ps h = Inr (ps\<lparr>x_ps := Some x'\<rparr>, h[r := g])
         \<and> shape x' = shape xs"
  using step_result [OF ok fields draw] .

lemma step_ex: "step ps_ex store_ex
      = Inr (ps_ex\<lparr>x_ps := Some \<lparr>dtype = Float64, shape = [2], data = [Fin 11, Fin 24]\<rparr>\<rparr>,
             [\<lparr>deviates = (\<lambda>i. Fin (real i + 1)), drawn = 1\<rparr>])"
  by (simp add: step_def ps_ex_def store_ex_def PhaseScreen_defaults_def normal_def tab_def
        dot_def dot_factored_def einsum_ij_jE_def matmul_def ew_def Let_def upt_conv_Cons
        numeral_2_eq_2 plus_fl_def times_fl_def zero_fl_def)

theorem step_replaces_state_witness:
  "screen_ok ps_ex store_ex
   \<and> step ps_ex store_ex
      = Inr (ps_ex\<lparr>x_ps := Some \<lparr>dtype = Float64, shape = [2], data = [Fin 11, Fin 24]\<rparr>\<rparr>,
             [\<lparr>deviates = (\<lambda>i. Fin (real i + 1)), drawn = 1\<rparr>])
   \<and> (\<exists>ax fv x'. dot (the (state_matrix ps_ex)) (the (x_ps ps_ex)) = Inr ax
         \<and> matmul (the (factor_vv ps_ex)) (fst (normal (store_ex ! 0) [1])) = Inr fv
         \<and> ew (+) ax fv = Inr x' \<and> shape x' = [2]
         \<and> step ps_ex store_ex = Inr (ps_ex\<lparr>x_ps := Some x'\<rparr>, store_ex[0 := snd (normal (store_ex ! 0) [1])]))"
proof -
  have ok: "screen_ok ps_ex store_ex"
    by (simp add: screen_ok_def ps_ex_def store_ex_def PhaseScreen_defaults_def)
  have f: "rng ps_ex = Some 0" "factor_vv ps_ex = Some (the (factor_vv ps_ex))"
    "state_matrix ps_ex = Some (the (state_matrix ps_ex))" "x_ps ps_ex = Some (the (x_ps ps_ex))"
    by (simp_all add: ps_ex_def)
  have k: "shape (the (factor_vv ps_ex)) ! 1 = 1" and n: "shape (the (x_ps ps_ex)) = [2]"
    by (simp_all add: ps_ex_def)
  have d: "normal (store_ex ! 0) [shape (the (factor_vv ps_ex)) ! 1]
      = (fst (normal (store_ex ! 0) [1]), snd (normal (store_ex ! 0) [1]))"
    by (simp only: k prod.collapse)
  show ?thesis
    using step_replaces_state [OF ok f d] ok step_ex n by (simp only: k) blast
qed

section \<open>Construction: what succeeds\<close>

lemma tab_empty: "prod_list sh = 0 \<Longrightarrow> tab sh f = \<lparr>dtype = Float64, shape = sh, data = []\<rparr>"
  by (simp add: tab_def)

lemma StateMatrix_init_ok:
  fixes ev :: "'a::{zero,plus,times} env"
  assumes c: "shape c = [m, n]" and i: "shape i = [n, k]" and clk: "clock ev = (t1, t2, t3)"
  shows "\<exists>ml lt a. einsum_ij_jk c i = Inr ml \<and> transpose2 i = Inr lt \<and> einsum_ij_jk ml lt = Inr a
          \<and> shape ml = [m, k] \<and> shape lt = [k, n] \<and> shape a = [m, n]
          \<and> StateMatrix_init ev c i
              = Inr \<lparr>sm_ML = ml, sm_LT = lt, sm_A = a,
                     dot_sel = (if (t3 - t2) / 10 > (t2 - t1) / 10 then Factored else Classic)\<rparr>"
proof -
  obtain ml where ml: "einsum_ij_jk c i = Inr ml" "shape ml = [m, k]"
    using einsum_ij_jE_ok [OF c, of i "[k]"] i by (simp add: einsum_ij_jk_def shape_tab)
  obtain lt where lt: "transpose2 i = Inr lt" "shape lt = [k, n]"
    by (simp add: transpose2_def i shape_tab)
  obtain a where a: "einsum_ij_jk ml lt = Inr a" "shape a = [m, n]"
    using einsum_ij_jE_ok [OF ml(2), of lt "[n]"] lt by (simp add: einsum_ij_jk_def shape_tab)
  define x where "x = fst (normal \<lparr>deviates = default_rng ev 1, drawn = 0\<rparr> [n, 10])"
  have sx: "shape x = [n, 10]" by (simp add: x_def shape_normal)
  let ?sm = "\<lparr>sm_ML = ml, sm_LT = lt, sm_A = a, dot_sel = Classic\<rparr>"
  obtain y where y: "einsum_ij_jE lt x = Inr y" "shape y = [k, 10]"
    using einsum_ij_jE_ok [OF lt(2), of x "[10]"] sx by (simp add: shape_tab)
  obtain y1 where y1: "dot_factored ?sm x = Inr y1"
    using einsum_ij_jE_ok [OF ml(2), of y "[10]"] y by (simp add: dot_factored_def ml lt)
  obtain y2 where y2: "dot_classic ?sm x = Inr y2"
    using einsum_ij_jE_ok [OF a(2), of x "[10]"] sx by (simp add: dot_classic_def)
  have ts: "test_speed ev ?sm 10 1 = Inr ((t3 - t2) / 10, (t2 - t1) / 10)"
    using y1 y2 by (simp add: test_speed_def a clk x_def)
  show ?thesis
    using ml lt a ts by (simp add: StateMatrix_init_def)
qed

lemma kept_none: "(\<And>j. j < length valid \<Longrightarrow> \<not> valid ! j) \<Longrightarrow> kept valid = []"
  by (simp add: kept_def filter_empty_conv)

lemma factorh_all_excluded:
  assumes e: "eigh_checked ev a = Inr (vals, vecs)"
    and x: "\<And>v. v \<in> set (data vals) \<Longrightarrow> \<not> fl_less (Fin th) v"
  shows "factorh ev th a None
       = Inr (\<lparr>dtype = Float64, shape = [length (data vals), 0], data = []\<rparr>,
              \<lparr>dtype = Float64, shape = [length (data vals), 0], data = []\<rparr>)"
proof -
  have "kept (map (fl_less (Fin th)) (data vals)) = []"
    using x by (intro kept_none) simp
  then show ?thesis
    by (simp add: factorh_def e valid_mask_def Let_def tab_empty)
qed

lemma PhaseScreen_init_steps:
  assumes "wf_array (pupil_ps ps)" "shape (pupil_ps ps) = [w, w]" "pup_width ev = w" "0 < w"
    and "grid_coords w (diam_ps ps / real w) (pupil_ps ps) = (xx, yy)"
    and "factorh ev (thresh_ps ps) (covariance ev ps xx yy xx yy) (xx_max ps) = Inr (f_xx, inv_xx)"
    and "wind ps = w0 # w1 # ws"
    and "c = covariance ev ps (map (\<lambda>a. a + w0 * ittime ps) xx) (map (\<lambda>a. a + w1 * ittime ps) yy) xx yy"
    and "StateMatrix_init ev (tab (shape c) (\<lambda>t. Fin (laminar ps) * data c ! t)) inv_xx = Inr sm"
    and "sigma_vv sm (covariance ev ps xx yy xx yy) = Inr s_vv"
    and "factorh ev (thresh_ps ps) s_vv (vv_max ps) = Inr (f_vv, u)"
    and "shape f_xx = [n, k]"
    and "matmul f_xx (fst (normal \<lparr>deviates = default_rng ev (seed ps), drawn = 0\<rparr> [k])) = Inr x0"
  shows "PhaseScreen_init ev ps h
       = Inr (ps\<lparr>rng := Some (length h), pixsize := Some (diam_ps ps / real w),
                 factor_xx := Some f_xx, state_matrix := Some sm, factor_vv := Some f_vv,
                 x_ps := Some x0\<rparr>,
              h @ [\<lparr>deviates = default_rng ev (seed ps), drawn = k\<rparr>])"
  using assms by (simp add: PhaseScreen_init_def Let_def normal_def)

section \<open>Construction with no retained mode\<close>

lemma c0_small: "(0.5 / (pi * 2))\<^sup>2 < (1::real)"
proof -
  have "0.5 / (pi * 2) < 1" using pi_ge_two by (simp add: field_simps)
  moreover have "0 \<le> 0.5 / (pi * 2)" by simp
  ultimately show ?thesis by (simp add: power_less_one_iff)
qed

lemma eigh_one_ok:
  "eigh_checked ev_one \<lparr>dtype = Float64, shape = [1, 1], data = [v]\<rparr>
     = Inr (\<lparr>dtype = Float64, shape = [1], data = [v]\<rparr>, id_one)"
  by (simp add: eigh_checked_def ev_one_def eigh_one_def wf_array_def id_one_def)

lemma cov_one:
  "covariance ev_one ps [a] [b] [c] [d]
     = \<lparr>dtype = Float64, shape = [1, 1], data = [Fin ((0.5 / (pi * 2))\<^sup>2)]\<rparr>"
  by (simp add: covariance_def ev_one_def tab_def times_fl_def)

text \<open>
  Claim C5 says that a truncation policy that retains no mode makes construction fail.
  It does not: over the one-point pupil, with a threshold of 1 above the only eigenvalue,
  construction returns a screen whose factors have no column, whose state matrix is zero
  and whose state is zero; and a mode count of 0 selects the mode instead of failing.
\<close>

theorem construction_without_modes_counterexample:
  "PhaseScreen_init ev_one ps_high_thresh [] = Inr (ps_degenerate, [gen_one])
   \<and> factorh ev_one 1 id_one (Some 0) = Inr (id_one, id_one)"
proof -
  let ?c0 = "(0.5 / (pi * 2))\<^sup>2 :: real"
  let ?sig = "\<lparr>dtype = Float64, shape = [1, 1], data = [Fin ?c0]\<rparr>"
  have g: "grid_coords 1 (diam_ps ps_high_thresh / real 1) (pupil_ps ps_high_thresh) = ([0], [0])"
    by (simp add: grid_coords_def ps_high_thresh_def PhaseScreen_defaults_def pupil_one_def)
  have f1: "factorh ev_one 1 ?sig None = Inr (empty_factor, empty_factor)"
    using factorh_all_excluded [OF eigh_one_ok [of "Fin ?c0"], where th = 1] c0_small
    by (simp add: empty_factor_def)
  let ?yx = "tab [1, 1] (\<lambda>t. Fin (laminar ps_high_thresh) * data ?sig ! t)"
  have ml: "einsum_ij_jk ?yx empty_factor = Inr empty_factor"
    by (simp add: einsum_ij_jk_def einsum_ij_jE_def empty_factor_def tab_def)
  have lt: "transpose2 empty_factor = Inr \<lparr>dtype = Float64, shape = [0, 1], data = []\<rparr>"
    by (simp add: transpose2_def empty_factor_def tab_def)
  have a: "einsum_ij_jk empty_factor \<lparr>dtype = Float64, shape = [0, 1], data = []\<rparr>
      = Inr \<lparr>dtype = Float64, shape = [1, 1], data = [Fin 0]\<rparr>"
    by (simp add: einsum_ij_jk_def einsum_ij_jE_def empty_factor_def tab_def zero_fl_def)
  let ?sm = "\<lparr>sm_ML = empty_factor, sm_LT = \<lparr>dtype = Float64, shape = [0, 1], data = []\<rparr>,
               sm_A = \<lparr>dtype = Float64, shape = [1, 1], data = [Fin 0]\<rparr>, dot_sel = Factored\<rparr>"
  have s1: "StateMatrix_init ev_one ?yx empty_factor = Inr ?sm"
    using StateMatrix_init_ok [of ?yx 1 1 empty_factor 0 ev_one 0 1 3] ml lt a
    by (simp add: shape_tab empty_factor_def ev_one_def)
  have d: "dot ?sm \<lparr>dtype = Float64, shape = [1, 1], data = [v]\<rparr>
      = Inr \<lparr>dtype = Float64, shape = [1, 1], data = [Fin 0]\<rparr>" for v
    by (simp add: dot_def dot_factored_def einsum_ij_jE_def empty_factor_def tab_def zero_fl_def)
  have t: "transpose2 \<lparr>dtype = Float64, shape = [1, 1], data = [Fin 0]\<rparr>
      = Inr \<lparr>dtype = Float64, shape = [1, 1], data = [Fin 0]\<rparr>"
    by (simp add: transpose2_def tab_def)
  have e: "ew (-) ?sig \<lparr>dtype = Float64, shape = [1, 1], data = [Fin 0]\<rparr> = Inr ?sig"
    by (simp add: ew_def tab_def minus_fl_def)
  have s2: "sigma_vv ?sm ?sig = Inr ?sig"
    by (simp only: sigma_vv_def d t e sum.case)
  have x0: "matmul empty_factor (fst (normal \<lparr>deviates = default_rng ev_one (seed ps_high_thresh), drawn = 0\<rparr> [0]))
      = Inr \<lparr>dtype = Float64, shape = [1], data = [Fin 0]\<rparr>"
    by (simp add: matmul_def einsum_ij_jE_def empty_factor_def normal_def tab_def zero_fl_def)
  have th: "thresh_ps ps_high_thresh = 1" and xm: "xx_max ps_high_thresh = None"
    and vm: "vv_max ps_high_thresh = None"
    by (simp_all add: ps_high_thresh_def PhaseScreen_defaults_def)
  have r: "PhaseScreen_init ev_one ps_high_thresh []
      = Inr (ps_high_thresh\<lparr>rng := Some (length ([] :: store)),
                pixsize := Some (diam_ps ps_high_thresh / real 1),
                factor_xx := Some empty_factor, state_matrix := Some ?sm,
                factor_vv := Some empty_factor,
                x_ps := Some \<lparr>dtype = Float64, shape = [1], data = [Fin 0]\<rparr>\<rparr>,
             [] @ [\<lparr>deviates = default_rng ev_one (seed ps_high_thresh), drawn = 0\<rparr>])"
  proof (rule PhaseScreen_init_steps [where w = 1 and xx = "[0]" and yy = "[0]"
        and inv_xx = empty_factor and ?w0.0 = 10 and ?w1.0 = 20 and ws = "[]" and c = ?sig
        and s_vv = ?sig and u = empty_factor and n = 1 and k = 0])
    show "wf_array (pupil_ps ps_high_thresh)"
      by (simp add: ps_high_thresh_def PhaseScreen_defaults_def pupil_one_def wf_array_def)
    show "shape (pupil_ps ps_high_thresh) = [1, 1]"
      by (simp add: ps_high_thresh_def PhaseScreen_defaults_def pupil_one_def)
    show "pup_width ev_one = 1" by (simp add: ev_one_def)
    show "(0::nat) < 1" by simp
    show "grid_coords 1 (diam_ps ps_high_thresh / real 1) (pupil_ps ps_high_thresh) = ([0], [0])"
      by (rule g)
    show "factorh ev_one (thresh_ps ps_high_thresh) (covariance ev_one ps_high_thresh [0] [0] [0] [0])
        (xx_max ps_high_thresh) = Inr (empty_factor, empty_factor)"
      by (simp only: th xm cov_one f1)
    show "wind ps_high_thresh = [10, 20]"
      by (simp add: ps_high_thresh_def PhaseScreen_defaults_def)
    show "?sig = covariance ev_one ps_high_thresh (map (\<lambda>a. a + 10 * ittime ps_high_thresh) [0])
        (map (\<lambda>a. a + 20 * ittime ps_high_thresh) [0]) [0] [0]"
      by (simp only: list.map cov_one)
    show "StateMatrix_init ev_one (tab (shape ?sig) (\<lambda>t. Fin (laminar ps_high_thresh) * data ?sig ! t))
        empty_factor = Inr ?sm"
      using s1 by simp
    show "sigma_vv ?sm (covariance ev_one ps_high_thresh [0] [0] [0] [0]) = Inr ?sig"
      by (simp only: cov_one s2)
    show "factorh ev_one (thresh_ps ps_high_thresh) ?sig (vv_max ps_high_thresh)
        = Inr (empty_factor, empty_factor)"
      by (simp only: th vm f1)
    show "shape empty_factor = [1, 0]" by (simp add: empty_factor_def)
    show "matmul empty_factor
        (fst (normal \<lparr>deviates = default_rng ev_one (seed ps_high_thresh), drawn = 0\<rparr> [0]))
        = Inr \<lparr>dtype = Float64, shape = [1], data = [Fin 0]\<rparr>"
      by (rule x0)
  qed
  have "PhaseScreen_init ev_one ps_high_thresh [] = Inr (ps_degenerate, [gen_one])"
    unfolding r
    by (simp add: ps_degenerate_def gen_one_def ev_one_def ps_high_thresh_def PhaseScreen_defaults_def)
  moreover have "factorh ev_one 1 id_one (Some 0) = Inr (id_one, id_one)"
    using eigh_one_ok [of "Fin 1"]
    by (simp add: id_one_def factorh_def valid_mask_def py_index_def argsort_def kept_def tab_def
        Let_def times_fl_def divide_fl_def one_fl_def)
  ultimately show ?thesis by simp
qed

section \<open>The factorization and the sign of the eigenvalues\<close>

lemma kept_set: "j \<in> set (kept valid) \<longleftrightarrow> j < length valid \<and> valid ! j"
  by (auto simp: kept_def)

lemma factorh_entries:
  assumes e: "eigh_checked ev a = Inr (vals, vecs)"
    and v: "valid_mask th (data vals) nm = Inr valid"
  shows "factorh ev th a nm
       = Inr (tab [length (data vals), length (kept valid)]
                (\<lambda>t. data vecs ! ((t div length (kept valid)) * length (data vals)
                                   + kept valid ! (t mod length (kept valid)))
                     * pow_half (data vals ! (kept valid ! (t mod length (kept valid))))),
              tab [length (data vals), length (kept valid)]
                (\<lambda>t. data vecs ! ((t div length (kept valid)) * length (data vals)
                                   + kept valid ! (t mod length (kept valid)))
                     * pow_half (1 / data vals ! (kept valid ! (t mod length (kept valid))))))"
proof -
  define n where "n = length (data vals)"
  define cols where "cols = kept valid"
  define k where "k = length cols"
  have m: "t mod k < k" if "t < prod_list [n, k]" for t
    using that by (cases k) simp_all
  have 1: "tab [n, k] (\<lambda>t. data (tab [n, k] (\<lambda>t. data vecs ! ((t div k) * n + cols ! (t mod k)))) ! t
                            * pow_half (data (tab [k] (\<lambda>t. data vals ! (cols ! t))) ! (t mod k)))
         = tab [n, k] (\<lambda>t. data vecs ! ((t div k) * n + cols ! (t mod k))
                            * pow_half (data vals ! (cols ! (t mod k))))"
    by (rule tab_cong) (simp add: tab_nth m)
  have 2: "tab [n, k] (\<lambda>t. data (tab [n, k] (\<lambda>t. data vecs ! ((t div k) * n + cols ! (t mod k)))) ! t
                            * pow_half (1 / data (tab [k] (\<lambda>t. data vals ! (cols ! t))) ! (t mod k)))
         = tab [n, k] (\<lambda>t. data vecs ! ((t div k) * n + cols ! (t mod k))
                            * pow_half (1 / data vals ! (cols ! (t mod k))))"
    by (rule tab_cong) (simp add: tab_nth m)
  show ?thesis
    using 1 2 by (simp add: factorh_def e v Let_def n_def cols_def k_def)
qed

lemma above_nonneg_threshold:
  assumes "0 \<le> th" and "fl_less (Fin th) v"
  shows "fl_less (Fin 0) v \<and> \<not> isnan (pow_half v) \<and> \<not> isnan (pow_half (1 / v))"
  using assms by (cases v) (simp_all add: divide_fl_def one_fl_def)

text \<open>
  Claim C4, amended.  \<open>_factorh\<close> has no clamp and no check of its own: every kept
  eigenvalue is square-rooted as it is.  Under the threshold policy with a threshold that
  is not negative, the kept positions \<open>cols\<close> are those whose eigenvalue is greater than
  the threshold, so every kept eigenvalue is positive and neither its square root nor the
  square root of its reciprocal is \<open>nan\<close>; an eigenvalue that is not positive is dropped,
  and the call returns.
\<close>

theorem factorh_threshold_drops_nonpositive:
  assumes e: "eigh_checked ev a = Inr (vals, vecs)" and th: "0 \<le> th"
  shows "(let n = length (data vals);
              cols = kept (map (fl_less (Fin th)) (data vals));
              k = length cols
          in factorh ev th a None
               = Inr (tab [n, k] (\<lambda>t. data vecs ! ((t div k) * n + cols ! (t mod k))
                                       * pow_half (data vals ! (cols ! (t mod k)))),
                      tab [n, k] (\<lambda>t. data vecs ! ((t div k) * n + cols ! (t mod k))
                                       * pow_half (1 / data vals ! (cols ! (t mod k)))))
             \<and> (\<forall>j \<in> set cols.
                   fl_less (Fin 0) (data vals ! j) \<and> \<not> isnan (pow_half (data vals ! j))
                   \<and> \<not> isnan (pow_half (1 / data vals ! j)))
             \<and> (\<forall>j < n. \<not> fl_less (Fin 0) (data vals ! j) \<longrightarrow> j \<notin> set cols))"
proof -
  have v: "valid_mask th (data vals) None = Inr (map (fl_less (Fin th)) (data vals))"
    by (simp add: valid_mask_def)
  have k: "fl_less (Fin 0) (data vals ! j) \<and> \<not> isnan (pow_half (data vals ! j))
      \<and> \<not> isnan (pow_half (1 / data vals ! j))"
    if "j \<in> set (kept (map (fl_less (Fin th)) (data vals)))" for j
    using that above_nonneg_threshold [OF th, of "data vals ! j"] by (auto simp: kept_set)
  show ?thesis
    unfolding Let_def using factorh_entries [OF e v] k by blast
qed

lemma eigh_four: "eigh_checked ev_one four_one = Inr (\<lparr>dtype = Float64, shape = [1], data = [Fin 4]\<rparr>, id_one)"
  using eigh_one_ok [of "Fin 4"] by (simp add: four_one_def)

theorem factorh_threshold_drops_nonpositive_witness:
  "eigh_checked ev_one four_one = Inr (\<lparr>dtype = Float64, shape = [1], data = [Fin 4]\<rparr>, id_one)
   \<and> factorh ev_one 0 four_one None
       = Inr (\<lparr>dtype = Float64, shape = [1, 1], data = [Fin 2]\<rparr>,
              \<lparr>dtype = Float64, shape = [1, 1], data = [Fin (1 / 2)]\<rparr>)
   \<and> kept (map (fl_less (Fin 0)) [Fin 4]) = [0]"
proof -
  have e: "eigh_checked ev_one four_one
      = Inr (\<lparr>dtype = Float64, shape = [1], data = [Fin 4]\<rparr>, id_one)"
    using eigh_one_ok [of "Fin 4"] by (simp add: four_one_def)
  have k: "kept (map (fl_less (Fin 0)) [Fin 4]) = [0]" by (simp add: kept_def)
  show ?thesis
    using factorh_threshold_drops_nonpositive [OF e, of 0] e k
    by (simp add: Let_def tab_def id_one_def times_fl_def divide_fl_def one_fl_def real_sqrt_divide)
qed

text \<open>
  Claim C4 as stated fails: for the symmetric \<open>1 \<times> 1\<close> matrix \<open>(-1)\<close>, a mode count of 1
  (or a threshold of \<open>-2\<close>) keeps the negative eigenvalue, and \<open>_factorh\<close> returns factors
  whose entry is the \<open>nan\<close> of its square root, without failing.
\<close>

theorem factorh_negative_eigenvalue_counterexample:
  "factorh ev_one 0 neg_one (Some 1) = Inr (nan_one, nan_one)
   \<and> factorh ev_one (- 2) neg_one None = Inr (nan_one, nan_one)"
  using eigh_one_ok [of "Fin (- 1)"]
  by (simp add: neg_one_def nan_one_def factorh_def valid_mask_def py_index_def argsort_def
      kept_def tab_def Let_def id_one_def times_fl_def divide_fl_def one_fl_def)

text \<open>
  Claim C5, amended.  A threshold that no eigenvalue exceeds is not an error: \<open>_factorh\<close>
  returns a factor and an inverse factor with one row for each eigenvalue and no column.
\<close>

theorem threshold_excluding_all_returns_empty_factors:
  assumes e: "eigh_checked ev a = Inr (vals, vecs)"
    and x: "\<forall>v \<in> set (data vals). \<not> fl_less (Fin th) v"
  shows "factorh ev th a None
       = Inr (\<lparr>dtype = Float64, shape = [length (data vals), 0], data = []\<rparr>,
              \<lparr>dtype = Float64, shape = [length (data vals), 0], data = []\<rparr>)"
  using factorh_all_excluded [OF e] x by blast

theorem threshold_excluding_all_returns_empty_factors_witness:
  "eigh_checked ev_one id_one = Inr (\<lparr>dtype = Float64, shape = [1], data = [Fin 1]\<rparr>, id_one)
   \<and> \<not> fl_less (Fin 1) (Fin 1)
   \<and> factorh ev_one 1 id_one None = Inr (empty_factor, empty_factor)"
proof -
  have e: "eigh_checked ev_one id_one = Inr (\<lparr>dtype = Float64, shape = [1], data = [Fin 1]\<rparr>, id_one)"
    using eigh_one_ok [of "Fin 1"] by (simp add: id_one_def)
  have x: "\<forall>v \<in> set (data \<lparr>dtype = Float64, shape = [1], data = [Fin 1]\<rparr>). \<not> fl_less (Fin 1) v"
    by simp
  show ?thesis
    using threshold_excluding_all_returns_empty_factors [OF e x] e
    by (simp add: empty_factor_def)
qed

section \<open>The centroider\<close>

lemma apply_thresh_shape [simp]: "shape (apply_thresh th a) = shape a"
  by (cases th) (simp_all add: apply_thresh_def)

lemma apply_thresh_promote:
  "apply_thresh th (a\<lparr>shape := sh\<rparr>) = (apply_thresh th a)\<lparr>shape := sh\<rparr>"
  by (cases th) (simp_all add: apply_thresh_def)

lemma data_promote [simp]: "data (a\<lparr>shape := sh\<rparr>) = data a"
  by simp

lemma idx_div: "k < m \<Longrightarrow> (j * m + k) div m = (j::nat)"
  by simp

lemma idx_mod: "k < m \<Longrightarrow> (j * m + k) mod m = (k::nat)"
  by simp

lemma xy_entry:
  assumes "j < 2" "k < n * n"
  shows "data (tab [2, n * n] (\<lambda>t. if t div (n * n) = 0 then x_span n ((t mod (n * n)) mod n)
                                      else x_span n ((t mod (n * n)) div n))) ! (j * (n * n) + k)
       = coord n j k"
proof -
  have "j * (n * n) + k < prod_list [2, n * n]" using idx_lt [OF assms] by simp
  then show ?thesis using assms by (simp add: tab_nth coord_def idx_div idx_mod)
qed

lemma ones_entry:
  assumes "j < 2" "k < n * n"
  shows "data (tab [2, n * n] (\<lambda>t. 1::real)) ! (j * (n * n) + k) = 1"
proof -
  have "j * (n * n) + k < prod_list [2, n * n]" using idx_lt [OF assms] by simp
  then show ?thesis by (simp add: tab_nth)
qed

text \<open>What \<open>cog\<close> returns for a calibrated centroider and a batch of images of the calibrated size.\<close>

lemma cog_batch:
  assumes s: "einsum_num_str cc0 = ''jk,ik,jk->ij''"
    and sh: "shape img = [nb, a, b]" and ab: "a * b = npix cc0 * npix cc0"
  shows "cog (calibrate cc0) img
       = Inr \<lparr>dtype = Float32, shape = [nb, 2],
              data = map (\<lambda>t. Fin (moment (npix cc0) (thresh_cog cc0) img (t div 2) (t mod 2))
                              / Fin (flux (thresh_cog cc0) img (npix cc0 * npix cc0) (t div 2)))
                       [0..<nb * 2]\<rparr>"
proof -
  define n where "n = npix cc0"
  define w where "w = data (apply_thresh (thresh_cog cc0) img)"
  have num: "sumn (\<lambda>k. data (tab [2, n * n] (\<lambda>t. 1::real)) ! (j * (n * n) + k) * w ! (i * (n * n) + k)
              * data (tab [2, n * n] (\<lambda>t. if t div (n * n) = 0 then x_span n ((t mod (n * n)) mod n)
                                      else x_span n ((t mod (n * n)) div n))) ! (j * (n * n) + k)) (n * n)
           = moment n (thresh_cog cc0) img i j" if "j < 2" for i j
    unfolding sumn_sum moment_def pixel_weight_def w_def
    by (rule sum.cong) (simp_all add: xy_entry [OF that] ones_entry [OF that] mult.commute)
  have den: "sumn (\<lambda>k. w ! (i * (n * n) + k)) (n * n) = flux (thresh_cog cc0) img (n * n) i" for i
    by (simp add: sumn_sum flux_def pixel_weight_def w_def)
  have num': "sumn (\<lambda>k. data (tab [2, n * n] (\<lambda>t. 1::real)) ! (t mod 2 * (n * n) + k) * w ! (i * (n * n) + k)
              * data (tab [2, n * n] (\<lambda>t. if t div (n * n) = 0 then x_span n ((t mod (n * n)) mod n)
                                      else x_span n ((t mod (n * n)) div n))) ! (t mod 2 * (n * n) + k)) (n * n)
           = moment n (thresh_cog cc0) img i (t mod 2)" for i t
    by (rule num) simp
  show ?thesis
    using s sh ab
    by (simp add: cog_def calibrate_def Let_def shape_tab n_def [symmetric] w_def [symmetric] num' den)
qed

lemma cog_promote:
  "length (shape img) = 2 \<Longrightarrow> cog cc img = cog cc (img\<lparr>shape := 1 # shape img\<rparr>)"
  by (simp add: cog_def)

lemma pixel_weight_promote [simp]:
  "pixel_weight th (img\<lparr>shape := sh\<rparr>) p i k = pixel_weight th img p i k"
  by (simp add: pixel_weight_def apply_thresh_promote)

lemma flux_promote [simp]: "flux th (img\<lparr>shape := sh\<rparr>) p i = flux th img p i"
  by (simp add: flux_def)

lemma moment_promote [simp]: "moment n th (img\<lparr>shape := sh\<rparr>) i j = moment n th img i j"
  by (simp add: moment_def)

text \<open>
  Claim C9.  For a calibrated centroider and a single image of the calibrated size (a
  two-dimensional argument), \<open>cog\<close> returns a \<open>float32\<close> array of shape \<open>(1, 2)\<close>: one
  row, holding the x and the y centroid of the image, and not a flat pair.
\<close>

theorem cog_single_image_keeps_batch_axis:
  assumes s: "einsum_num_str cc0 = ''jk,ik,jk->ij''"
    and sh: "shape img = [npix cc0, npix cc0]"
  shows "cog (calibrate cc0) img
       = Inr \<lparr>dtype = Float32, shape = [1, 2],
              data = [Fin (moment (npix cc0) (thresh_cog cc0) img 0 0)
                        / Fin (flux (thresh_cog cc0) img (npix cc0 * npix cc0) 0),
                      Fin (moment (npix cc0) (thresh_cog cc0) img 0 1)
                        / Fin (flux (thresh_cog cc0) img (npix cc0 * npix cc0) 0)]\<rparr>"
proof -
  have "cog (calibrate cc0) img = cog (calibrate cc0) (img\<lparr>shape := [1, npix cc0, npix cc0]\<rparr>)"
    using cog_promote [of img "calibrate cc0"] sh by simp
  also have "\<dots> = Inr \<lparr>dtype = Float32, shape = [1, 2],
              data = map (\<lambda>t. Fin (moment (npix cc0) (thresh_cog cc0) img (t div 2) (t mod 2))
                              / Fin (flux (thresh_cog cc0) img (npix cc0 * npix cc0) (t div 2)))
                       [0..<1 * 2]\<rparr>"
    using cog_batch [OF s, of "img\<lparr>shape := [1, npix cc0, npix cc0]\<rparr>" 1 "npix cc0" "npix cc0"]
    by simp
  also have "[0..<1 * 2] = [0, Suc 0]" by (simp add: upt_conv_Cons)
  finally show ?thesis by simp
qed

theorem cog_single_image_keeps_batch_axis_witness:
  "einsum_num_str (ClassicCog_defaults 2) = ''jk,ik,jk->ij''
   \<and> shape img_ex = [npix (ClassicCog_defaults 2), npix (ClassicCog_defaults 2)]
   \<and> cog cog_ex img_ex = Inr \<lparr>dtype = Float32, shape = [1, 2], data = [Fin (1 / 2), Fin (1 / 2)]\<rparr>"
proof -
  have s: "einsum_num_str (ClassicCog_defaults 2) = ''jk,ik,jk->ij''"
    by (simp add: ClassicCog_defaults_def)
  have sh: "shape img_ex = [npix (ClassicCog_defaults 2), npix (ClassicCog_defaults 2)]"
    by (simp add: img_ex_def ClassicCog_defaults_def)
  have v: "cog cog_ex img_ex = Inr \<lparr>dtype = Float32, shape = [1, 2], data = [Fin (1 / 2), Fin (1 / 2)]\<rparr>"
    by code_simp
  show ?thesis
    using cog_single_image_keeps_batch_axis [OF s sh] s sh v by simp
qed

lemma fl_div_zero: "\<not> is_finite (Fin a / Fin 0)" "isnan (Fin 0 / Fin 0)"
  by (simp_all add: divide_fl_def signed_inf_def)

lemma fl_div_nonzero: "d \<noteq> 0 \<Longrightarrow> Fin a / Fin d = Fin (a / d)"
  by (simp add: divide_fl_def)

lemma thresholded_weight_nonneg:
  assumes "wf_array img" "shape img = [nb, a, b]" "p = a * b" "i < nb" "k < p"
  shows "0 \<le> pixel_weight (Some t) img p i k"
proof -
  have "i * p + k < length (data img)"
    using assms idx_lt [of i nb k p] by (simp add: wf_array_def)
  then show ?thesis by (simp add: pixel_weight_def apply_thresh_def)
qed

lemma zero_flux_zero_moment:
  assumes nn: "\<And>k. k < n * n \<Longrightarrow> 0 \<le> pixel_weight th img (n * n) i k"
    and z: "flux th img (n * n) i = 0"
  shows "moment n th img i j = 0"
proof -
  have "(\<Sum>k<n * n. pixel_weight th img (n * n) i k) = 0"
    using z by (simp add: flux_def)
  moreover have "\<forall>k \<in> {..<n * n}. 0 \<le> pixel_weight th img (n * n) i k"
    using nn by simp
  ultimately have "\<forall>k \<in> {..<n * n}. pixel_weight th img (n * n) i k = 0"
    by (subst (asm) sum_nonneg_eq_0_iff) simp_all
  then show ?thesis by (simp add: moment_def)
qed

text \<open>
  Claim C6.  For a calibrated centroider and a batch of \<open>nb\<close> images of the calibrated
  size, \<open>cog\<close> returns an array of shape \<open>(nb, 2)\<close>, whatever the images hold.  Where the
  total weight of an image (after the threshold, if one is set) is zero, both its
  centroids are not finite: they are \<open>nan\<close> whenever a threshold is set, and whenever no
  weight of the image is negative; with no threshold and weights of both signs, a
  centroid is \<open>nan\<close> or an infinity.  Where the total weight is not zero, the centroid
  is the quotient of the moment and the flux of that image alone.
\<close>

theorem cog_zero_flux_entries:
  assumes s: "einsum_num_str cc0 = ''jk,ik,jk->ij''" and wf: "wf_array img"
    and sh: "shape img = [nb, npix cc0, npix cc0]"
  shows "\<exists>res. cog (calibrate cc0) img = Inr res \<and> shape res = [nb, 2]
           \<and> length (data res) = nb * 2
           \<and> (\<forall>i<nb. \<forall>j<2.
                 (flux (thresh_cog cc0) img (npix cc0 * npix cc0) i = 0 \<longrightarrow>
                    \<not> is_finite (data res ! (i * 2 + j))
                    \<and> (thresh_cog cc0 \<noteq> None \<longrightarrow> isnan (data res ! (i * 2 + j)))
                    \<and> ((\<forall>k < npix cc0 * npix cc0.
                           0 \<le> pixel_weight (thresh_cog cc0) img (npix cc0 * npix cc0) i k)
                        \<longrightarrow> isnan (data res ! (i * 2 + j))))
               \<and> (flux (thresh_cog cc0) img (npix cc0 * npix cc0) i \<noteq> 0 \<longrightarrow>
                    data res ! (i * 2 + j)
                    = Fin (moment (npix cc0) (thresh_cog cc0) img i j
                           / flux (thresh_cog cc0) img (npix cc0 * npix cc0) i)))"
proof -
  define n where "n = npix cc0"
  define th where "th = thresh_cog cc0"
  define res where "res = \<lparr>dtype = Float32, shape = [nb, 2],
      data = map (\<lambda>t. Fin (moment n th img (t div 2) (t mod 2)) / Fin (flux th img (n * n) (t div 2)))
               [0..<nb * 2]\<rparr>"
  have c: "cog (calibrate cc0) img = Inr res"
    using cog_batch [OF s sh] by (simp add: res_def n_def th_def)
  have e: "data res ! (i * 2 + j) = Fin (moment n th img i j) / Fin (flux th img (n * n) i)"
    if "i < nb" "j < 2" for i j
    using that idx_lt [OF that] by (simp add: res_def)
  have nz: "data res ! (i * 2 + j) = Fin (moment n th img i j / flux th img (n * n) i)"
    if "i < nb" "j < 2" "flux th img (n * n) i \<noteq> 0" for i j
    using e [OF that(1,2)] that(3) by (simp add: fl_div_nonzero)
  have z1: "\<not> is_finite (data res ! (i * 2 + j))"
    if "i < nb" "j < 2" "flux th img (n * n) i = 0" for i j
    using e [OF that(1,2)] that(3) by (simp add: fl_div_zero)
  have z2: "isnan (data res ! (i * 2 + j))"
    if "i < nb" "j < 2" "flux th img (n * n) i = 0"
      "\<forall>k < n * n. 0 \<le> pixel_weight th img (n * n) i k" for i j
    using e [OF that(1,2)] that(3) zero_flux_zero_moment [of n th img i j] that(4)
    by (simp add: fl_div_zero)
  have z3: "isnan (data res ! (i * 2 + j))"
    if "i < nb" "j < 2" "flux th img (n * n) i = 0" "th \<noteq> None" for i j
  proof -
    from that(4) obtain t where t: "th = Some t" by (cases th) simp_all
    have "\<forall>k < n * n. 0 \<le> pixel_weight th img (n * n) i k"
      using thresholded_weight_nonneg [OF wf sh [folded n_def] refl that(1)] by (simp add: t)
    then show ?thesis by (rule z2 [OF that(1,2,3)])
  qed
  have "shape res = [nb, 2]" "length (data res) = nb * 2" by (simp_all add: res_def)
  then show ?thesis
    using c nz z1 z2 z3 unfolding n_def [symmetric] th_def [symmetric] by blast
qed

theorem cog_zero_flux_entries_witness:
  "einsum_num_str (ClassicCog_defaults 2) = ''jk,ik,jk->ij''
   \<and> wf_array batch_ex
   \<and> shape batch_ex = [2, npix (ClassicCog_defaults 2), npix (ClassicCog_defaults 2)]
   \<and> cog cog_ex batch_ex
       = Inr \<lparr>dtype = Float32, shape = [2, 2], data = [NaN, NaN, Fin (1 / 2), Fin (1 / 2)]\<rparr>
   \<and> (\<exists>res. cog (calibrate (ClassicCog_defaults 2)) batch_ex = Inr res \<and> shape res = [2, 2])"
proof -
  have s: "einsum_num_str (ClassicCog_defaults 2) = ''jk,ik,jk->ij''"
    by (simp add: ClassicCog_defaults_def)
  have wf: "wf_array batch_ex" by (simp add: batch_ex_def wf_array_def)
  have sh: "shape batch_ex = [2, npix (ClassicCog_defaults 2), npix (ClassicCog_defaults 2)]"
    by (simp add: batch_ex_def ClassicCog_defaults_def)
  have v: "cog cog_ex batch_ex
      = Inr \<lparr>dtype = Float32, shape = [2, 2], data = [NaN, NaN, Fin (1 / 2), Fin (1 / 2)]\<rparr>"
    by code_simp
  show ?thesis
    using cog_zero_flux_entries [OF s wf sh] s wf sh v by blast
qed

lemma calibrate_thresh: "calibrate (cc\<lparr>thresh_cog := x\<rparr>) = (calibrate cc)\<lparr>thresh_cog := x\<rparr>"
  by (simp add: calibrate_def Let_def)

lemma cog_cong:
  assumes "es_path cc = es_path cc'" "r_mat cc = r_mat cc'" "xy_mat cc = xy_mat cc'"
    "einsum_num_str cc = einsum_num_str cc'"
    and "apply_thresh (thresh_cog cc)
           (if length (shape img) = 2 then img\<lparr>shape := 1 # shape img\<rparr> else img)
       = apply_thresh (thresh_cog cc')
           (if length (shape img') = 2 then img'\<lparr>shape := 1 # shape img'\<rparr> else img')"
  shows "cog cc img = cog cc' img'"
  unfolding cog_def Let_def assms ..

lemma cog_thresh_as_input:
  "cog (cc\<lparr>thresh_cog := Some t\<rparr>) img = cog (cc\<lparr>thresh_cog := None\<rparr>) (apply_thresh (Some t) img)"
  by (rule cog_cong) (simp_all add: apply_thresh_promote, simp add: apply_thresh_def)

lemma apply_thresh_zero:
  "apply_thresh (Some 0) img = img\<lparr>dtype := Float64, data := map (\<lambda>v. if v < 0 then 0 else v) (data img)\<rparr>"
  by (simp add: apply_thresh_def)

lemma apply_thresh_zero_idem: "apply_thresh (Some 0) (apply_thresh (Some 0) img) = apply_thresh (Some 0) img"
  by (simp add: apply_thresh_def)

text \<open>
  Claim C10.  The threshold of a default-constructed centroider is \<open>0.0\<close>, and calibration
  keeps it.  With it, \<open>cog\<close> computes on the image in which every negative pixel is
  replaced by zero: the result is that of a centroider without threshold on the clamped
  image, and clamping the argument beforehand changes nothing.  Any threshold \<open>t\<close> acts as
  the subtraction of \<open>t\<close> and the clamp on the argument; only the threshold \<open>None\<close> leaves
  the image as it is.
\<close>

theorem default_threshold_clamps_negative_pixels:
  "thresh_cog (ClassicCog_defaults n) = Some 0
   \<and> thresh_cog (calibrate (ClassicCog_defaults n)) = Some 0
   \<and> apply_thresh (Some 0) img
       = img\<lparr>dtype := Float64, data := map (\<lambda>v. if v < 0 then 0 else v) (data img)\<rparr>
   \<and> cog (calibrate (ClassicCog_defaults n)) img
       = cog (calibrate ((ClassicCog_defaults n)\<lparr>thresh_cog := None\<rparr>)) (apply_thresh (Some 0) img)
   \<and> cog (calibrate (ClassicCog_defaults n)) img
       = cog (calibrate (ClassicCog_defaults n)) (apply_thresh (Some 0) img)
   \<and> (\<forall>t. cog (cc\<lparr>thresh_cog := Some t\<rparr>) img
            = cog (cc\<lparr>thresh_cog := None\<rparr>) (apply_thresh (Some t) img))
   \<and> apply_thresh None img = img"
proof -
  let ?d = "calibrate (ClassicCog_defaults n)"
  have d: "?d = ?d\<lparr>thresh_cog := Some 0\<rparr>"
    by (simp add: calibrate_def ClassicCog_defaults_def Let_def)
  have 1: "cog ?d img = cog (?d\<lparr>thresh_cog := None\<rparr>) (apply_thresh (Some 0) img)"
    by (subst d) (rule cog_thresh_as_input)
  have 2: "cog ?d (apply_thresh (Some 0) img) = cog (?d\<lparr>thresh_cog := None\<rparr>) (apply_thresh (Some 0) img)"
    by (subst d) (simp only: cog_thresh_as_input apply_thresh_zero_idem)
  show ?thesis
    using 1 2 cog_thresh_as_input [where cc = cc and img = img]
    by (simp add: calibrate_thresh apply_thresh_zero)
       (simp add: calibrate_def ClassicCog_defaults_def apply_thresh_def Let_def)
qed

section \<open>The wavefront sensor\<close>

lemma kept_rows_length:
  "length (kept_rows pw fv) = (if fv < pw then 2 * (fv div 2) else pw)"
  by (simp add: kept_rows_def)

lemma SHWFS_init_kernel_shape:
  assumes "SHWFS_init ev sh = Inr sh'"
  shows "\<exists>sw d. subwidth sh = Inr sw \<and> dft2 sh' = Some d
           \<and> shape d = [length (kept_rows (max (sw * 2) (fovx sh)) (fovx sh))
                          * length (kept_rows (max (sw * 2) (fovx sh)) (fovx sh)), sw * sw]
           \<and> nsubx sh' = nsubx sh \<and> fovx sh' = fovx sh \<and> pupil_wfs sh' = pupil_wfs sh
           \<and> wavelength sh' = wavelength sh"
  using assms
  by (auto simp: SHWFS_init_def Let_def split: sum.splits if_splits)

lemma kept_rows_full:
  "even fv \<or> 2 * sw \<le> fv \<Longrightarrow> length (kept_rows (max (sw * 2) fv) fv) = fv"
  by (auto simp: kept_rows_length max_def)

lemma kept_rows_short:
  "odd fv \<Longrightarrow> fv < 2 * sw \<Longrightarrow> length (kept_rows (max (sw * 2) fv) fv) = fv - 1"
  by (auto simp: kept_rows_length max_def elim!: oddE)

text \<open>
  \<open>measure\<close> recomputes both views: the views that the sensor held before do not enter
  the result.
\<close>

lemma measure_wfs_forgets:
  "measure_wfs ev (sh\<lparr>im_subaps := a0, im_full := b0\<rparr>) phi = measure_wfs ev sh phi"
  by (simp add: measure_wfs_def subwidth_def Let_def
      cong: sum.case_cong list.case_cong option.case_cong if_cong)

text \<open>
  With a kernel of \<open>fovx\<^sup>2\<close> rows, \<open>measure\<close> returns the two views with the shapes of
  the specification.
\<close>

lemma measure_wfs_views:
  assumes w: "wavelength sh \<noteq> 0" and p: "shape (pupil ev) = shape phi"
    and sw: "subwidth sh = Inr sw" and sz: "prod_list (shape phi) = nsubx sh * sw * (nsubx sh * sw)"
    and d: "dft2 sh = Some d" "shape d = [fovx sh * fovx sh, sw * sw]"
  shows "\<exists>a b. measure_wfs ev sh phi = Inr (sh\<lparr>im_subaps := Some a, im_full := Some b\<rparr>)
           \<and> shape a = [nsubx sh * nsubx sh, fovx sh, fovx sh]
           \<and> shape b = [nsubx sh * fovx sh, nsubx sh * fovx sh]"
proof -
  obtain a b where "measure_wfs ev sh phi = Inr (sh\<lparr>im_subaps := Some a, im_full := Some b\<rparr>)"
    "shape a = [nsubx sh * nsubx sh, fovx sh, fovx sh]"
    "shape b = [nsubx sh * fovx sh, nsubx sh * fovx sh]"
    using w p sz d by (simp add: measure_wfs_def sw Let_def)
  then show ?thesis by blast
qed

lemma subwidth_odd: "subwidth wfs_odd = Inr 2"
  by (simp add: subwidth_def wfs_odd_def SHWFS_defaults_def pupil_two_def)

text \<open>
  Claim C7 says that \<open>measure\<close> returns, for every phase map of the pupil's shape, a
  batched view of shape \<open>(N\<^sup>2, fovx, fovx)\<close> and a full frame of shape
  \<open>(N fovx, N fovx)\<close>.  The constructor cuts the kernel to the rows
  \<open>pw//2 - fovx//2 : pw//2 + fovx//2\<close>, which are \<open>fovx - 1\<close> rows when \<open>fovx\<close> is odd and
  less than twice the subaperture width.  For one subaperture of width 2 and \<open>fovx = 3\<close>
  the constructor succeeds with a kernel of \<open>2 \<cdot> 2\<close> rows, and \<open>measure\<close> of a flat phase
  fails in the reshape to \<open>(1, 3, 3)\<close>.
\<close>

theorem measure_odd_fov_fails:
  "\<exists>sh d. SHWFS_init ev_wfs wfs_odd = Inr sh \<and> dft2 sh = Some d \<and> shape d = [4, 4]
         \<and> nsubx sh = 1 \<and> fovx sh = 3
         \<and> measure_wfs ev_wfs sh phi_flat = Inl ValueError"
proof -
  have k: "length (kept_rows 4 3) = 2" by (simp add: kept_rows_length)
  obtain d where i: "SHWFS_init ev_wfs wfs_odd = Inr (wfs_odd\<lparr>padded_width := Some 4, dft2 := Some d\<rparr>)"
    and d: "shape d = [4, 4]"
    by (simp add: SHWFS_init_def subwidth_odd Let_def k)
       (simp add: wfs_odd_def SHWFS_defaults_def ev_wfs_def pupil_two_def k)
  have s: "subwidth (wfs_odd\<lparr>padded_width := Some 4, dft2 := Some d\<rparr>) = Inr 2"
    by (simp add: subwidth_def wfs_odd_def SHWFS_defaults_def pupil_two_def)
  have m: "measure_wfs ev_wfs (wfs_odd\<lparr>padded_width := Some 4, dft2 := Some d\<rparr>) phi_flat = Inl ValueError"
    by (simp add: measure_wfs_def s d Let_def)
       (simp add: wfs_odd_def SHWFS_defaults_def ev_wfs_def pupil_two_def phi_flat_def)
  show ?thesis
    using i d m by (simp add: wfs_odd_def)
qed

section \<open>Finite doubles: the exact theorems apply\<close>

lemma sumn_Fin: "sumn (\<lambda>j. Fin (f j)) n = Fin (sumn f n)"
  by (induction n) (simp_all add: zero_fl_def plus_fl_def)

lemma shape_lift [simp]: "shape (lift a) = shape a"
  by (simp add: lift_def)

lemma lift_tab: "lift (tab sh f) = tab sh (\<lambda>t. Fin (f t))"
  by (simp add: lift_def tab_def)

lemma wf_lift [simp]: "wf_array (lift a) = wf_array a"
  by (simp add: lift_def wf_array_def)

lemma lift_nth: "t < length (data a) \<Longrightarrow> data (lift a) ! t = Fin (data a ! t)"
  by (simp add: lift_def)

lemma lift_einsum:
  assumes a: "wf_array a" and x: "wf_array x"
  shows "einsum_ij_jE (lift a) (lift x) = map_sum id lift (einsum_ij_jE a x)"
proof (cases "\<exists>m n rest. shape a = [m, n] \<and> shape x = n # rest")
  case True
  then obtain m n rest where sa: "shape a = [m, n]" and sx: "shape x = n # rest" by blast
  define r where "r = prod_list rest"
  have la: "length (data a) = m * n" using a sa by (simp add: wf_array_def)
  have lx: "length (data x) = n * r" using x sx by (simp add: wf_array_def r_def)
  have "tab (m # rest) (\<lambda>t. sumn (\<lambda>j. data (lift a) ! ((t div r) * n + j) * data (lift x) ! (j * r + t mod r)) n)
      = tab (m # rest) (\<lambda>t. Fin (sumn (\<lambda>j. data a ! ((t div r) * n + j) * data x ! (j * r + t mod r)) n))"
  proof (rule tab_cong)
    fix t assume "t < prod_list (m # rest)"
    then have t: "t < m * r" by (simp add: r_def)
    then have rpos: "0 < r" by (cases r) simp_all
    have i: "t div r < m" using t by (rule div_lt)
    have q: "t mod r < r" using rpos by simp
    have "sumn (\<lambda>j. data (lift a) ! ((t div r) * n + j) * data (lift x) ! (j * r + t mod r)) n
        = sumn (\<lambda>j. Fin (data a ! ((t div r) * n + j) * data x ! (j * r + t mod r))) n"
    proof (rule sumn_cong)
      fix j assume j: "j < n"
      have "(t div r) * n + j < length (data a)" using idx_lt [OF i j] la by simp
      moreover have "j * r + t mod r < length (data x)" using idx_lt [OF j q] lx by simp
      ultimately show "data (lift a) ! ((t div r) * n + j) * data (lift x) ! (j * r + t mod r)
          = Fin (data a ! ((t div r) * n + j) * data x ! (j * r + t mod r))"
        by (simp add: lift_nth times_fl_def)
    qed
    then show "sumn (\<lambda>j. data (lift a) ! ((t div r) * n + j) * data (lift x) ! (j * r + t mod r)) n
        = Fin (sumn (\<lambda>j. data a ! ((t div r) * n + j) * data x ! (j * r + t mod r)) n)"
      by (simp add: sumn_Fin)
  qed
  then show ?thesis
    using einsum_ij_jE_ok [OF sa sx] einsum_ij_jE_ok [of "lift a" m n "lift x" rest] sa sx
    by (simp add: r_def lift_tab)
next
  case False
  then show ?thesis
    by (auto simp: einsum_ij_jE_def Let_def split: list.splits)
qed

lemma lift_einsum_jk:
  "wf_array a \<Longrightarrow> wf_array b \<Longrightarrow> einsum_ij_jk (lift a) (lift b) = map_sum id lift (einsum_ij_jk a b)"
  by (simp add: einsum_ij_jk_def lift_einsum split: list.splits)

lemma lift_transpose:
  assumes "wf_array a"
  shows "transpose2 (lift a) = map_sum id lift (transpose2 a)"
proof (cases "\<exists>m n. shape a = [m, n]")
  case True
  then obtain m n where sa: "shape a = [m, n]" by blast
  have la: "length (data a) = m * n" using assms sa by (simp add: wf_array_def)
  have "tab [n, m] (\<lambda>t. data (lift a) ! ((t mod m) * n + t div m))
      = tab [n, m] (\<lambda>t. Fin (data a ! ((t mod m) * n + t div m)))"
  proof (rule tab_cong)
    fix t assume "t < prod_list [n, m]"
    then have t: "t < n * m" by simp
    then have mpos: "0 < m" by (cases m) simp_all
    have "(t mod m) * n + t div m < length (data a)"
      using idx_lt [of "t mod m" m "t div m" n] div_lt [OF t] mpos la by simp
    then show "data (lift a) ! ((t mod m) * n + t div m) = Fin (data a ! ((t mod m) * n + t div m))"
      by (rule lift_nth)
  qed
  then show ?thesis by (simp add: transpose2_def sa lift_tab)
next
  case False
  then show ?thesis by (auto simp: transpose2_def split: list.splits)
qed

lemma lift_minus:
  assumes "wf_array a" "wf_array b"
  shows "ew (-) (lift a) (lift b) = map_sum id lift (ew (-) a b)"
proof (cases "shape a = shape b")
  case True
  have "tab (shape a) (\<lambda>t. data (lift a) ! t - data (lift b) ! t)
      = tab (shape a) (\<lambda>t. Fin (data a ! t - data b ! t))"
    using assms True
    by (intro tab_cong) (simp add: lift_nth wf_array_def minus_fl_def)
  then show ?thesis using True by (simp add: ew_def lift_tab)
next
  case False
  then show ?thesis by (simp add: ew_def)
qed

lemma einsum_wf: "einsum_ij_jE a x = Inr y \<Longrightarrow> wf_array y"
  by (auto simp: einsum_ij_jE_def Let_def wf_tab split: list.splits if_splits)

lemma einsum_jk_wf: "einsum_ij_jk a x = Inr y \<Longrightarrow> wf_array y"
  by (auto simp: einsum_ij_jk_def dest: einsum_wf split: list.splits)

lemma transpose2_wf: "transpose2 a = Inr y \<Longrightarrow> wf_array y"
  by (auto simp: transpose2_def wf_tab split: list.splits)

lemma dot_classic_lift:
  assumes "wf_array (sm_A sm)" "wf_array x"
  shows "dot_classic (lift_sm sm) (lift x) = map_sum id lift (dot_classic sm x)"
  using assms by (simp add: dot_classic_def lift_sm_def lift_einsum)

lemma dot_factored_lift:
  assumes "wf_array (sm_ML sm)" "wf_array (sm_LT sm)" "wf_array x"
  shows "dot_factored (lift_sm sm) (lift x) = map_sum id lift (dot_factored sm x)"
proof (cases "einsum_ij_jE (sm_LT sm) x")
  case (Inl e)
  then show ?thesis
    using assms
    by (simp add: dot_factored_def lift_sm_def lift_einsum split: list.splits)
next
  case (Inr y)
  then have "wf_array y" by (rule einsum_wf)
  then show ?thesis
    using assms Inr
    by (simp add: dot_factored_def lift_sm_def lift_einsum split: list.splits)
qed

lemma dot_lift:
  assumes "wf_array (sm_ML sm)" "wf_array (sm_LT sm)" "wf_array (sm_A sm)" "wf_array x"
  shows "dot (lift_sm sm) (lift x) = map_sum id lift (dot sm x)"
  using assms dot_classic_lift [of sm x] dot_factored_lift [of sm x]
  by (cases "dot_sel sm") (simp_all add: dot_def lift_sm_def)

lemma dot_wf: "dot sm x = Inr y \<Longrightarrow> wf_array y"
  by (auto simp: dot_def dot_classic_def dot_factored_def dest: einsum_wf
      split: strategy.splits list.splits if_splits sum.splits)

lemma sigma_vv_lift:
  assumes w: "wf_array (sm_ML sm)" "wf_array (sm_LT sm)" "wf_array (sm_A sm)" and s: "wf_array s"
  shows "sigma_vv (lift_sm sm) (lift s) = map_sum id lift (sigma_vv sm s)"
proof (cases "dot sm s")
  case (Inl e)
  then show ?thesis by (simp add: sigma_vv_def dot_lift [OF w s])
next
  case b: (Inr b)
  have wb: "wf_array b" using b by (rule dot_wf)
  show ?thesis
  proof (cases "transpose2 b")
    case (Inl e)
    then show ?thesis by (simp add: sigma_vv_def dot_lift [OF w s] b lift_transpose [OF wb])
  next
    case bt: (Inr bt)
    have wbt: "wf_array bt" using bt by (rule transpose2_wf)
    show ?thesis
    proof (cases "dot sm bt")
      case (Inl e)
      then show ?thesis
        by (simp add: sigma_vv_def dot_lift [OF w s] b lift_transpose [OF wb] bt dot_lift [OF w wbt])
    next
      case c: (Inr c)
      have wc: "wf_array c" using c by (rule dot_wf)
      show ?thesis
      proof (cases "transpose2 c")
        case (Inl e)
        then show ?thesis
          by (simp add: sigma_vv_def dot_lift [OF w s] b lift_transpose [OF wb] bt
              dot_lift [OF w wbt] c lift_transpose [OF wc])
      next
        case ct: (Inr ct)
        have wct: "wf_array ct" using ct by (rule transpose2_wf)
        show ?thesis
          by (simp add: sigma_vv_def dot_lift [OF w s] b lift_transpose [OF wb] bt
              dot_lift [OF w wbt] c lift_transpose [OF wc] ct lift_minus [OF s wct])
      qed
    qed
  qed
qed

lemma innovation_spec_lift:
  assumes a: "wf_array a" and s: "wf_array s"
  shows "innovation_spec (lift a) (lift s) = map_sum id lift (innovation_spec a s)"
proof (cases "einsum_ij_jk a s")
  case (Inl e)
  then show ?thesis by (simp add: innovation_spec_def lift_einsum_jk [OF a s])
next
  case p: (Inr p)
  have wp: "wf_array p" using p by (rule einsum_jk_wf)
  show ?thesis
  proof (cases "transpose2 a")
    case (Inl e)
    then show ?thesis by (simp add: innovation_spec_def lift_einsum_jk [OF a s] p lift_transpose [OF a])
  next
    case t: (Inr a_t)
    have wt: "wf_array a_t" using t by (rule transpose2_wf)
    show ?thesis
    proof (cases "einsum_ij_jk p a_t")
      case (Inl e)
      then show ?thesis
        by (simp add: innovation_spec_def lift_einsum_jk [OF a s] p lift_transpose [OF a] t
            lift_einsum_jk [OF wp wt])
    next
      case q: (Inr q)
      have wq: "wf_array q" using q by (rule einsum_jk_wf)
      show ?thesis
        by (simp add: innovation_spec_def lift_einsum_jk [OF a s] p lift_transpose [OF a] t
            lift_einsum_jk [OF wp wt] q lift_minus [OF s wq])
    qed
  qed
qed

text \<open>
  On arrays of finite doubles the arithmetic of \<open>fl\<close> is the exact one.  The state
  matrix that is built from a finite cross-covariance and a finite inverse factor is the
  image of a state matrix over the reals.
\<close>

lemma finite_state_matrix_is_lift:
  fixes ev :: "fl env"
  assumes c: "wf_array c" and i: "wf_array i"
    and init: "StateMatrix_init ev (lift c) (lift i) = Inr sm"
  shows "\<exists>sm0. sm = lift_sm sm0 \<and> wf_array (sm_ML sm0) \<and> wf_array (sm_LT sm0)
           \<and> wf_array (sm_A sm0) \<and> einsum_ij_jk (sm_ML sm0) (sm_LT sm0) = Inr (sm_A sm0)"
proof -
  note p = StateMatrix_init_parts [OF init]
  from p obtain ml where ml: "einsum_ij_jk c i = Inr ml" "sm_ML sm = lift ml"
    by (cases "einsum_ij_jk c i") (auto simp: lift_einsum_jk [OF c i])
  from p obtain lt where lt: "transpose2 i = Inr lt" "sm_LT sm = lift lt"
    by (cases "transpose2 i") (auto simp: lift_transpose [OF i])
  have wml: "wf_array ml" and wlt: "wf_array lt"
    using ml lt by (auto dest: einsum_jk_wf transpose2_wf)
  from p obtain a where a: "einsum_ij_jk ml lt = Inr a" "sm_A sm = lift a"
    by (cases "einsum_ij_jk ml lt") (auto simp: ml lt lift_einsum_jk [OF wml wlt])
  have wa: "wf_array a" using a by (auto dest: einsum_jk_wf)
  define sel where "sel = dot_sel sm"
  define sm0 where "sm0 = \<lparr>sm_ML = ml, sm_LT = lt, sm_A = a, dot_sel = sel\<rparr>"
  have sm: "sm = lift_sm sm0"
    using ml(2) lt(2) a(2) by (cases sm) (simp add: sm0_def lift_sm_def sel_def)
  have parts: "sm_ML sm0 = ml" "sm_LT sm0 = lt" "sm_A sm0 = a"
    by (simp_all add: sm0_def)
  show ?thesis
    using sm wml wlt wa a(1) by (intro exI [of _ sm0]) (simp add: parts)
qed

text \<open>So both strategies give the same product on a finite argument.\<close>

lemma finite_state_matrix_agrees:
  fixes ev :: "fl env"
  assumes c: "wf_array c" and i: "wf_array i" and x: "wf_array x"
    and init: "StateMatrix_init ev (lift c) (lift i) = Inr sm"
  shows "dot_factored sm (lift x) = dot_classic sm (lift x)"
proof -
  from finite_state_matrix_is_lift [OF c i init] obtain sm0 where sm: "sm = lift_sm sm0"
    and w: "wf_array (sm_ML sm0)" "wf_array (sm_LT sm0)" "wf_array (sm_A sm0)"
    and p: "einsum_ij_jk (sm_ML sm0) (sm_LT sm0) = Inr (sm_A sm0)"
    by blast
  show ?thesis
    using dot_factored_eq_classic_parts [OF p, of x] dot_classic_lift [OF w(3) x]
      dot_factored_lift [OF w(1,2) x]
    by (simp add: sm)
qed

text \<open>And the innovation covariance of a finite self-covariance is the residual.\<close>

lemma innovation_parts:
  fixes sm :: "'a::comm_ring StateMatrix"
  assumes p: "einsum_ij_jk (sm_ML sm) (sm_LT sm) = Inr (sm_A sm)"
    and a: "shape (sm_A sm) = [n, n]" and s: "shape sigma_xx = [n, n]"
  shows "sigma_vv sm sigma_xx = innovation_spec (sm_A sm) sigma_xx"
proof -
  have d: "dot sm y = einsum_ij_jE (sm_A sm) y" for y
    using dot_factored_eq_classic_parts [OF p, of y]
    by (simp add: dot_def dot_classic_def split: strategy.splits)
  show ?thesis
    using residual_core [OF a s] by (simp add: sigma_vv_def d cong: sum.case_cong)
qed

lemma finite_innovation_covariance:
  fixes ev :: "fl env"
  assumes c: "wf_array c" and i: "wf_array i" and s: "wf_array s"
    and init: "StateMatrix_init ev (lift c) (lift i) = Inr sm"
    and a: "shape (sm_A sm) = [n, n]" and ss: "shape s = [n, n]"
  shows "sigma_vv sm (lift s) = innovation_spec (sm_A sm) (lift s)"
proof -
  from finite_state_matrix_is_lift [OF c i init] obtain sm0 where sm: "sm = lift_sm sm0"
    and w: "wf_array (sm_ML sm0)" "wf_array (sm_LT sm0)" "wf_array (sm_A sm0)"
    and p: "einsum_ij_jk (sm_ML sm0) (sm_LT sm0) = Inr (sm_A sm0)"
    by blast
  have a0: "shape (sm_A sm0) = [n, n]" using a by (simp add: sm lift_sm_def)
  have la: "sm_A (lift_sm sm0) = lift (sm_A sm0)" by (simp add: lift_sm_def)
  show ?thesis
    using innovation_parts [OF p a0 ss] sigma_vv_lift [OF w s] innovation_spec_lift [OF w(3) s]
    by (simp add: sm la)
qed

section \<open>The benchmark and the sequence of states\<close>

text \<open>
  Operations on finite arrays return finite arrays, and on them the product selected by
  the benchmark is the product with \<open>A\<close>, whichever of the two was selected.
\<close>

lemma Fin_real_of_fl: "is_finite v \<Longrightarrow> Fin (real_of_fl v) = v"
  by (cases v) simp_all

lemma lift_unlift: "finite_array a \<Longrightarrow> lift (unlift a) = a"
  by (cases a) (simp add: lift_def unlift_def finite_array_def list_all_iff map_idI Fin_real_of_fl)

lemma wf_unlift: "finite_array a \<Longrightarrow> wf_array (unlift a)"
  by (simp add: unlift_def finite_array_def wf_array_def)

lemma finite_array_lift: "wf_array r \<Longrightarrow> finite_array (lift r)"
  by (simp add: finite_array_def lift_def list_all_iff wf_array_def)

lemma finite_arrayE:
  assumes "finite_array a"
  obtains r where "wf_array r" "a = lift r"
  using assms lift_unlift [of a] wf_unlift [of a] by metis

lemma einsum_finite:
  assumes a: "finite_array a" and x: "finite_array x" and y: "einsum_ij_jE a x = Inr y"
  shows "finite_array y"
proof -
  from a obtain a0 where a0: "wf_array a0" "a = lift a0" by (rule finite_arrayE)
  from x obtain x0 where x0: "wf_array x0" "x = lift x0" by (rule finite_arrayE)
  from y obtain y0 where y0: "einsum_ij_jE a0 x0 = Inr y0" "y = lift y0"
    by (cases "einsum_ij_jE a0 x0") (auto simp: a0 x0 lift_einsum)
  show ?thesis using einsum_wf [OF y0(1)] y0(2) by (simp add: finite_array_lift)
qed

lemma lift_plus:
  assumes "wf_array a" "wf_array b"
  shows "ew (+) (lift a) (lift b) = map_sum id lift (ew (+) a b)"
proof (cases "shape a = shape b")
  case True
  have "tab (shape a) (\<lambda>t. data (lift a) ! t + data (lift b) ! t)
      = tab (shape a) (\<lambda>t. Fin (data a ! t + data b ! t))"
    using assms True
    by (intro tab_cong) (simp add: lift_nth wf_array_def plus_fl_def)
  then show ?thesis using True by (simp add: ew_def lift_tab)
next
  case False
  then show ?thesis by (simp add: ew_def)
qed

lemma ew_wf: "ew f a b = Inr y \<Longrightarrow> wf_array y"
  by (auto simp: ew_def wf_tab split: if_splits)

lemma plus_finite:
  assumes a: "finite_array a" and x: "finite_array x" and y: "ew (+) a x = Inr y"
  shows "finite_array y"
proof -
  from a obtain a0 where a0: "wf_array a0" "a = lift a0" by (rule finite_arrayE)
  from x obtain x0 where x0: "wf_array x0" "x = lift x0" by (rule finite_arrayE)
  from y obtain y0 where y0: "ew (+) a0 x0 = Inr y0" "y = lift y0"
    by (cases "ew (+) a0 x0") (auto simp: a0 x0 lift_plus)
  show ?thesis using ew_wf [OF y0(1)] y0(2) by (simp add: finite_array_lift)
qed

lemma matmul_finite:
  assumes "finite_array a" "finite_array x" "matmul a x = Inr y"
  shows "finite_array y"
  using assms
  by (auto simp: matmul_def split: list.splits if_splits dest: einsum_finite)

lemma finite_parts_is_lift:
  assumes ml: "finite_array (sm_ML sm)" and lt: "finite_array (sm_LT sm)"
    and p: "einsum_ij_jk (sm_ML sm) (sm_LT sm) = Inr (sm_A sm)"
  shows "\<exists>sm0. sm = lift_sm sm0 \<and> wf_array (sm_ML sm0) \<and> wf_array (sm_LT sm0)
           \<and> wf_array (sm_A sm0) \<and> einsum_ij_jk (sm_ML sm0) (sm_LT sm0) = Inr (sm_A sm0)"
proof -
  from ml obtain ml0 where ml0: "wf_array ml0" "sm_ML sm = lift ml0" by (rule finite_arrayE)
  from lt obtain lt0 where lt0: "wf_array lt0" "sm_LT sm = lift lt0" by (rule finite_arrayE)
  from p obtain a where a: "einsum_ij_jk ml0 lt0 = Inr a" "sm_A sm = lift a"
    by (cases "einsum_ij_jk ml0 lt0") (auto simp: ml0 lt0 lift_einsum_jk)
  have wa: "wf_array a" using a by (auto dest: einsum_jk_wf)
  define sel where "sel = dot_sel sm"
  define sm0 where "sm0 = \<lparr>sm_ML = ml0, sm_LT = lt0, sm_A = a, dot_sel = sel\<rparr>"
  have sm: "sm = lift_sm sm0"
    using ml0(2) lt0(2) a(2) by (cases sm) (simp add: sm0_def lift_sm_def sel_def)
  have parts: "sm_ML sm0 = ml0" "sm_LT sm0 = lt0" "sm_A sm0 = a"
    by (simp_all add: sm0_def)
  show ?thesis
    using sm ml0(1) lt0(1) wa a(1) by (intro exI [of _ sm0]) (simp add: parts)
qed

text \<open>On a finite argument the selected product is the product with A, whichever was selected.\<close>

lemma finite_dot:
  assumes ml: "finite_array (sm_ML sm)" and lt: "finite_array (sm_LT sm)"
    and p: "einsum_ij_jk (sm_ML sm) (sm_LT sm) = Inr (sm_A sm)"
    and x: "finite_array x"
  shows "dot sm x = einsum_ij_jE (sm_A sm) x"
    and "finite_array (sm_A sm)"
proof -
  from finite_parts_is_lift [OF ml lt p] obtain sm0 where sm: "sm = lift_sm sm0"
    and w: "wf_array (sm_ML sm0)" "wf_array (sm_LT sm0)" "wf_array (sm_A sm0)"
    and p0: "einsum_ij_jk (sm_ML sm0) (sm_LT sm0) = Inr (sm_A sm0)"
    by blast
  from x obtain x0 where x0: "wf_array x0" "x = lift x0" by (rule finite_arrayE)
  have "dot_factored sm x = dot_classic sm x"
    using dot_factored_eq_classic_parts [OF p0, of x0] dot_classic_lift [OF w(3) x0(1)]
      dot_factored_lift [OF w(1,2) x0(1)]
    by (simp add: sm x0)
  then show "dot sm x = einsum_ij_jE (sm_A sm) x"
    by (simp add: dot_def dot_classic_def split: strategy.splits)
  show "finite_array (sm_A sm)"
    using w(3) by (simp add: sm lift_sm_def finite_array_lift)
qed

lemma transpose2_finite:
  assumes a: "finite_array a" and y: "transpose2 a = Inr y"
  shows "finite_array y"
proof -
  from a obtain a0 where a0: "wf_array a0" "a = lift a0" by (rule finite_arrayE)
  from y obtain y0 where y0: "transpose2 a0 = Inr y0" "y = lift y0"
    by (cases "transpose2 a0") (auto simp: a0 lift_transpose)
  show ?thesis using transpose2_wf [OF y0(1)] y0(2) by (simp add: finite_array_lift)
qed

text \<open>So the innovation covariance of a finite self-covariance does not depend on the selection.\<close>

lemma sigma_vv_selection:
  assumes ml: "finite_array (sm_ML sm)" and lt: "finite_array (sm_LT sm)"
    and p: "einsum_ij_jk (sm_ML sm) (sm_LT sm) = Inr (sm_A sm)"
    and s: "finite_array sigma_xx"
  shows "sigma_vv (sm\<lparr>dot_sel := sel\<rparr>) sigma_xx = sigma_vv sm sigma_xx"
proof -
  let ?sm' = "sm\<lparr>dot_sel := sel\<rparr>"
  have d: "dot ?sm' x = dot sm x" if "finite_array x" for x
    using finite_dot(1) [of ?sm' x] finite_dot(1) [of sm x] ml lt p that by simp
  show ?thesis
  proof (cases "dot sm sigma_xx")
    case (Inl e)
    then show ?thesis by (simp add: sigma_vv_def d [OF s])
  next
    case (Inr b)
    have fb: "finite_array b"
      using Inr finite_dot [OF ml lt p s] by (auto dest: einsum_finite [rotated 2] simp: s)
    show ?thesis
    proof (cases "transpose2 b")
      case (Inl e)
      then show ?thesis by (simp add: sigma_vv_def d [OF s] Inr)
    next
      case bt: (Inr bt)
      have "finite_array bt" using fb bt by (rule transpose2_finite)
      then show ?thesis by (simp add: sigma_vv_def d [OF s] Inr bt d)
    qed
  qed
qed

text \<open>
  The clock is read by the benchmark only: the covariances and the factorizations do not
  depend on it, and the state matrix depends on it through the selected product alone.
\<close>

lemma covariance_clock [simp]: "covariance (ev\<lparr>clock := c\<rparr>) = covariance ev"
  by (intro ext) (simp add: covariance_def)

lemma eigh_checked_clock [simp]: "eigh_checked (ev\<lparr>clock := c\<rparr>) a = eigh_checked ev a"
  by (simp add: eigh_checked_def cong: list.case_cong if_cong)

lemma factorh_clock [simp]: "factorh (ev\<lparr>clock := c\<rparr>) = factorh ev"
  by (intro ext) (simp add: factorh_def)

lemma StateMatrix_init_clock:
  assumes "StateMatrix_init ev c i = Inr sm"
  shows "\<exists>s. StateMatrix_init (ev\<lparr>clock := t\<rparr>) c i = Inr (sm\<lparr>dot_sel := s\<rparr>)"
  using assms
  by (auto simp: StateMatrix_init_def test_speed_def Let_def split: sum.splits list.splits prod.splits if_splits)

lemma covariance_finite:
  assumes "\<And>a b c d e f. is_finite (kernel ev a b c d e f)"
  shows "finite_array (covariance ev ps x_in y_in x_out y_out)"
proof -
  have "is_finite (v * Fin r)" if "is_finite v" for v r
    using that by (cases v) (simp_all add: times_fl_def)
  then have "list_all is_finite (data (covariance ev ps x_in y_in x_out y_out))"
    using assms by (simp add: covariance_def Let_def list_all_iff tab_def)
  moreover have "wf_array (covariance ev ps x_in y_in x_out y_out)"
    by (simp add: covariance_def Let_def wf_tab)
  ultimately show ?thesis by (simp add: finite_array_def)
qed

lemma PhaseScreen_init_inv:
  assumes "PhaseScreen_init ev ps h = Inr (p, h1)"
  shows "\<exists>w xx yy f_xx inv_xx w0 w1 ws sm s_vv f_vv u n k x0.
      wf_array (pupil_ps ps) \<and> shape (pupil_ps ps) = [w, w] \<and> pup_width ev = w \<and> 0 < w
    \<and> grid_coords w (diam_ps ps / real w) (pupil_ps ps) = (xx, yy)
    \<and> factorh ev (thresh_ps ps) (covariance ev ps xx yy xx yy) (xx_max ps) = Inr (f_xx, inv_xx)
    \<and> wind ps = w0 # w1 # ws
    \<and> StateMatrix_init ev
         (tab (shape (covariance ev ps (map (\<lambda>a. a + w0 * ittime ps) xx) (map (\<lambda>a. a + w1 * ittime ps) yy) xx yy))
            (\<lambda>t. Fin (laminar ps)
                 * data (covariance ev ps (map (\<lambda>a. a + w0 * ittime ps) xx) (map (\<lambda>a. a + w1 * ittime ps) yy) xx yy) ! t))
         inv_xx = Inr sm
    \<and> sigma_vv sm (covariance ev ps xx yy xx yy) = Inr s_vv
    \<and> factorh ev (thresh_ps ps) s_vv (vv_max ps) = Inr (f_vv, u)
    \<and> shape f_xx = [n, k]
    \<and> matmul f_xx (fst (normal \<lparr>deviates = default_rng ev (seed ps), drawn = 0\<rparr> [k])) = Inr x0
    \<and> p = ps\<lparr>rng := Some (length h), pixsize := Some (diam_ps ps / real w),
                 factor_xx := Some f_xx, state_matrix := Some sm, factor_vv := Some f_vv,
                 x_ps := Some x0\<rparr>
    \<and> h1 = h @ [\<lparr>deviates = default_rng ev (seed ps), drawn = k\<rparr>]"
proof -
  from assms obtain w ds where sh: "shape (pupil_ps ps) = w # ds" and wf: "wf_array (pupil_ps ps)"
    and w0: "w \<noteq> 0" and ww: "w # ds = [pup_width ev, pup_width ev]"
    unfolding PhaseScreen_init_def Let_def
    by (auto split: if_splits list.splits)
  then have shp: "shape (pupil_ps ps) = [w, w]" and pw: "pup_width ev = w" by simp_all
  obtain xx yy where g: "grid_coords w (diam_ps ps / real w) (pupil_ps ps) = (xx, yy)"
    by (cases "grid_coords w (diam_ps ps / real w) (pupil_ps ps)")
  note unf = PhaseScreen_init_def Let_def wf shp pw g
  from assms w0 obtain f_xx inv_xx where
    f1: "factorh ev (thresh_ps ps) (covariance ev ps xx yy xx yy) (xx_max ps) = Inr (f_xx, inv_xx)"
    by (simp add: unf split: sum.splits prod.splits) 
  from assms w0 obtain w0' w1' ws where wd: "wind ps = w0' # w1' # ws"
    by (simp add: unf f1 split: list.splits)
  let ?c = "covariance ev ps (map (\<lambda>a. a + w0' * ittime ps) xx) (map (\<lambda>a. a + w1' * ittime ps) yy) xx yy"
  let ?yx = "tab (shape ?c) (\<lambda>t. Fin (laminar ps) * data ?c ! t)"
  from assms w0 obtain sm where s1: "StateMatrix_init ev ?yx inv_xx = Inr sm"
    by (simp add: unf f1 wd split: sum.splits)
  from assms w0 obtain s_vv where s2: "sigma_vv sm (covariance ev ps xx yy xx yy) = Inr s_vv"
    by (simp add: unf f1 wd s1 split: sum.splits)
  from assms w0 obtain f_vv u where
    f2: "factorh ev (thresh_ps ps) s_vv (vv_max ps) = Inr (f_vv, u)"
    by (simp add: unf f1 wd s1 s2 split: sum.splits prod.splits)
  from factorh_shape [OF f1] obtain n k where sf: "shape f_xx = [n, k]" by blast
  from assms w0 obtain x0 where
    x0: "matmul f_xx (fst (normal \<lparr>deviates = default_rng ev (seed ps), drawn = 0\<rparr> [k])) = Inr x0"
    by (simp add: unf f1 wd s1 s2 f2 sf normal_def split: sum.splits)
  have "PhaseScreen_init ev ps h
       = Inr (ps\<lparr>rng := Some (length h), pixsize := Some (diam_ps ps / real w),
                 factor_xx := Some f_xx, state_matrix := Some sm, factor_vv := Some f_vv,
                 x_ps := Some x0\<rparr>,
              h @ [\<lparr>deviates = default_rng ev (seed ps), drawn = k\<rparr>])"
    using w0 by (intro PhaseScreen_init_steps [OF wf shp pw _ g f1 wd refl s1 s2 f2 sf x0]) simp
  with assms have "p = ps\<lparr>rng := Some (length h), pixsize := Some (diam_ps ps / real w),
                 factor_xx := Some f_xx, state_matrix := Some sm, factor_vv := Some f_vv,
                 x_ps := Some x0\<rparr>"
    and "h1 = h @ [\<lparr>deviates = default_rng ev (seed ps), drawn = k\<rparr>]"
    by simp_all
  then show ?thesis
    using wf shp pw w0 g f1 wd s1 s2 f2 sf x0 by blast
qed

lemma screen_ok_rng: "screen_ok ps h \<Longrightarrow> rng ps = Some r \<Longrightarrow> r < length h"
  by (auto dest!: screen_okD)

lemma normal_finite:
  assumes "\<And>i. is_finite (deviates g i)"
  shows "finite_array (fst (normal g sh))"
  using assms by (simp add: normal_def finite_array_def wf_tab) (simp add: tab_def list_all_iff)

lemma step_twin:
  assumes ok1: "screen_ok p1 h1" and ok2: "screen_ok p2 h2"
    and f1: "rng p1 = Some r1" "factor_vv p1 = Some f" "state_matrix p1 = Some sm" "x_ps p1 = Some x"
    and f2: "rng p2 = Some r2" "factor_vv p2 = Some f" "state_matrix p2 = Some (sm\<lparr>dot_sel := s\<rparr>)"
      "x_ps p2 = Some x"
    and g: "h1 ! r1 = h2 ! r2"
    and ml: "finite_array (sm_ML sm)" and lt: "finite_array (sm_LT sm)"
    and p: "einsum_ij_jk (sm_ML sm) (sm_LT sm) = Inr (sm_A sm)"
    and ff: "finite_array f" and fx: "finite_array x"
    and devs: "\<And>i. is_finite (deviates (h1 ! r1) i)"
  shows "\<exists>x' g'. step p1 h1 = Inr (p1\<lparr>x_ps := Some x'\<rparr>, h1[r1 := g'])
           \<and> step p2 h2 = Inr (p2\<lparr>x_ps := Some x'\<rparr>, h2[r2 := g'])
           \<and> finite_array x' \<and> deviates g' = deviates (h1 ! r1)"
proof -
  obtain v g' where d: "normal (h1 ! r1) [shape f ! 1] = (v, g')"
    by (cases "normal (h1 ! r1) [shape f ! 1]")
  have d2: "normal (h2 ! r2) [shape f ! 1] = (v, g')" using d g by simp
  from step_result [OF ok1 f1 d] obtain ax fv x' where a: "dot sm x = Inr ax"
    "matmul f v = Inr fv" "ew (+) ax fv = Inr x'"
    "step p1 h1 = Inr (p1\<lparr>x_ps := Some x'\<rparr>, h1[r1 := g'])"
    by blast
  from step_result [OF ok2 f2 d2] obtain ax2 fv2 x2 where b: "dot (sm\<lparr>dot_sel := s\<rparr>) x = Inr ax2"
    "matmul f v = Inr fv2" "ew (+) ax2 fv2 = Inr x2"
    "step p2 h2 = Inr (p2\<lparr>x_ps := Some x2\<rparr>, h2[r2 := g'])"
    by blast
  have "dot (sm\<lparr>dot_sel := s\<rparr>) x = dot sm x"
    using finite_dot(1) [of "sm\<lparr>dot_sel := s\<rparr>" x] finite_dot(1) [of sm x] ml lt p fx by simp
  with a b have e: "ax2 = ax" "fv2 = fv" "x2 = x'" by simp_all
  have fv: "finite_array v"
    using normal_finite [of "h1 ! r1" "[shape f ! 1]"] devs d by simp
  have "einsum_ij_jE (sm_A sm) x = Inr ax"
    using finite_dot(1) [OF ml lt p fx] a(1) by simp
  with finite_dot(2) [OF ml lt p fx] fx have "finite_array ax" by (rule einsum_finite)
  moreover have "finite_array fv" using ff fv a(2) by (rule matmul_finite)
  ultimately have "finite_array x'" using a(3) by (rule plus_finite)
  moreover have "deviates g' = deviates (h1 ! r1)" using d by (auto simp: normal_def)
  ultimately show ?thesis using a(4) b(4) e by blast
qed

lemma steps_agree:
  assumes "screen_ok p1 h1" and "screen_ok p2 h2"
    and "rng p1 = Some r1" "factor_vv p1 = Some f" "state_matrix p1 = Some sm" "x_ps p1 = Some x"
    and "rng p2 = Some r2" "factor_vv p2 = Some f" "state_matrix p2 = Some (sm\<lparr>dot_sel := s\<rparr>)"
      "x_ps p2 = Some x"
    and "h1 ! r1 = h2 ! r2"
    and "finite_array (sm_ML sm)" and "finite_array (sm_LT sm)"
    and "einsum_ij_jk (sm_ML sm) (sm_LT sm) = Inr (sm_A sm)"
    and "finite_array f" and "finite_array x"
    and "\<And>i. is_finite (deviates (h1 ! r1) i)"
  shows "\<exists>q1 k1 q2 k2 y. steps n p1 h1 = Inr (q1, k1) \<and> steps n p2 h2 = Inr (q2, k2)
           \<and> x_ps q1 = Some y \<and> x_ps q2 = Some y"
  using assms
proof (induction n arbitrary: p1 h1 p2 h2 x)
  case 0
  then show ?case by simp
next
  case (Suc n)
  from step_twin [OF Suc.prems] obtain x' g' where
    s1: "step p1 h1 = Inr (p1\<lparr>x_ps := Some x'\<rparr>, h1[r1 := g'])"
    and s2: "step p2 h2 = Inr (p2\<lparr>x_ps := Some x'\<rparr>, h2[r2 := g'])"
    and fx: "finite_array x'" and dg: "deviates g' = deviates (h1 ! r1)"
    by blast
  have r1: "r1 < length h1" using Suc.prems(1,3) by (rule screen_ok_rng)
  have r2: "r2 < length h2" using Suc.prems(2,7) by (rule screen_ok_rng)
  have "\<exists>q1 k1 q2 k2 y. steps n (p1\<lparr>x_ps := Some x'\<rparr>) (h1[r1 := g']) = Inr (q1, k1)
      \<and> steps n (p2\<lparr>x_ps := Some x'\<rparr>) (h2[r2 := g']) = Inr (q2, k2)
      \<and> x_ps q1 = Some y \<and> x_ps q2 = Some y"
  proof (rule Suc.IH [where x = x'])
    show "screen_ok (p1\<lparr>x_ps := Some x'\<rparr>) (h1[r1 := g'])"
      using Suc.prems(1) s1 by (rule step_keeps_ok)
    show "screen_ok (p2\<lparr>x_ps := Some x'\<rparr>) (h2[r2 := g'])"
      using Suc.prems(2) s2 by (rule step_keeps_ok)
    show "h1[r1 := g'] ! r1 = h2[r2 := g'] ! r2" using r1 r2 by simp
    show "is_finite (deviates (h1[r1 := g'] ! r1) i)" for i
      using r1 dg Suc.prems(17) by simp
  qed (use Suc.prems fx in simp_all)
  then show ?case by (simp add: s1 s2)
qed

lemma two_constructions:
  assumes init: "PhaseScreen_init ev ps h = Inr (p1, h1)"
    and kern: "\<And>a b c d e f. is_finite (kernel ev a b c d e f)"
    and fin: "finite_screen p1"
  shows "\<exists>p2 h2 r1 r2 f sm s x.
      PhaseScreen_init (ev\<lparr>clock := c\<rparr>) ps h' = Inr (p2, h2)
    \<and> rng p1 = Some r1 \<and> factor_vv p1 = Some f \<and> state_matrix p1 = Some sm \<and> x_ps p1 = Some x
    \<and> rng p2 = Some r2 \<and> factor_vv p2 = Some f \<and> state_matrix p2 = Some (sm\<lparr>dot_sel := s\<rparr>)
    \<and> x_ps p2 = Some x
    \<and> h1 ! r1 = h2 ! r2 \<and> deviates (h1 ! r1) = default_rng ev (seed ps)
    \<and> einsum_ij_jk (sm_ML sm) (sm_LT sm) = Inr (sm_A sm)"
proof -
  from PhaseScreen_init_inv [OF init] obtain w xx yy f_xx inv_xx w0 w1 ws sm s_vv f_vv u n k x0
    where wf: "wf_array (pupil_ps ps)" and shp: "shape (pupil_ps ps) = [w, w]"
    and pw: "pup_width ev = w" and w: "0 < w"
    and g: "grid_coords w (diam_ps ps / real w) (pupil_ps ps) = (xx, yy)"
    and f1: "factorh ev (thresh_ps ps) (covariance ev ps xx yy xx yy) (xx_max ps) = Inr (f_xx, inv_xx)"
    and wd: "wind ps = w0 # w1 # ws"
    and s1: "StateMatrix_init ev
         (tab (shape (covariance ev ps (map (\<lambda>a. a + w0 * ittime ps) xx) (map (\<lambda>a. a + w1 * ittime ps) yy) xx yy))
            (\<lambda>t. Fin (laminar ps)
                 * data (covariance ev ps (map (\<lambda>a. a + w0 * ittime ps) xx) (map (\<lambda>a. a + w1 * ittime ps) yy) xx yy) ! t))
         inv_xx = Inr sm"
    and s2: "sigma_vv sm (covariance ev ps xx yy xx yy) = Inr s_vv"
    and f2: "factorh ev (thresh_ps ps) s_vv (vv_max ps) = Inr (f_vv, u)"
    and sf: "shape f_xx = [n, k]"
    and x0: "matmul f_xx (fst (normal \<lparr>deviates = default_rng ev (seed ps), drawn = 0\<rparr> [k])) = Inr x0"
    and p1: "p1 = ps\<lparr>rng := Some (length h), pixsize := Some (diam_ps ps / real w),
                 factor_xx := Some f_xx, state_matrix := Some sm, factor_vv := Some f_vv,
                 x_ps := Some x0\<rparr>"
    and h1: "h1 = h @ [\<lparr>deviates = default_rng ev (seed ps), drawn = k\<rparr>]"
    by blast
  let ?ev = "ev\<lparr>clock := c\<rparr>"
  have ml: "finite_array (sm_ML sm)" and lt: "finite_array (sm_LT sm)"
    using fin by (simp_all add: finite_screen_def p1)
  have p: "einsum_ij_jk (sm_ML sm) (sm_LT sm) = Inr (sm_A sm)"
    using StateMatrix_init_parts [OF s1] by simp
  from StateMatrix_init_clock [OF s1, of c] obtain s where
    s1': "StateMatrix_init ?ev
         (tab (shape (covariance ev ps (map (\<lambda>a. a + w0 * ittime ps) xx) (map (\<lambda>a. a + w1 * ittime ps) yy) xx yy))
            (\<lambda>t. Fin (laminar ps)
                 * data (covariance ev ps (map (\<lambda>a. a + w0 * ittime ps) xx) (map (\<lambda>a. a + w1 * ittime ps) yy) xx yy) ! t))
         inv_xx = Inr (sm\<lparr>dot_sel := s\<rparr>)"
    by blast
  have s2': "sigma_vv (sm\<lparr>dot_sel := s\<rparr>) (covariance ev ps xx yy xx yy) = Inr s_vv"
    using sigma_vv_selection [OF ml lt p covariance_finite [of ev], of s ps xx yy xx yy] kern s2
    by simp
  have "PhaseScreen_init ?ev ps h'
       = Inr (ps\<lparr>rng := Some (length h'), pixsize := Some (diam_ps ps / real w),
                 factor_xx := Some f_xx, state_matrix := Some (sm\<lparr>dot_sel := s\<rparr>),
                 factor_vv := Some f_vv, x_ps := Some x0\<rparr>,
              h' @ [\<lparr>deviates = default_rng ?ev (seed ps), drawn = k\<rparr>])"
  proof (rule PhaseScreen_init_steps [OF wf shp _ w _ _ wd refl _ _ _ sf])
    show "pup_width ?ev = w" using pw by simp
    show "grid_coords w (diam_ps ps / real w) (pupil_ps ps) = (xx, yy)" by (rule g)
    show "factorh ?ev (thresh_ps ps) (covariance ?ev ps xx yy xx yy) (xx_max ps) = Inr (f_xx, inv_xx)"
      using f1 by simp
    show "StateMatrix_init ?ev
         (tab (shape (covariance ?ev ps (map (\<lambda>a. a + w0 * ittime ps) xx) (map (\<lambda>a. a + w1 * ittime ps) yy) xx yy))
            (\<lambda>t. Fin (laminar ps)
                 * data (covariance ?ev ps (map (\<lambda>a. a + w0 * ittime ps) xx) (map (\<lambda>a. a + w1 * ittime ps) yy) xx yy) ! t))
         inv_xx = Inr (sm\<lparr>dot_sel := s\<rparr>)"
      using s1' by simp
    show "sigma_vv (sm\<lparr>dot_sel := s\<rparr>) (covariance ?ev ps xx yy xx yy) = Inr s_vv"
      using s2' by simp
    show "factorh ?ev (thresh_ps ps) s_vv (vv_max ps) = Inr (f_vv, u)" using f2 by simp
    show "matmul f_xx (fst (normal \<lparr>deviates = default_rng ?ev (seed ps), drawn = 0\<rparr> [k])) = Inr x0"
      using x0 by simp
  qed
  then show ?thesis
    using p by (simp add: p1 h1) blast
qed

text \<open>
  Claim C8.  Take a phase screen that construction returns in an environment whose
  covariance kernel and whose generator of the given seed produce finite numbers, and
  whose arrays (the factors of the state matrix, the innovation factor, the state) are
  finite.  Construct a second screen from the same arguments where the benchmark reads
  any other clock, so that it may select the other product, in a store of its own.  Then
  the second construction succeeds too, \<open>n\<close> calls of \<open>step\<close> succeed on both screens, for
  every \<open>n\<close>, and both hold the same state vector afterwards.  Doubles are exact reals
  here: the two products differ in the order of their sums, and the rounding that would
  tell them apart is not represented; entries that are \<open>nan\<close> or infinite are excluded by
  the hypothesis.
\<close>

theorem benchmark_does_not_change_states:
  assumes init: "PhaseScreen_init ev ps h = Inr (p1, h1)"
    and kern: "\<And>a b c d e f. is_finite (kernel ev a b c d e f)"
    and devs: "\<And>i. is_finite (default_rng ev (seed ps) i)"
    and fin: "finite_screen p1"
  shows "\<exists>p2 h2 q1 k1 q2 k2 y.
       PhaseScreen_init (ev\<lparr>clock := c\<rparr>) ps h' = Inr (p2, h2)
     \<and> steps n p1 h1 = Inr (q1, k1) \<and> steps n p2 h2 = Inr (q2, k2)
     \<and> x_ps q1 = Some y \<and> x_ps q2 = Some y"
proof -
  from two_constructions [OF init kern fin, of c h'] obtain p2 h2 r1 r2 f sm s x where
    i2: "PhaseScreen_init (ev\<lparr>clock := c\<rparr>) ps h' = Inr (p2, h2)"
    and f1: "rng p1 = Some r1" "factor_vv p1 = Some f" "state_matrix p1 = Some sm" "x_ps p1 = Some x"
    and f2: "rng p2 = Some r2" "factor_vv p2 = Some f" "state_matrix p2 = Some (sm\<lparr>dot_sel := s\<rparr>)"
      "x_ps p2 = Some x"
    and g: "h1 ! r1 = h2 ! r2" and d: "deviates (h1 ! r1) = default_rng ev (seed ps)"
    and p: "einsum_ij_jk (sm_ML sm) (sm_LT sm) = Inr (sm_A sm)"
    by blast
  have ok1: "screen_ok p1 h1" using init by (rule init_establishes_ok)
  have ok2: "screen_ok p2 h2" using i2 by (rule init_establishes_ok)
  have ff: "finite_array (sm_ML sm)" "finite_array (sm_LT sm)" "finite_array f" "finite_array x"
    using fin by (simp_all add: finite_screen_def f1)
  have dv: "is_finite (deviates (h1 ! r1) i)" for i using devs by (simp add: d)
  from steps_agree [OF ok1 ok2 f1 f2 g ff(1,2) p ff(3,4) dv, of n] i2
  show ?thesis by blast
qed

lemma cov_unit:
  "covariance (ev_unit\<lparr>clock := t\<rparr>) ps [a] [b] [c] [d] = id_one"
proof -
  have "(pi * 4)\<^sup>2 * (0.5 / (pi * 2))\<^sup>2 = (1::real)"
    by (simp add: power2_eq_square field_simps)
  then show ?thesis
    by (simp add: covariance_def ev_unit_def tab_def times_fl_def id_one_def)
qed

lemma eigh_unit_ok:
  "eigh_checked (ev_unit\<lparr>clock := t\<rparr>) \<lparr>dtype = Float64, shape = [1, 1], data = [v]\<rparr>
     = Inr (\<lparr>dtype = Float64, shape = [1], data = [v]\<rparr>, id_one)"
  by (simp add: eigh_checked_def ev_unit_def eigh_one_def wf_array_def id_one_def)

lemma sqrt_unit: "sqrt (16 / 25) = 4 / 5"
  by (rule real_sqrt_unique) (simp_all add: power2_eq_square)

lemma factorh_unit:
  assumes "th < a" "0 \<le> th"
  shows "factorh (ev_unit\<lparr>clock := t\<rparr>) th \<lparr>dtype = Float64, shape = [1, 1], data = [Fin a]\<rparr> None
     = Inr (\<lparr>dtype = Float64, shape = [1, 1], data = [Fin (sqrt a)]\<rparr>,
            \<lparr>dtype = Float64, shape = [1, 1], data = [Fin (sqrt (1 / a))]\<rparr>)"
  using assms eigh_unit_ok [of t "Fin a"]
  by (simp add: id_one_def factorh_def valid_mask_def kept_def tab_def
        Let_def times_fl_def divide_fl_def one_fl_def)


lemma init_unit:
  "PhaseScreen_init (ev_unit\<lparr>clock := (t1, t2, t3)\<rparr>) ps_unit []
     = Inr (screen_unit (if (t3 - t2) / 10 > (t2 - t1) / 10 then Factored else Classic),
            [gen_one\<lparr>drawn := 1\<rparr>])"
proof -
  let ?ev = "ev_unit\<lparr>clock := (t1, t2, t3)\<rparr>"
  let ?s = "if (t3 - t2) / 10 > (t2 - t1) / 10 then Factored else Classic"
  let ?l = "\<lparr>dtype = Float64, shape = [1, 1], data = [Fin (3 / 5)]\<rparr> :: fl ndarray"
  let ?v = "\<lparr>dtype = Float64, shape = [1, 1], data = [Fin (16 / 25)]\<rparr> :: fl ndarray"
  let ?f = "\<lparr>dtype = Float64, shape = [1, 1], data = [Fin (4 / 5)]\<rparr> :: fl ndarray"
  let ?u = "\<lparr>dtype = Float64, shape = [1, 1], data = [Fin (sqrt (1 / (16 / 25)))]\<rparr> :: fl ndarray"
  let ?sm = "\<lparr>sm_ML = ?l, sm_LT = id_one, sm_A = ?l, dot_sel = ?s\<rparr>"
  have th: "thresh_ps ps_unit = 1 / 100000" and xm: "xx_max ps_unit = None"
    and vm: "vv_max ps_unit = None" and lam: "laminar ps_unit = 3 / 5"
    by (simp_all add: ps_unit_def PhaseScreen_defaults_def)
  have f1: "factorh ?ev (1 / 100000) id_one None = Inr (id_one, id_one)"
    using factorh_unit [of "1 / 100000" 1 "(t1, t2, t3)"] by (simp add: id_one_def)
  have f2: "factorh ?ev (1 / 100000) ?v None = Inr (?f, ?u)"
    using factorh_unit [of "1 / 100000" "16 / 25" "(t1, t2, t3)"] by (simp only: sqrt_unit)
  have yx: "tab (shape id_one) (\<lambda>t. Fin (3 / 5) * data id_one ! t) = ?l"
    by (simp add: id_one_def tab_def times_fl_def)
  have ml: "einsum_ij_jk ?l id_one = Inr ?l"
    by (simp add: einsum_ij_jk_def einsum_ij_jE_def id_one_def tab_def zero_fl_def plus_fl_def times_fl_def)
  have lt: "transpose2 id_one = Inr id_one"
    by (simp add: transpose2_def id_one_def tab_def)
  have s1: "StateMatrix_init ?ev ?l id_one = Inr ?sm"
    using StateMatrix_init_ok [of ?l 1 1 id_one 1 ?ev t1 t2 t3] ml lt
    by (simp add: id_one_def ev_unit_def)
  have d: "dot ?sm \<lparr>dtype = Float64, shape = [1, 1], data = [Fin v]\<rparr>
      = Inr \<lparr>dtype = Float64, shape = [1, 1], data = [Fin (3 / 5 * v)]\<rparr>" for v
    by (simp add: dot_def dot_factored_def dot_classic_def einsum_ij_jE_def id_one_def tab_def
        zero_fl_def plus_fl_def times_fl_def)
  have t: "transpose2 \<lparr>dtype = Float64, shape = [1, 1], data = [v]\<rparr>
      = Inr \<lparr>dtype = Float64, shape = [1, 1], data = [v]\<rparr>" for v :: fl
    by (simp add: transpose2_def tab_def)
  have e: "ew (-) id_one \<lparr>dtype = Float64, shape = [1, 1], data = [Fin (3 / 5 * (3 / 5 * 1))]\<rparr> = Inr ?v"
    by (simp add: ew_def tab_def minus_fl_def id_one_def)
  have s2: "sigma_vv ?sm id_one = Inr ?v"
    unfolding sigma_vv_def
    by (simp only: d [of 1, folded id_one_def] d t e sum.case)
  have x0: "matmul id_one (fst (normal \<lparr>deviates = default_rng ?ev (seed ps_unit), drawn = 0\<rparr> [1]))
      = Inr \<lparr>dtype = Float64, shape = [1], data = [Fin 1]\<rparr>"
    by (simp add: matmul_def einsum_ij_jE_def id_one_def normal_def tab_def zero_fl_def
        plus_fl_def times_fl_def ev_unit_def)
  have r: "PhaseScreen_init ?ev ps_unit []
      = Inr (ps_unit\<lparr>rng := Some (length ([] :: store)),
                pixsize := Some (diam_ps ps_unit / real 1),
                factor_xx := Some id_one, state_matrix := Some ?sm,
                factor_vv := Some ?f,
                x_ps := Some \<lparr>dtype = Float64, shape = [1], data = [Fin 1]\<rparr>\<rparr>,
             [] @ [\<lparr>deviates = default_rng ?ev (seed ps_unit), drawn = 1\<rparr>])"
  proof (rule PhaseScreen_init_steps [where w = 1 and xx = "[0]" and yy = "[0]"
        and inv_xx = id_one and ?w0.0 = 10 and ?w1.0 = 20 and ws = "[]" and c = id_one
        and s_vv = ?v and u = ?u and n = 1 and k = 1])
    show "wf_array (pupil_ps ps_unit)"
      by (simp add: ps_unit_def PhaseScreen_defaults_def pupil_one_def wf_array_def)
    show "shape (pupil_ps ps_unit) = [1, 1]"
      by (simp add: ps_unit_def PhaseScreen_defaults_def pupil_one_def)
    show "pup_width ?ev = 1" by (simp add: ev_unit_def)
    show "(0::nat) < 1" by simp
    show "grid_coords 1 (diam_ps ps_unit / real 1) (pupil_ps ps_unit) = ([0], [0])"
      by (simp add: grid_coords_def ps_unit_def PhaseScreen_defaults_def pupil_one_def)
    show "factorh ?ev (thresh_ps ps_unit) (covariance ?ev ps_unit [0] [0] [0] [0])
        (xx_max ps_unit) = Inr (id_one, id_one)"
      by (simp only: th xm cov_unit f1)
    show "wind ps_unit = [10, 20]"
      by (simp add: ps_unit_def PhaseScreen_defaults_def)
    show "id_one = covariance ?ev ps_unit (map (\<lambda>a. a + 10 * ittime ps_unit) [0])
        (map (\<lambda>a. a + 20 * ittime ps_unit) [0]) [0] [0]"
      by (simp only: list.map cov_unit)
    show "StateMatrix_init ?ev (tab (shape id_one) (\<lambda>t. Fin (laminar ps_unit) * data id_one ! t))
        id_one = Inr ?sm"
      by (simp only: lam yx s1)
    show "sigma_vv ?sm (covariance ?ev ps_unit [0] [0] [0] [0]) = Inr ?v"
      by (simp only: cov_unit s2)
    show "factorh ?ev (thresh_ps ps_unit) ?v (vv_max ps_unit) = Inr (?f, ?u)"
      by (simp only: th vm f2)
    show "shape id_one = [1, 1]" by (simp add: id_one_def)
    show "matmul id_one
        (fst (normal \<lparr>deviates = default_rng ?ev (seed ps_unit), drawn = 0\<rparr> [1]))
        = Inr \<lparr>dtype = Float64, shape = [1], data = [Fin 1]\<rparr>"
      by (rule x0)
  qed
  show ?thesis
    unfolding r
    by (simp add: screen_unit_def gen_one_def ev_unit_def ps_unit_def PhaseScreen_defaults_def)
qed

lemma step_unit:
  "step ((screen_unit s)\<lparr>x_ps := Some \<lparr>dtype = Float64, shape = [1], data = [Fin a]\<rparr>\<rparr>)
       [gen_one\<lparr>drawn := j\<rparr>]
     = Inr ((screen_unit s)\<lparr>x_ps := Some \<lparr>dtype = Float64, shape = [1],
                                   data = [Fin (3 / 5 * a + 4 / 5 * (real j + 1))]\<rparr>\<rparr>,
            [gen_one\<lparr>drawn := Suc j\<rparr>])"
  by (cases s)
     (simp_all add: step_def screen_unit_def ps_unit_def PhaseScreen_defaults_def gen_one_def
        normal_def tab_def dot_def dot_factored_def dot_classic_def einsum_ij_jE_def matmul_def
        ew_def Let_def id_one_def plus_fl_def times_fl_def zero_fl_def)

lemma steps_unit:
  "steps 2 (screen_unit s) [gen_one\<lparr>drawn := 1\<rparr>]
     = Inr ((screen_unit s)\<lparr>x_ps := Some \<lparr>dtype = Float64, shape = [1], data = [Fin (93 / 25)]\<rparr>\<rparr>,
            [gen_one\<lparr>drawn := 3\<rparr>])"
proof -
  have x: "(screen_unit s)\<lparr>x_ps := Some \<lparr>dtype = Float64, shape = [1], data = [Fin 1]\<rparr>\<rparr> = screen_unit s"
    by (simp add: screen_unit_def)
  have "step (screen_unit s) [gen_one\<lparr>drawn := 1\<rparr>]
     = Inr ((screen_unit s)\<lparr>x_ps := Some \<lparr>dtype = Float64, shape = [1], data = [Fin (11 / 5)]\<rparr>\<rparr>,
            [gen_one\<lparr>drawn := 2\<rparr>])"
    using step_unit [where s = s and a = 1 and j = 1, unfolded x] by (simp add: numeral_2_eq_2)
  moreover have "step ((screen_unit s)\<lparr>x_ps := Some \<lparr>dtype = Float64, shape = [1], data = [Fin (11 / 5)]\<rparr>\<rparr>)
      [gen_one\<lparr>drawn := 2\<rparr>]
     = Inr ((screen_unit s)\<lparr>x_ps := Some \<lparr>dtype = Float64, shape = [1], data = [Fin (93 / 25)]\<rparr>\<rparr>,
            [gen_one\<lparr>drawn := 3\<rparr>])"
    using step_unit [where s = s and a = "11 / 5" and j = 2] by (simp add: numeral_3_eq_3 numeral_2_eq_2)
  ultimately show ?thesis by (simp add: numeral_2_eq_2)
qed

theorem benchmark_does_not_change_states_witness:
  "PhaseScreen_init ev_unit ps_unit [] = Inr (screen_unit Factored, [gen_one\<lparr>drawn := 1\<rparr>])
   \<and> finite_screen (screen_unit Factored)
   \<and> PhaseScreen_init (ev_unit\<lparr>clock := (0, 2, 3)\<rparr>) ps_unit []
       = Inr (screen_unit Classic, [gen_one\<lparr>drawn := 1\<rparr>])
   \<and> (\<exists>q1 k1 q2 k2 y.
         steps 2 (screen_unit Factored) [gen_one\<lparr>drawn := 1\<rparr>] = Inr (q1, k1)
       \<and> steps 2 (screen_unit Classic) [gen_one\<lparr>drawn := 1\<rparr>] = Inr (q2, k2)
       \<and> x_ps q1 = Some y \<and> x_ps q2 = Some y
       \<and> y = \<lparr>dtype = Float64, shape = [1], data = [Fin (93 / 25)]\<rparr>)"
proof -
  have e: "ev_unit = ev_unit\<lparr>clock := (0, 1, 3)\<rparr>" by (simp add: ev_unit_def)
  have i1: "PhaseScreen_init ev_unit ps_unit [] = Inr (screen_unit Factored, [gen_one\<lparr>drawn := 1\<rparr>])"
    using init_unit [of 0 1 3] e by simp
  have i2: "PhaseScreen_init (ev_unit\<lparr>clock := (0, 2, 3)\<rparr>) ps_unit []
       = Inr (screen_unit Classic, [gen_one\<lparr>drawn := 1\<rparr>])"
    using init_unit [of 0 2 3] by simp
  have k: "is_finite (kernel ev_unit a b c d e f)" for a b c d e f
    by (simp add: ev_unit_def)
  have dv: "is_finite (default_rng ev_unit (seed ps_unit) i)" for i
    by (simp add: ev_unit_def)
  have fin: "finite_screen (screen_unit Factored)"
    by (simp add: finite_screen_def screen_unit_def finite_array_def wf_array_def id_one_def)
  from benchmark_does_not_change_states [OF i1 k dv fin, of "(0, 2, 3)" "[]" 2]
  show ?thesis
    using i1 i2 fin steps_unit [of Factored] steps_unit [of Classic] by simp
qed

section \<open>Where the arrays of a screen are finite\<close>

lemma tab_finite: "(\<And>t. t < prod_list sh \<Longrightarrow> is_finite (f t)) \<Longrightarrow> finite_array (tab sh f)"
  by (simp add: finite_array_def wf_tab) (simp add: tab_def list_all_iff)

lemma finite_nth: "finite_array a \<Longrightarrow> t < length (data a) \<Longrightarrow> is_finite (data a ! t)"
  by (simp add: finite_array_def list_all_length)

lemma is_finite_times: "is_finite u \<Longrightarrow> is_finite v \<Longrightarrow> is_finite (u * v)"
  by (cases u; cases v) (simp_all add: times_fl_def)

lemma kept_root_finite:
  assumes "0 \<le> th" "fl_less (Fin th) v"  "is_finite v"
  shows "is_finite (pow_half v) \<and> is_finite (pow_half (1 / v))"
  using assms by (cases v) (simp_all add: divide_fl_def one_fl_def times_fl_def)

lemma minus_finite:
  assumes a: "finite_array a" and x: "finite_array x" and y: "ew (-) a x = Inr y"
  shows "finite_array y"
proof -
  from a obtain a0 where a0: "wf_array a0" "a = lift a0" by (rule finite_arrayE)
  from x obtain x0 where x0: "wf_array x0" "x = lift x0" by (rule finite_arrayE)
  from y obtain y0 where y0: "ew (-) a0 x0 = Inr y0" "y = lift y0"
    by (cases "ew (-) a0 x0") (auto simp: a0 x0 lift_minus)
  show ?thesis using ew_wf [OF y0(1)] y0(2) by (simp add: finite_array_lift)
qed

lemma einsum_jk_finite:
  "finite_array a \<Longrightarrow> finite_array b \<Longrightarrow> einsum_ij_jk a b = Inr y \<Longrightarrow> finite_array y"
  by (auto simp: einsum_ij_jk_def split: list.splits dest: einsum_finite)

lemma factorh_finite:
  assumes f: "factorh ev th a None = Inr (fac, ifac)" and th: "0 \<le> th"
    and eg: "\<And>vals vecs. eigh ev a = Inr (vals, vecs)
               \<Longrightarrow> list_all is_finite (data vals) \<and> list_all is_finite (data vecs)"
  shows "finite_array fac \<and> finite_array ifac"
proof -
  from f obtain vals vecs where e: "eigh_checked ev a = Inr (vals, vecs)"
    by (auto simp: factorh_def split: sum.splits)
  then have eg': "eigh ev a = Inr (vals, vecs)" and wv: "wf_array vals" "wf_array vecs"
    by (auto simp: eigh_checked_def split: list.splits if_splits sum.splits)
  from eigh_checked_shape [OF e] obtain n where n: "length (data vals) = n"
    "length (data vecs) = n * n" by blast
  have fv: "finite_array vals" "finite_array vecs"
    using eg [OF eg'] wv by (simp_all add: finite_array_def)
  define cols where "cols = kept (map (fl_less (Fin th)) (data vals))"
  define k where "k = length cols"
  have v: "valid_mask th (data vals) None = Inr (map (fl_less (Fin th)) (data vals))"
    by (simp add: valid_mask_def)
  have ent: "is_finite (data vecs ! ((t div k) * n + cols ! (t mod k)))
      \<and> is_finite (pow_half (data vals ! (cols ! (t mod k))))
      \<and> is_finite (pow_half (1 / data vals ! (cols ! (t mod k))))"
    if t: "t < prod_list [n, k]" for t
  proof -
    from t have t': "t < n * k" by simp
    then have kpos: "0 < k" by (cases k) simp_all
    have "cols ! (t mod k) \<in> set cols" using kpos by (simp add: k_def)
    then have c0: "cols ! (t mod k) < length (data vals)
        \<and> map (fl_less (Fin th)) (data vals) ! (cols ! (t mod k))"
      by (simp add: cols_def kept_set)
    then have c1: "cols ! (t mod k) < length (data vals)" by simp
    have c: "cols ! (t mod k) < n" "fl_less (Fin th) (data vals ! (cols ! (t mod k)))"
      using c0 nth_map [OF c1, of "fl_less (Fin th)"] n(1) by auto
    have i: "t div k < n" using t' by (rule div_lt)
    have "(t div k) * n + cols ! (t mod k) < length (data vecs)"
      using idx_lt [OF i c(1)] n by simp
    then have "is_finite (data vecs ! ((t div k) * n + cols ! (t mod k)))"
      using fv(2) by (intro finite_nth)
    moreover have "is_finite (data vals ! (cols ! (t mod k)))"
      using fv(1) c(1) n by (intro finite_nth) simp_all
    ultimately show ?thesis using kept_root_finite [OF th c(2)] by simp
  qed
  have "factorh ev th a None
       = Inr (tab [n, k] (\<lambda>t. data vecs ! ((t div k) * n + cols ! (t mod k))
                                * pow_half (data vals ! (cols ! (t mod k)))),
              tab [n, k] (\<lambda>t. data vecs ! ((t div k) * n + cols ! (t mod k))
                                * pow_half (1 / data vals ! (cols ! (t mod k)))))"
    using factorh_entries [OF e v] by (simp add: n cols_def k_def)
  with f have "fac = tab [n, k] (\<lambda>t. data vecs ! ((t div k) * n + cols ! (t mod k))
                                * pow_half (data vals ! (cols ! (t mod k))))"
    and "ifac = tab [n, k] (\<lambda>t. data vecs ! ((t div k) * n + cols ! (t mod k))
                                * pow_half (1 / data vals ! (cols ! (t mod k))))"
    by simp_all
  then show ?thesis
    using ent by (auto intro!: tab_finite is_finite_times)
qed

lemma sigma_vv_finite:
  assumes ml: "finite_array (sm_ML sm)" and lt: "finite_array (sm_LT sm)"
    and p: "einsum_ij_jk (sm_ML sm) (sm_LT sm) = Inr (sm_A sm)"
    and s: "finite_array s" and r: "sigma_vv sm s = Inr y"
  shows "finite_array y"
proof -
  from r obtain b bt c ct where b: "dot sm s = Inr b" and bt: "transpose2 b = Inr bt"
    and c: "dot sm bt = Inr c" and ct: "transpose2 c = Inr ct" and y: "ew (-) s ct = Inr y"
    by (auto simp: sigma_vv_def split: sum.splits)
  have fa: "finite_array (sm_A sm)" using finite_dot(2) [OF ml lt p s] .
  have "einsum_ij_jE (sm_A sm) s = Inr b" using finite_dot(1) [OF ml lt p s] b by simp
  with fa s have fb: "finite_array b" by (rule einsum_finite)
  then have fbt: "finite_array bt" using bt by (rule transpose2_finite)
  have "einsum_ij_jE (sm_A sm) bt = Inr c" using finite_dot(1) [OF ml lt p fbt] c by simp
  with fa fbt have "finite_array c" by (rule einsum_finite)
  then have "finite_array ct" using ct by (rule transpose2_finite)
  with s show ?thesis using y by (rule minus_finite)
qed

text \<open>
  Under the threshold policy with a threshold that is not negative, the arrays of a
  constructed screen are finite whenever the libraries return finite numbers.
\<close>

lemma threshold_policy_gives_finite_screen:
  assumes init: "PhaseScreen_init ev ps h = Inr (p, h1)"
    and pol: "xx_max ps = None" "vv_max ps = None" "0 \<le> thresh_ps ps"
    and kern: "\<And>a b c d e f. is_finite (kernel ev a b c d e f)"
    and devs: "\<And>i. is_finite (default_rng ev (seed ps) i)"
    and eg: "\<And>a vals vecs. eigh ev a = Inr (vals, vecs)
               \<Longrightarrow> list_all is_finite (data vals) \<and> list_all is_finite (data vecs)"
  shows "finite_screen p"
proof -
  from PhaseScreen_init_inv [OF init] obtain w xx yy f_xx inv_xx w0 w1 ws sm s_vv f_vv u n k x0
    where f1: "factorh ev (thresh_ps ps) (covariance ev ps xx yy xx yy) (xx_max ps) = Inr (f_xx, inv_xx)"
    and s1: "StateMatrix_init ev
         (tab (shape (covariance ev ps (map (\<lambda>a. a + w0 * ittime ps) xx) (map (\<lambda>a. a + w1 * ittime ps) yy) xx yy))
            (\<lambda>t. Fin (laminar ps)
                 * data (covariance ev ps (map (\<lambda>a. a + w0 * ittime ps) xx) (map (\<lambda>a. a + w1 * ittime ps) yy) xx yy) ! t))
         inv_xx = Inr sm"
    and s2: "sigma_vv sm (covariance ev ps xx yy xx yy) = Inr s_vv"
    and f2: "factorh ev (thresh_ps ps) s_vv (vv_max ps) = Inr (f_vv, u)"
    and wd: "wind ps = w0 # w1 # ws" and sf: "shape f_xx = [n, k]"
    and x0: "matmul f_xx (fst (normal \<lparr>deviates = default_rng ev (seed ps), drawn = 0\<rparr> [k])) = Inr x0"
    and p: "p = ps\<lparr>rng := Some (length h), pixsize := Some (diam_ps ps / real w),
                 factor_xx := Some f_xx, state_matrix := Some sm, factor_vv := Some f_vv,
                 x_ps := Some x0\<rparr>"
    by blast
  let ?c = "covariance ev ps (map (\<lambda>a. a + w0 * ittime ps) xx) (map (\<lambda>a. a + w1 * ittime ps) yy) xx yy"
  have fxx: "finite_array f_xx" "finite_array inv_xx"
    using factorh_finite [OF f1 [unfolded pol(1)] pol(3) eg] by simp_all
  have fc: "finite_array ?c" using kern by (rule covariance_finite)
  have fyx: "finite_array (tab (shape ?c) (\<lambda>t. Fin (laminar ps) * data ?c ! t))"
  proof (rule tab_finite)
    fix t assume "t < prod_list (shape ?c)"
    then have "t < length (data ?c)" using fc by (simp add: finite_array_def wf_array_def)
    then have "is_finite (data ?c ! t)" using fc by (intro finite_nth)
    then show "is_finite (Fin (laminar ps) * data ?c ! t)" by (intro is_finite_times) simp_all
  qed
  note parts = StateMatrix_init_parts [OF s1]
  have ml: "finite_array (sm_ML sm)" using fyx fxx(2) parts by (blast intro: einsum_jk_finite)
  have lt: "finite_array (sm_LT sm)" using fxx(2) parts by (blast intro: transpose2_finite)
  have pp: "einsum_ij_jk (sm_ML sm) (sm_LT sm) = Inr (sm_A sm)" using parts by simp
  have fs: "finite_array s_vv"
    using sigma_vv_finite [OF ml lt pp covariance_finite s2] kern by simp
  have fvv: "finite_array f_vv"
    using factorh_finite [OF f2 [unfolded pol(2)] pol(3) eg] by simp
  have "finite_array (fst (normal \<lparr>deviates = default_rng ev (seed ps), drawn = 0\<rparr> [k]))"
    using devs by (intro normal_finite) simp
  with fxx(1) have "finite_array x0" using x0 by (rule matmul_finite)
  then show ?thesis
    using ml lt fvv by (simp add: finite_screen_def p)
qed

end
